theory Spec2Isabelle
  imports Complex_Main "HOL-Library.Signed_Division"
begin

section \<open>The Alonso interpreter: lexer, parser and tree-walking evaluator\<close>

text \<open>
  A shallow embedding of the Go sources: the lexer (\<open>Lexer\<close>, \<open>NextToken\<close>), the Pratt
  parser (\<open>Parser\<close>, \<open>ParseProgram\<close>), the object system with its environments, and
  the evaluator (\<open>Eval\<close>, \<open>Execute\<close>). Go pointers to mutable objects (environments,
  arrays) are addresses into an explicit store; Go's \<open>nil\<close> interface value, run-time
  panics and non-termination are values of the model.
\<close>

subsection \<open>float64\<close>

text \<open>
  A \<open>float64\<close> is a sign and a non-negative magnitude, an infinity, or NaN. Arithmetic is
  the exact rational operation followed by IEEE-754 rounding to the nearest binary64
  value, ties to even (\<open>round64\<close>).
\<close>

datatype float64 = Fin bool rat | Infinity bool | NaN

definition pow2 :: "int \<Rightarrow> rat" where
  "pow2 e = (if 0 \<le> e then 2 ^ nat e else 1 / 2 ^ nat (- e))"

text \<open>The number of binary digits of a positive integer.\<close>

function bitlen :: "int \<Rightarrow> int" where
  "bitlen n = (if n \<le> 0 then 0 else 1 + bitlen (n div 2))"
  by pat_completeness auto
termination
  by (relation "measure nat") auto

declare bitlen.simps [simp del]

text \<open>\<open>ilog2 m\<close> is the integer part of the binary logarithm of a positive rational.\<close>

definition ilog2 :: "rat \<Rightarrow> int" where
  "ilog2 m = (let (a, b) = quotient_of m;
                  e0 = bitlen a - bitlen b
              in if pow2 e0 \<le> m then e0 else e0 - 1)"

definition round_half_even :: "rat \<Rightarrow> int" where
  "round_half_even x = (let f = \<lfloor>x\<rfloor>; d = x - of_int f in
     if d < 1 / 2 then f else if 1 / 2 < d then f + 1
     else if even f then f else f + 1)"

text \<open>Rounds the magnitude \<open>m \<ge> 0\<close> to binary64: 53 bits of precision, exponents down to
  \<open>-1074\<close> (subnormals), overflow to infinity.\<close>

definition round64 :: "bool \<Rightarrow> rat \<Rightarrow> float64" where
  "round64 s m = (if m = 0 then Fin s 0 else
     (let q = max (ilog2 m - 52) (- 1074);
          r = of_int (round_half_even (m / pow2 q)) * pow2 q
      in if pow2 1024 \<le> r then Infinity s else Fin s r))"

definition f64_is_zero :: "float64 \<Rightarrow> bool" where
  "f64_is_zero x = (case x of Fin s m \<Rightarrow> m = 0 | _ \<Rightarrow> False)"

text \<open>The value of a finite float as a rational.\<close>

definition f64_val :: "bool \<Rightarrow> rat \<Rightarrow> rat" where
  "f64_val s m = (if s then - m else m)"

definition f64_of_rat :: "rat \<Rightarrow> float64" where
  "f64_of_rat r = round64 (r < 0) \<bar>r\<bar>"

definition f64_neg :: "float64 \<Rightarrow> float64" where
  "f64_neg x = (case x of Fin s m \<Rightarrow> Fin (\<not> s) m | Infinity s \<Rightarrow> Infinity (\<not> s) | NaN \<Rightarrow> NaN)"

fun f64_add :: "float64 \<Rightarrow> float64 \<Rightarrow> float64" where
  "f64_add NaN y = NaN"
| "f64_add x NaN = NaN"
| "f64_add (Infinity s) (Infinity t) = (if s = t then Infinity s else NaN)"
| "f64_add (Infinity s) (Fin t n) = Infinity s"
| "f64_add (Fin s m) (Infinity t) = Infinity t"
| "f64_add (Fin s m) (Fin t n) =
     (let r = f64_val s m + f64_val t n in
      if r = 0 then Fin (s \<and> t) 0 else f64_of_rat r)"

definition f64_sub :: "float64 \<Rightarrow> float64 \<Rightarrow> float64" where
  "f64_sub x y = f64_add x (f64_neg y)"

fun f64_mul :: "float64 \<Rightarrow> float64 \<Rightarrow> float64" where
  "f64_mul NaN y = NaN"
| "f64_mul x NaN = NaN"
| "f64_mul (Infinity s) (Infinity t) = Infinity (s \<noteq> t)"
| "f64_mul (Infinity s) (Fin t n) = (if n = 0 then NaN else Infinity (s \<noteq> t))"
| "f64_mul (Fin s m) (Infinity t) = (if m = 0 then NaN else Infinity (s \<noteq> t))"
| "f64_mul (Fin s m) (Fin t n) = round64 (s \<noteq> t) (m * n)"

fun f64_div :: "float64 \<Rightarrow> float64 \<Rightarrow> float64" where
  "f64_div NaN y = NaN"
| "f64_div x NaN = NaN"
| "f64_div (Infinity s) (Infinity t) = NaN"
| "f64_div (Infinity s) (Fin t n) = Infinity (s \<noteq> t)"
| "f64_div (Fin s m) (Infinity t) = Fin (s \<noteq> t) 0"
| "f64_div (Fin s m) (Fin t n) =
     (if n = 0 then (if m = 0 then NaN else Infinity (s \<noteq> t))
      else round64 (s \<noteq> t) (m / n))"

fun f64_eq :: "float64 \<Rightarrow> float64 \<Rightarrow> bool" where
  "f64_eq NaN y = False"
| "f64_eq x NaN = False"
| "f64_eq (Infinity s) (Infinity t) = (s = t)"
| "f64_eq (Infinity s) (Fin t n) = False"
| "f64_eq (Fin s m) (Infinity t) = False"
| "f64_eq (Fin s m) (Fin t n) = (f64_val s m = f64_val t n)"

fun f64_lt :: "float64 \<Rightarrow> float64 \<Rightarrow> bool" where
  "f64_lt NaN y = False"
| "f64_lt x NaN = False"
| "f64_lt (Infinity s) (Infinity t) = (s \<and> \<not> t)"
| "f64_lt (Infinity s) (Fin t n) = s"
| "f64_lt (Fin s m) (Infinity t) = (\<not> t)"
| "f64_lt (Fin s m) (Fin t n) = (f64_val s m < f64_val t n)"

definition f64_le :: "float64 \<Rightarrow> float64 \<Rightarrow> bool" where
  "f64_le x y = (f64_lt x y \<or> f64_eq x y)"

text \<open>
  Go's conversion \<open>int(f)\<close> of a float64 to the 64-bit \<open>int\<close>: the fraction is discarded.
  The language leaves the result open when the truncated value is not an int64 (also for
  infinities and NaN); the amd64 instruction yields the most negative integer there, and
  so does this model.
\<close>

definition MinInt64 :: int where
  "MinInt64 = - (2 ^ 63)"

definition MaxInt64 :: int where
  "MaxInt64 = 2 ^ 63 - 1"

definition int_of_float64 :: "float64 \<Rightarrow> int" where
  "int_of_float64 x = (case x of
       Fin s m \<Rightarrow> (let t = (if s then - \<lfloor>m\<rfloor> else \<lfloor>m\<rfloor>) in
                    if MinInt64 \<le> t \<and> t \<le> MaxInt64 then t else MinInt64)
     | Infinity s \<Rightarrow> MinInt64
     | NaN \<Rightarrow> MinInt64)"

text \<open>Go's conversion \<open>float64(n)\<close> of an integer: the nearest float64.\<close>

definition float64_of_int :: "int \<Rightarrow> float64" where
  "float64_of_int n = f64_of_rat (of_int n)"

text \<open>
  \<open>strconv.ParseFloat(s, 64)\<close> on the lexemes the lexer's \<open>readNumber\<close> produces (ASCII
  digits and dots, a digit first): one dot at most, else a syntax error; the decimal value
  correctly rounded; a value that rounds to infinity is a range error. \<open>None\<close> is a
  non-nil \<open>err\<close>.
\<close>

definition digit_val :: "char \<Rightarrow> int" where
  "digit_val c = of_char c - 48"

definition decimal_val :: "string \<Rightarrow> int" where
  "decimal_val ds = foldl (\<lambda>acc c. 10 * acc + digit_val c) 0 ds"

definition ParseFloat :: "string \<Rightarrow> float64 option" where
  "ParseFloat s =
     (let ip = takeWhile (\<lambda>c. c \<noteq> CHR ''.'') s;
          rest = dropWhile (\<lambda>c. c \<noteq> CHR ''.'') s;
          fp = (case rest of [] \<Rightarrow> [] | d # ds \<Rightarrow> ds)
      in if CHR ''.'' \<in> set fp \<or> ip @ fp = [] then None
         else (case round64 False (of_int (decimal_val (ip @ fp)) / 10 ^ length fp) of
                 Fin sg m \<Rightarrow> Some (Fin sg m)
               | _ \<Rightarrow> None))"

subsection \<open>Tokens and the lexer\<close>

datatype TokenType =
    NUMBER | STRING | IDENTIFIER | BOOLEAN
  | GRID | PACE | CIRCUIT | ELSE_CIRCUIT | LOOP | WHILE_RACING | RETURN_PIT
  | BREAK_FLAG | CONTINUE_RACE
  | FORMATION | GARAGE
  | ASSIGN | PLUS | MINUS | MULTIPLY | DIVIDE | MODULO
  | EQUAL | NOT_EQUAL | LESS | LESS_EQUAL | GREATER | GREATER_EQUAL
  | AND | OR | NOT
  | SEMICOLON | COMMA | DOT
  | LPAREN | RPAREN | LBRACE | RBRACE | LBRACKET | RBRACKET
  | NEWLINE | EOF | ILLEGAL

record Token =
  Type :: TokenType
  Value :: string
  Line :: nat
  Column :: nat

record Lexer =
  input :: string
  position :: nat
  line :: nat
  column :: nat

definition NewLexer :: "string \<Rightarrow> Lexer" where
  "NewLexer inp = \<lparr>input = inp, position = 0, line = 1, column = 1\<rparr>"

definition advance :: "Lexer \<Rightarrow> Lexer" where
  "advance l = l\<lparr>position := position l + 1, column := column l + 1\<rparr>"

definition peek :: "Lexer \<Rightarrow> char" where
  "peek l = (if length (input l) \<le> position l + 1 then CHR 0x00
             else input l ! (position l + 1))"

text \<open>\<open>unicode.IsDigit\<close> and \<open>unicode.IsLetter\<close> on \<open>rune(ch)\<close> for a byte \<open>ch\<close>: the
  rune is a Latin-1 code point, so the Latin-1 letters count as letters.\<close>

definition IsDigit :: "char \<Rightarrow> bool" where
  "IsDigit c = (let n = (of_char c :: nat) in 48 \<le> n \<and> n \<le> 57)"

definition IsLetter :: "char \<Rightarrow> bool" where
  "IsLetter c = (let n = (of_char c :: nat) in
     (65 \<le> n \<and> n \<le> 90) \<or> (97 \<le> n \<and> n \<le> 122) \<or> n = 170 \<or> n = 181 \<or> n = 186
     \<or> (192 \<le> n \<and> n \<le> 214) \<or> (216 \<le> n \<and> n \<le> 246) \<or> (248 \<le> n \<and> n \<le> 255))"

function skipWhitespace :: "Lexer \<Rightarrow> Lexer" where
  "skipWhitespace l =
     (if position l < length (input l) then
        (let ch = input l ! position l in
         if ch = CHR '' '' \<or> ch = CHR 0x09 \<or> ch = CHR 0x0D
         then skipWhitespace (advance l) else l)
      else l)"
  by pat_completeness auto
termination
  by (relation "measure (\<lambda>l. length (input l) - position l)") (auto simp: advance_def)

declare skipWhitespace.simps [simp del]

function skipComment :: "Lexer \<Rightarrow> Lexer" where
  "skipComment l =
     (if position l < length (input l) \<and> input l ! position l \<noteq> CHR 0x0A
      then skipComment (advance l) else l)"
  by pat_completeness auto
termination
  by (relation "measure (\<lambda>l. length (input l) - position l)") (auto simp: advance_def)

declare skipComment.simps [simp del]

text \<open>The Go slice expression \<open>s[a:b]\<close>.\<close>

definition slice :: "string \<Rightarrow> nat \<Rightarrow> nat \<Rightarrow> string" where
  "slice s a b = take (b - a) (drop a s)"

function readString_loop :: "Lexer \<Rightarrow> Lexer" where
  "readString_loop l =
     (if position l < length (input l) \<and> input l ! position l \<noteq> CHR 0x22
      then readString_loop (advance l) else l)"
  by pat_completeness auto
termination
  by (relation "measure (\<lambda>l. length (input l) - position l)") (auto simp: advance_def)

declare readString_loop.simps [simp del]

definition readString :: "Lexer \<Rightarrow> Token \<times> Lexer" where
  "readString l =
     (let start = position l; startCol = column l;
          l1 = readString_loop (advance l)
      in if length (input l1) \<le> position l1
         then (\<lparr>Type = ILLEGAL, Value = ''unterminated string'', Line = line l1,
                Column = startCol\<rparr>, l1)
         else (let val = slice (input l1) (start + 1) (position l1);
                   l2 = advance l1
               in (\<lparr>Type = STRING, Value = val, Line = line l2, Column = startCol\<rparr>, l2)))"

function readNumber_loop :: "Lexer \<Rightarrow> Lexer" where
  "readNumber_loop l =
     (if position l < length (input l)
         \<and> (IsDigit (input l ! position l) \<or> input l ! position l = CHR ''.'')
      then readNumber_loop (advance l) else l)"
  by pat_completeness auto
termination
  by (relation "measure (\<lambda>l. length (input l) - position l)") (auto simp: advance_def)

declare readNumber_loop.simps [simp del]

definition readNumber :: "Lexer \<Rightarrow> Token \<times> Lexer" where
  "readNumber l =
     (let start = position l; startCol = column l;
          l1 = readNumber_loop l
      in (\<lparr>Type = NUMBER, Value = slice (input l1) start (position l1), Line = line l1,
           Column = startCol\<rparr>, l1))"

definition getKeywordType :: "string \<Rightarrow> TokenType" where
  "getKeywordType identifier =
     (case map_of
        [(''grid'', GRID), (''pace'', PACE), (''circuit'', CIRCUIT),
         (''else_circuit'', ELSE_CIRCUIT), (''loop'', LOOP),
         (''while_racing'', WHILE_RACING), (''return_pit'', RETURN_PIT),
         (''break_flag'', BREAK_FLAG), (''continue_race'', CONTINUE_RACE),
         (''formation'', FORMATION), (''garage'', GARAGE),
         (''true'', BOOLEAN), (''false'', BOOLEAN)] identifier of
        Some tokenType \<Rightarrow> tokenType
      | None \<Rightarrow> IDENTIFIER)"

function readIdentifier_loop :: "Lexer \<Rightarrow> Lexer" where
  "readIdentifier_loop l =
     (if position l < length (input l)
         \<and> (IsLetter (input l ! position l) \<or> IsDigit (input l ! position l)
            \<or> input l ! position l = CHR ''_'')
      then readIdentifier_loop (advance l) else l)"
  by pat_completeness auto
termination
  by (relation "measure (\<lambda>l. length (input l) - position l)") (auto simp: advance_def)

declare readIdentifier_loop.simps [simp del]

definition readIdentifier :: "Lexer \<Rightarrow> Token \<times> Lexer" where
  "readIdentifier l =
     (let start = position l; startCol = column l;
          l1 = readIdentifier_loop l;
          val = slice (input l1) start (position l1)
      in (\<lparr>Type = getKeywordType val, Value = val, Line = line l1, Column = startCol\<rparr>, l1))"

text \<open>
  The Go conversion \<open>string(ch)\<close> of a byte \<open>ch\<close>: the UTF-8 encoding of the code point
  with that number, one byte below \<open>0x80\<close> and two bytes from there on.
\<close>

definition string_of_byte :: "char \<Rightarrow> string" where
  "string_of_byte ch = (let n = (of_char ch :: nat) in
     if n < 128 then [ch] else [char_of (192 + n div 64), char_of (128 + n mod 64)])"

definition singleCharToken :: "Lexer \<Rightarrow> TokenType \<Rightarrow> Token \<times> Lexer" where
  "singleCharToken l tokenType =
     (let ch = input l ! position l in
      (\<lparr>Type = tokenType, Value = string_of_byte ch, Line = line l, Column = column l\<rparr>,
       advance l))"

text \<open>The branch the two-character operators share in \<open>NextToken\<close>: advance twice, then
  build the token with the column two back.\<close>

definition twoCharToken :: "Lexer \<Rightarrow> TokenType \<Rightarrow> string \<Rightarrow> Token \<times> Lexer" where
  "twoCharToken l tokenType val =
     (let l2 = advance (advance l) in
      (\<lparr>Type = tokenType, Value = val, Line = line l2, Column = column l2 - 2\<rparr>, l2))"

definition illegalToken :: "Lexer \<Rightarrow> Token \<times> Lexer" where
  "illegalToken l =
     (\<lparr>Type = ILLEGAL, Value = string_of_byte (input l ! position l), Line = line l,
       Column = column l\<rparr>, l)"

function NextToken :: "Lexer \<Rightarrow> Token \<times> Lexer" where
  "NextToken l0 =
     (let l = skipWhitespace l0 in
      if length (input l) \<le> position l
      then (\<lparr>Type = EOF, Value = [], Line = line l, Column = column l\<rparr>, l)
      else (let ch = input l ! position l in
        if ch = CHR ''/'' \<and> peek l = CHR ''/'' then NextToken (skipComment l)
        else if ch = CHR 0x0A then
          (let l1 = advance l in
           (\<lparr>Type = NEWLINE, Value = string_of_byte ch, Line = line l, Column = column l\<rparr>,
            l1\<lparr>line := line l1 + 1, column := 1\<rparr>))
        else if ch = CHR ''='' then
          (if peek l = CHR ''='' then twoCharToken l EQUAL ''==''
           else singleCharToken l ASSIGN)
        else if ch = CHR ''+'' then singleCharToken l PLUS
        else if ch = CHR ''-'' then singleCharToken l MINUS
        else if ch = CHR ''*'' then singleCharToken l MULTIPLY
        else if ch = CHR ''/'' then singleCharToken l DIVIDE
        else if ch = CHR ''%'' then singleCharToken l MODULO
        else if ch = CHR ''!'' then
          (if peek l = CHR ''='' then twoCharToken l NOT_EQUAL ''!=''
           else singleCharToken l NOT)
        else if ch = CHR ''<'' then
          (if peek l = CHR ''='' then twoCharToken l LESS_EQUAL ''<=''
           else singleCharToken l LESS)
        else if ch = CHR ''>'' then
          (if peek l = CHR ''='' then twoCharToken l GREATER_EQUAL ''>=''
           else singleCharToken l GREATER)
        else if ch = CHR ''&'' then
          (if peek l = CHR ''&'' then twoCharToken l AND ''&&'' else illegalToken l)
        else if ch = CHR ''|'' then
          (if peek l = CHR ''|'' then twoCharToken l OR ''||'' else illegalToken l)
        else if ch = CHR '';'' then singleCharToken l SEMICOLON
        else if ch = CHR '','' then singleCharToken l COMMA
        else if ch = CHR ''.'' then singleCharToken l DOT
        else if ch = CHR ''('' then singleCharToken l LPAREN
        else if ch = CHR '')'' then singleCharToken l RPAREN
        else if ch = CHR ''{'' then singleCharToken l LBRACE
        else if ch = CHR ''}'' then singleCharToken l RBRACE
        else if ch = CHR ''['' then singleCharToken l LBRACKET
        else if ch = CHR '']'' then singleCharToken l RBRACKET
        else if ch = CHR 0x22 then readString l
        else if IsDigit ch then readNumber l
        else if IsLetter ch \<or> ch = CHR ''_'' then readIdentifier l
        else illegalToken l))"
  by pat_completeness auto
termination
proof (relation "measure (\<lambda>l. length (input l) - position l)")
  show "wf (measure (\<lambda>l. length (input l) - position l))"
    by simp
next
  fix l0 l :: Lexer and ch :: char
  assume l: "l = skipWhitespace l0"
    and inb: "\<not> length (input l) \<le> position l"
    and ch: "ch = input l ! position l"
    and cm: "ch = CHR ''/'' \<and> peek l = CHR ''/''"
  have ws: "input (skipWhitespace k) = input k \<and> position k \<le> position (skipWhitespace k)"
    for k
  proof (induction k rule: skipWhitespace.induct)
    case (1 k)
    show ?case
    proof (cases "position k < length (input k)
        \<and> (input k ! position k = CHR '' '' \<or> input k ! position k = CHR 0x09
           \<or> input k ! position k = CHR 0x0D)")
      case True
      then have "skipWhitespace k = skipWhitespace (advance k)"
        by (subst skipWhitespace.simps) simp
      moreover have "input (skipWhitespace (advance k)) = input (advance k)
          \<and> position (advance k) \<le> position (skipWhitespace (advance k))"
        using True "1.IH" by auto
      ultimately show ?thesis by (simp add: advance_def)
    next
      case False
      then have "skipWhitespace k = k"
        by (subst skipWhitespace.simps) (auto simp: Let_def)
      then show ?thesis by simp
    qed
  qed
  have sc: "input (skipComment k) = input k \<and> position k \<le> position (skipComment k)"
    for k
  proof (induction k rule: skipComment.induct)
    case (1 k)
    show ?case
    proof (cases "position k < length (input k) \<and> input k ! position k \<noteq> CHR 0x0A")
      case True
      then have "skipComment k = skipComment (advance k)"
        by (subst skipComment.simps) simp
      moreover have "input (skipComment (advance k)) = input (advance k)
          \<and> position (advance k) \<le> position (skipComment (advance k))"
        using True "1.IH" by auto
      ultimately show ?thesis by (simp add: advance_def)
    next
      case False
      then have "skipComment k = k"
        by (subst skipComment.simps) auto
      then show ?thesis by simp
    qed
  qed
  have "skipComment l = skipComment (advance l)"
    using inb ch cm by (subst skipComment.simps) auto
  then have "position l < position (skipComment l)"
    using sc [of "advance l"] by (simp add: advance_def)
  moreover have "input (skipComment l) = input l"
    using sc by simp
  moreover have "input l = input l0" "position l0 \<le> position l"
    using ws [of l0] l by simp_all
  ultimately show "(skipComment l, l0) \<in> measure (\<lambda>l. length (input l) - position l)"
    using inb by simp
qed

declare NextToken.simps [simp del]


definition TokenType_String :: "TokenType \<Rightarrow> string" where
  "TokenType_String t = (case t of
      NUMBER \<Rightarrow> ''NUMBER'' | STRING \<Rightarrow> ''STRING'' | IDENTIFIER \<Rightarrow> ''IDENTIFIER''
    | BOOLEAN \<Rightarrow> ''BOOLEAN'' | GRID \<Rightarrow> ''GRID'' | PACE \<Rightarrow> ''PACE''
    | CIRCUIT \<Rightarrow> ''CIRCUIT'' | ELSE_CIRCUIT \<Rightarrow> ''ELSE_CIRCUIT'' | LOOP \<Rightarrow> ''LOOP''
    | WHILE_RACING \<Rightarrow> ''WHILE_RACING'' | RETURN_PIT \<Rightarrow> ''RETURN_PIT''
    | BREAK_FLAG \<Rightarrow> ''BREAK_FLAG'' | CONTINUE_RACE \<Rightarrow> ''CONTINUE_RACE''
    | FORMATION \<Rightarrow> ''FORMATION'' | GARAGE \<Rightarrow> ''GARAGE''
    | ASSIGN \<Rightarrow> ''ASSIGN'' | PLUS \<Rightarrow> ''PLUS'' | MINUS \<Rightarrow> ''MINUS''
    | MULTIPLY \<Rightarrow> ''MULTIPLY'' | DIVIDE \<Rightarrow> ''DIVIDE'' | MODULO \<Rightarrow> ''MODULO''
    | EQUAL \<Rightarrow> ''EQUAL'' | NOT_EQUAL \<Rightarrow> ''NOT_EQUAL'' | LESS \<Rightarrow> ''LESS''
    | LESS_EQUAL \<Rightarrow> ''LESS_EQUAL'' | GREATER \<Rightarrow> ''GREATER''
    | GREATER_EQUAL \<Rightarrow> ''GREATER_EQUAL''
    | AND \<Rightarrow> ''AND'' | OR \<Rightarrow> ''OR'' | NOT \<Rightarrow> ''NOT''
    | SEMICOLON \<Rightarrow> ''SEMICOLON'' | COMMA \<Rightarrow> ''COMMA'' | DOT \<Rightarrow> ''DOT''
    | LPAREN \<Rightarrow> ''LPAREN'' | RPAREN \<Rightarrow> ''RPAREN'' | LBRACE \<Rightarrow> ''LBRACE''
    | RBRACE \<Rightarrow> ''RBRACE'' | LBRACKET \<Rightarrow> ''LBRACKET'' | RBRACKET \<Rightarrow> ''RBRACKET''
    | NEWLINE \<Rightarrow> ''NEWLINE'' | EOF \<Rightarrow> ''EOF'' | ILLEGAL \<Rightarrow> ''ILLEGAL'')"

subsection \<open>The abstract syntax tree\<close>

text \<open>
  An \<open>Expression\<close> field of a node holds a node or Go's nil interface value
  (\<open>NilExpression\<close>: what the parser's expression functions return on an error, and the
  absent value of a \<open>return_pit\<close>). A \<open>Statement\<close> is a node, the nil interface value
  (\<open>NilStatement\<close>) or a nil pointer of a statement type inside a non-nil interface
  (\<open>NilPointer\<close>: what \<open>parseStatement\<close> returns when a statement parser gives up).
  An \<open>*Identifier\<close> field is the identifier's name; a \<open>*BlockStatement\<close> field is the
  block's statement list.
\<close>

datatype Expression =
    Identifier string
  | NumberLiteral float64
  | StringLiteral string
  | BooleanLiteral bool
  | FormationLiteral "Expression list"
  | IndexExpression Expression Expression
  | InfixExpression Expression string Expression
  | PrefixExpression string Expression
  | CallExpression Expression "Expression list"
  | AssignmentExpression string Expression
  | NilExpression

datatype Statement =
    GridStatement string Expression
  | PaceStatement string "string list" "Statement list"
  | CircuitStatement Expression "Statement list" "Statement list option"
  | LoopStatement Statement Expression Statement "Statement list"
  | WhileRacingStatement Expression "Statement list"
  | ReturnPitStatement Expression
  | BreakFlagStatement
  | ContinueRaceStatement
  | ExpressionStatement Expression
  | BlockStatement "Statement list"
  | NilStatement
  | NilPointer

datatype Node = Program "Statement list" | Stmt Statement | Expr Expression

subsection \<open>The parser\<close>

record Parser =
  lexer :: Lexer
  currentToken :: Token
  peekToken :: Token
  errors :: "string list"

definition LOWEST :: nat where "LOWEST = 1"
definition LOGICAL :: nat where "LOGICAL = 2"
definition EQUALS :: nat where "EQUALS = 3"
definition LESSGREATER :: nat where "LESSGREATER = 4"
definition SUM_prec :: nat where "SUM_prec = 5"
definition PRODUCT :: nat where "PRODUCT = 6"
definition PREFIX :: nat where "PREFIX = 7"
definition CALL :: nat where "CALL = 8"
definition INDEX :: nat where "INDEX = 9"

definition precedences :: "TokenType \<Rightarrow> nat option" where
  "precedences = map_of
     [(AND, LOGICAL), (OR, LOGICAL), (EQUAL, EQUALS), (NOT_EQUAL, EQUALS),
      (LESS, LESSGREATER), (GREATER, LESSGREATER), (LESS_EQUAL, LESSGREATER),
      (GREATER_EQUAL, LESSGREATER), (PLUS, SUM_prec), (MINUS, SUM_prec), (DIVIDE, PRODUCT),
      (MULTIPLY, PRODUCT), (MODULO, PRODUCT), (ASSIGN, EQUALS), (LPAREN, CALL),
      (LBRACKET, INDEX)]"

definition nextToken :: "Parser \<Rightarrow> Parser" where
  "nextToken p = (let (tok, l) = NextToken (lexer p) in
     p\<lparr>currentToken := peekToken p, peekToken := tok, lexer := l\<rparr>)"

text \<open>Before the two priming calls both tokens are the zero \<open>Token\<close>, whose type is the
  first constant of the enumeration.\<close>

definition NewParser :: "Lexer \<Rightarrow> Parser" where
  "NewParser l =
     (let zero = \<lparr>Type = NUMBER, Value = [], Line = 0, Column = 0\<rparr> in
      nextToken (nextToken
        \<lparr>lexer = l, currentToken = zero, peekToken = zero, errors = []\<rparr>))"

definition curPrecedence :: "Parser \<Rightarrow> nat" where
  "curPrecedence p = (case precedences (Type (currentToken p)) of Some pr \<Rightarrow> pr
     | None \<Rightarrow> LOWEST)"

definition peekPrecedence :: "Parser \<Rightarrow> nat" where
  "peekPrecedence p = (case precedences (Type (peekToken p)) of Some pr \<Rightarrow> pr
     | None \<Rightarrow> LOWEST)"

definition peekError :: "Parser \<Rightarrow> TokenType \<Rightarrow> Parser" where
  "peekError p t = p\<lparr>errors := errors p @
     [''expected next token to be '' @ TokenType_String t @ '', got ''
      @ TokenType_String (Type (peekToken p)) @ '' instead'']\<rparr>"

definition noPrefixParseFnError :: "Parser \<Rightarrow> TokenType \<Rightarrow> Parser" where
  "noPrefixParseFnError p t = p\<lparr>errors := errors p @
     [''no prefix parse function for '' @ TokenType_String t @ '' found'']\<rparr>"

definition expectPeek :: "Parser \<Rightarrow> TokenType \<Rightarrow> bool \<times> Parser" where
  "expectPeek p t = (if Type (peekToken p) = t then (True, nextToken p)
     else (False, peekError p t))"

definition parseIdentifier :: "Parser \<Rightarrow> Expression" where
  "parseIdentifier p = Identifier (Value (currentToken p))"

text \<open>The message quotes the lexeme with \<open>%q\<close>; a number lexeme holds digits and dots
  only, so the quoted form is the lexeme between double quotes.\<close>

definition parseNumberLiteral :: "Parser \<Rightarrow> Expression \<times> Parser" where
  "parseNumberLiteral p = (case ParseFloat (Value (currentToken p)) of
       None \<Rightarrow> (NilExpression, p\<lparr>errors := errors p @
         [''could not parse '' @ [CHR 0x22] @ Value (currentToken p) @ [CHR 0x22]
          @ '' as number'']\<rparr>)
     | Some v \<Rightarrow> (NumberLiteral v, p))"

definition parseStringLiteral :: "Parser \<Rightarrow> Expression" where
  "parseStringLiteral p = StringLiteral (Value (currentToken p))"

definition parseBooleanLiteral :: "Parser \<Rightarrow> Expression" where
  "parseBooleanLiteral p = BooleanLiteral (Value (currentToken p) = ''true'')"

text \<open>
  The parser's recursion is bounded by the input only while the lexer moves on: the lexer
  does not advance over a byte it reports as \<open>ILLEGAL\<close>, so on such an input
  \<open>ParseProgram\<close> never reaches \<open>EOF\<close>. Every parsing function that recurs or loops
  takes a fuel argument and returns \<open>None\<close> when it runs out; with enough fuel the result
  is the one of the Go function.
\<close>

function (sequential) parseExpression :: "nat \<Rightarrow> nat \<Rightarrow> Parser \<Rightarrow> (Expression \<times> Parser) option"
  and parseExpression_loop ::
    "nat \<Rightarrow> nat \<Rightarrow> Expression \<Rightarrow> Parser \<Rightarrow> (Expression \<times> Parser) option"
  and parseFormationLiteral :: "nat \<Rightarrow> Parser \<Rightarrow> (Expression \<times> Parser) option"
  and parseExpressionList ::
    "nat \<Rightarrow> TokenType \<Rightarrow> Parser \<Rightarrow> (Expression list \<times> Parser) option"
  and parseExpressionList_loop ::
    "nat \<Rightarrow> Expression list \<Rightarrow> Parser \<Rightarrow> (Expression list \<times> Parser) option"
  and parsePrefixExpression :: "nat \<Rightarrow> Parser \<Rightarrow> (Expression \<times> Parser) option"
  and parseInfixExpression ::
    "nat \<Rightarrow> Expression \<Rightarrow> Parser \<Rightarrow> (Expression \<times> Parser) option"
  and parseGroupedExpression :: "nat \<Rightarrow> Parser \<Rightarrow> (Expression \<times> Parser) option"
  and parseCallExpression ::
    "nat \<Rightarrow> Expression \<Rightarrow> Parser \<Rightarrow> (Expression \<times> Parser) option"
  and parseIndexExpression ::
    "nat \<Rightarrow> Expression \<Rightarrow> Parser \<Rightarrow> (Expression \<times> Parser) option"
  and parseAssignmentExpression ::
    "nat \<Rightarrow> Expression \<Rightarrow> Parser \<Rightarrow> (Expression \<times> Parser) option"
where
  "parseExpression 0 precedence p = None"
| "parseExpression (Suc n) precedence p =
     (let t = Type (currentToken p) in
      if t = IDENTIFIER then parseExpression_loop n precedence (parseIdentifier p) p
      else if t = NUMBER then
        (case parseNumberLiteral p of (leftExp, p1) \<Rightarrow>
           parseExpression_loop n precedence leftExp p1)
      else if t = STRING then parseExpression_loop n precedence (parseStringLiteral p) p
      else if t = BOOLEAN then parseExpression_loop n precedence (parseBooleanLiteral p) p
      else if t = LBRACKET then
        (case parseFormationLiteral n p of None \<Rightarrow> None
         | Some (leftExp, p1) \<Rightarrow> parseExpression_loop n precedence leftExp p1)
      else if t = MINUS \<or> t = NOT then
        (case parsePrefixExpression n p of None \<Rightarrow> None
         | Some (leftExp, p1) \<Rightarrow> parseExpression_loop n precedence leftExp p1)
      else if t = LPAREN then
        (case parseGroupedExpression n p of None \<Rightarrow> None
         | Some (leftExp, p1) \<Rightarrow> parseExpression_loop n precedence leftExp p1)
      else Some (NilExpression, noPrefixParseFnError p t))"
| "parseExpression_loop 0 precedence leftExp p = None"
| "parseExpression_loop (Suc n) precedence leftExp p =
     (if Type (peekToken p) \<noteq> SEMICOLON \<and> precedence < peekPrecedence p then
        (let t = Type (peekToken p) in
         if t \<in> {PLUS, MINUS, DIVIDE, MULTIPLY, MODULO, EQUAL, NOT_EQUAL, LESS, GREATER,
                  LESS_EQUAL, GREATER_EQUAL, AND, OR} then
           (case parseInfixExpression n leftExp (nextToken p) of None \<Rightarrow> None
            | Some (e, p1) \<Rightarrow> parseExpression_loop n precedence e p1)
         else if t = LPAREN then
           (case parseCallExpression n leftExp (nextToken p) of None \<Rightarrow> None
            | Some (e, p1) \<Rightarrow> parseExpression_loop n precedence e p1)
         else if t = LBRACKET then
           (case parseIndexExpression n leftExp (nextToken p) of None \<Rightarrow> None
            | Some (e, p1) \<Rightarrow> parseExpression_loop n precedence e p1)
         else if t = ASSIGN then
           (case parseAssignmentExpression n leftExp (nextToken p) of None \<Rightarrow> None
            | Some (e, p1) \<Rightarrow> parseExpression_loop n precedence e p1)
         else Some (leftExp, p))
      else Some (leftExp, p))"
| "parseFormationLiteral 0 p = None"
| "parseFormationLiteral (Suc n) p =
     (case parseExpressionList n RBRACKET p of None \<Rightarrow> None
      | Some (elems, p1) \<Rightarrow> Some (FormationLiteral elems, p1))"
| "parseExpressionList 0 end_t p = None"
| "parseExpressionList (Suc n) end_t p =
     (if Type (peekToken p) = end_t then Some ([], nextToken p)
      else
        (case parseExpression n LOWEST (nextToken p) of None \<Rightarrow> None
         | Some (e, p1) \<Rightarrow>
            (case parseExpressionList_loop n [e] p1 of None \<Rightarrow> None
             | Some (args, p2) \<Rightarrow>
                (case expectPeek p2 end_t of
                   (True, p3) \<Rightarrow> Some (args, p3)
                 | (False, p3) \<Rightarrow> Some ([], p3)))))"
| "parseExpressionList_loop 0 args p = None"
| "parseExpressionList_loop (Suc n) args p =
     (if Type (peekToken p) = COMMA then
        (case parseExpression n LOWEST (nextToken (nextToken p)) of None \<Rightarrow> None
         | Some (e, p1) \<Rightarrow> parseExpressionList_loop n (args @ [e]) p1)
      else Some (args, p))"
| "parsePrefixExpression 0 p = None"
| "parsePrefixExpression (Suc n) p =
     (let operator = Value (currentToken p) in
      case parseExpression n PREFIX (nextToken p) of None \<Rightarrow> None
      | Some (right, p1) \<Rightarrow> Some (PrefixExpression operator right, p1))"
| "parseInfixExpression 0 left p = None"
| "parseInfixExpression (Suc n) left p =
     (let operator = Value (currentToken p); precedence = curPrecedence p in
      case parseExpression n precedence (nextToken p) of None \<Rightarrow> None
      | Some (right, p1) \<Rightarrow> Some (InfixExpression left operator right, p1))"
| "parseGroupedExpression 0 p = None"
| "parseGroupedExpression (Suc n) p =
     (case parseExpression n LOWEST (nextToken p) of None \<Rightarrow> None
      | Some (ex, p1) \<Rightarrow>
         (case expectPeek p1 RPAREN of
            (True, p2) \<Rightarrow> Some (ex, p2)
          | (False, p2) \<Rightarrow> Some (NilExpression, p2)))"
| "parseCallExpression 0 fn p = None"
| "parseCallExpression (Suc n) fn p =
     (case parseExpressionList n RPAREN p of None \<Rightarrow> None
      | Some (args, p1) \<Rightarrow> Some (CallExpression fn args, p1))"
| "parseIndexExpression 0 left p = None"
| "parseIndexExpression (Suc n) left p =
     (case parseExpression n LOWEST (nextToken p) of None \<Rightarrow> None
      | Some (index, p1) \<Rightarrow>
         (case expectPeek p1 RBRACKET of
            (True, p2) \<Rightarrow> Some (IndexExpression left index, p2)
          | (False, p2) \<Rightarrow> Some (NilExpression, p2)))"
| "parseAssignmentExpression 0 left p = None"
| "parseAssignmentExpression (Suc n) left p =
     (case left of
        Identifier name \<Rightarrow>
          (case parseExpression n LOWEST (nextToken p) of None \<Rightarrow> None
           | Some (val, p1) \<Rightarrow> Some (AssignmentExpression name val, p1))
      | _ \<Rightarrow> Some (NilExpression, p\<lparr>errors := errors p @ [''invalid assignment target'']\<rparr>))"

  by pat_completeness auto
termination
  by (relation "measure (case_sum
        (case_sum (case_sum fst fst) (case_sum fst (case_sum fst fst)))
        (case_sum (case_sum fst (case_sum fst fst)) (case_sum fst (case_sum fst fst))))")
     simp_all

definition parseGridStatement :: "nat \<Rightarrow> Parser \<Rightarrow> (Statement \<times> Parser) option" where
  "parseGridStatement n p =
     (case expectPeek p IDENTIFIER of (ok1, p1) \<Rightarrow>
      if \<not> ok1 then Some (NilPointer, p1) else
      (let name = Value (currentToken p1) in
       case expectPeek p1 ASSIGN of (ok2, p2) \<Rightarrow>
       if \<not> ok2 then Some (NilPointer, p2) else
       (case parseExpression n LOWEST (nextToken p2) of None \<Rightarrow> None
        | Some (val, p3) \<Rightarrow>
            Some (GridStatement name val,
                  if Type (peekToken p3) = SEMICOLON then nextToken p3 else p3))))"

fun parseFunctionParameters_loop ::
  "nat \<Rightarrow> string list \<Rightarrow> Parser \<Rightarrow> (string list \<times> Parser) option" where
  "parseFunctionParameters_loop 0 identifiers p = None"
| "parseFunctionParameters_loop (Suc n) identifiers p =
     (if Type (peekToken p) = COMMA then
        (let p1 = nextToken (nextToken p) in
         parseFunctionParameters_loop n (identifiers @ [Value (currentToken p1)]) p1)
      else Some (identifiers, p))"

text \<open>The parameter list is \<open>[]\<close> also where the Go function returns a nil slice.\<close>

definition parseFunctionParameters :: "nat \<Rightarrow> Parser \<Rightarrow> (string list \<times> Parser) option" where
  "parseFunctionParameters n p =
     (if Type (peekToken p) = RPAREN then Some ([], nextToken p)
      else (let p1 = nextToken p in
        case parseFunctionParameters_loop n [Value (currentToken p1)] p1 of None \<Rightarrow> None
        | Some (identifiers, p2) \<Rightarrow>
           (case expectPeek p2 RPAREN of (ok, p3) \<Rightarrow>
            if \<not> ok then Some ([], p3) else Some (identifiers, p3))))"

definition parseReturnPitStatement :: "nat \<Rightarrow> Parser \<Rightarrow> (Statement \<times> Parser) option" where
  "parseReturnPitStatement n p =
     (case (if Type (peekToken p) \<noteq> SEMICOLON \<and> Type (peekToken p) \<noteq> NEWLINE
            then parseExpression n LOWEST (nextToken p)
            else Some (NilExpression, p)) of
        None \<Rightarrow> None
      | Some (val, p1) \<Rightarrow>
          Some (ReturnPitStatement val,
                if Type (peekToken p1) = SEMICOLON then nextToken p1 else p1))"

definition parseBreakFlagStatement :: "Parser \<Rightarrow> Statement \<times> Parser" where
  "parseBreakFlagStatement p =
     (BreakFlagStatement, if Type (peekToken p) = SEMICOLON then nextToken p else p)"

definition parseContinueRaceStatement :: "Parser \<Rightarrow> Statement \<times> Parser" where
  "parseContinueRaceStatement p =
     (ContinueRaceStatement, if Type (peekToken p) = SEMICOLON then nextToken p else p)"

definition parseExpressionStatement :: "nat \<Rightarrow> Parser \<Rightarrow> (Statement \<times> Parser) option" where
  "parseExpressionStatement n p =
     (case parseExpression n LOWEST p of None \<Rightarrow> None
      | Some (e, p1) \<Rightarrow>
          Some (ExpressionStatement e,
                if Type (peekToken p1) = SEMICOLON then nextToken p1 else p1))"

function (sequential) parseStatement :: "nat \<Rightarrow> Parser \<Rightarrow> (Statement \<times> Parser) option"
  and parsePaceStatement :: "nat \<Rightarrow> Parser \<Rightarrow> (Statement \<times> Parser) option"
  and parseCircuitStatement :: "nat \<Rightarrow> Parser \<Rightarrow> (Statement \<times> Parser) option"
  and parseLoopStatement :: "nat \<Rightarrow> Parser \<Rightarrow> (Statement \<times> Parser) option"
  and parseWhileRacingStatement :: "nat \<Rightarrow> Parser \<Rightarrow> (Statement \<times> Parser) option"
  and parseBlockStatement :: "nat \<Rightarrow> Parser \<Rightarrow> (Statement list \<times> Parser) option"
  and parseBlockStatement_loop ::
    "nat \<Rightarrow> Statement list \<Rightarrow> Parser \<Rightarrow> (Statement list \<times> Parser) option"
where
  "parseStatement 0 p = None"
| "parseStatement (Suc n) p =
     (let t = Type (currentToken p) in
      if t = GRID then parseGridStatement n p
      else if t = PACE then parsePaceStatement n p
      else if t = CIRCUIT then parseCircuitStatement n p
      else if t = LOOP then parseLoopStatement n p
      else if t = WHILE_RACING then parseWhileRacingStatement n p
      else if t = RETURN_PIT then parseReturnPitStatement n p
      else if t = BREAK_FLAG then Some (parseBreakFlagStatement p)
      else if t = CONTINUE_RACE then Some (parseContinueRaceStatement p)
      else if t = LBRACE then
        (case parseBlockStatement n p of None \<Rightarrow> None
         | Some (stmts, p1) \<Rightarrow> Some (BlockStatement stmts, p1))
      else parseExpressionStatement n p)"
| "parsePaceStatement 0 p = None"
| "parsePaceStatement (Suc n) p =
     (case expectPeek p IDENTIFIER of (ok1, p1) \<Rightarrow>
      if \<not> ok1 then Some (NilPointer, p1) else
      (let name = Value (currentToken p1) in
       case expectPeek p1 LPAREN of (ok2, p2) \<Rightarrow>
       if \<not> ok2 then Some (NilPointer, p2) else
       (case parseFunctionParameters n p2 of None \<Rightarrow> None
        | Some (params, p3) \<Rightarrow>
           (case expectPeek p3 LBRACE of (ok3, p4) \<Rightarrow>
            if \<not> ok3 then Some (NilPointer, p4) else
            (case parseBlockStatement n p4 of None \<Rightarrow> None
             | Some (body, p5) \<Rightarrow> Some (PaceStatement name params body, p5))))))"
| "parseCircuitStatement 0 p = None"
| "parseCircuitStatement (Suc n) p =
     (case expectPeek p LPAREN of (ok1, p1) \<Rightarrow>
      if \<not> ok1 then Some (NilPointer, p1) else
      (case parseExpression n LOWEST (nextToken p1) of None \<Rightarrow> None
       | Some (cond, p2) \<Rightarrow>
          (case expectPeek p2 RPAREN of (ok2, p3) \<Rightarrow>
           if \<not> ok2 then Some (NilPointer, p3) else
           (case expectPeek p3 LBRACE of (ok3, p4) \<Rightarrow>
            if \<not> ok3 then Some (NilPointer, p4) else
            (case parseBlockStatement n p4 of None \<Rightarrow> None
             | Some (cons, p5) \<Rightarrow>
                (if Type (peekToken p5) = ELSE_CIRCUIT then
                   (case expectPeek (nextToken p5) LBRACE of (ok4, p6) \<Rightarrow>
                    if \<not> ok4 then Some (NilPointer, p6) else
                    (case parseBlockStatement n p6 of None \<Rightarrow> None
                     | Some (alt, p7) \<Rightarrow>
                         Some (CircuitStatement cond cons (Some alt), p7)))
                 else Some (CircuitStatement cond cons None, p5)))))))"
| "parseLoopStatement 0 p = None"
| "parseLoopStatement (Suc n) p =
     (case expectPeek p LPAREN of (ok1, p1) \<Rightarrow>
      if \<not> ok1 then Some (NilPointer, p1) else
      (case parseStatement n (nextToken p1) of None \<Rightarrow> None
       | Some (init, p2) \<Rightarrow>
          (let p3 = (if Type (currentToken p2) = SEMICOLON then nextToken p2 else p2) in
           case parseExpression n LOWEST p3 of None \<Rightarrow> None
           | Some (cond, p4) \<Rightarrow>
              (case expectPeek p4 SEMICOLON of (ok2, p5) \<Rightarrow>
               if \<not> ok2 then Some (NilPointer, p5) else
               (case parseExpressionStatement n (nextToken p5) of None \<Rightarrow> None
                | Some (update, p6) \<Rightarrow>
                   (case expectPeek p6 RPAREN of (ok3, p7) \<Rightarrow>
                    if \<not> ok3 then Some (NilPointer, p7) else
                    (case expectPeek p7 LBRACE of (ok4, p8) \<Rightarrow>
                     if \<not> ok4 then Some (NilPointer, p8) else
                     (case parseBlockStatement n p8 of None \<Rightarrow> None
                      | Some (body, p9) \<Rightarrow>
                          Some (LoopStatement init cond update body, p9)))))))))"
| "parseWhileRacingStatement 0 p = None"
| "parseWhileRacingStatement (Suc n) p =
     (case expectPeek p LPAREN of (ok1, p1) \<Rightarrow>
      if \<not> ok1 then Some (NilPointer, p1) else
      (case parseExpression n LOWEST (nextToken p1) of None \<Rightarrow> None
       | Some (cond, p2) \<Rightarrow>
          (case expectPeek p2 RPAREN of (ok2, p3) \<Rightarrow>
           if \<not> ok2 then Some (NilPointer, p3) else
           (case expectPeek p3 LBRACE of (ok3, p4) \<Rightarrow>
            if \<not> ok3 then Some (NilPointer, p4) else
            (case parseBlockStatement n p4 of None \<Rightarrow> None
             | Some (body, p5) \<Rightarrow> Some (WhileRacingStatement cond body, p5))))))"
| "parseBlockStatement 0 p = None"
| "parseBlockStatement (Suc n) p = parseBlockStatement_loop n [] (nextToken p)"
| "parseBlockStatement_loop 0 stmts p = None"
| "parseBlockStatement_loop (Suc n) stmts p =
     (if Type (currentToken p) \<noteq> RBRACE \<and> Type (currentToken p) \<noteq> EOF then
        (if Type (currentToken p) = NEWLINE then parseBlockStatement_loop n stmts (nextToken p)
         else
           (case parseStatement n p of None \<Rightarrow> None
            | Some (stmt, p1) \<Rightarrow>
                parseBlockStatement_loop n
                  (if stmt \<noteq> NilStatement then stmts @ [stmt] else stmts) (nextToken p1)))
      else Some (stmts, p))"
  by pat_completeness auto
termination
  by (relation "measure (case_sum
        (case_sum fst (case_sum fst fst))
        (case_sum (case_sum fst fst) (case_sum fst fst)))")
     simp_all


fun ParseProgram_loop ::
  "nat \<Rightarrow> Statement list \<Rightarrow> Parser \<Rightarrow> (Statement list \<times> Parser) option" where
  "ParseProgram_loop 0 stmts p = None"
| "ParseProgram_loop (Suc n) stmts p =
     (if Type (currentToken p) \<noteq> EOF then
        (if Type (currentToken p) = NEWLINE then ParseProgram_loop n stmts (nextToken p)
         else
           (case parseStatement n p of None \<Rightarrow> None
            | Some (stmt, p1) \<Rightarrow>
                ParseProgram_loop n
                  (if stmt \<noteq> NilStatement then stmts @ [stmt] else stmts) (nextToken p1)))
      else Some (stmts, p))"

definition ParseProgram :: "nat \<Rightarrow> Parser \<Rightarrow> (Statement list \<times> Parser) option" where
  "ParseProgram n p = ParseProgram_loop n [] p"


subsection \<open>Objects, environments and the store\<close>

text \<open>
  An \<open>Object\<close> is what a Go variable of the interface type holds: a pointer to one of the
  object structs, or nil (\<open>NilObject\<close>). Numbers, strings, errors and return values are
  immutable and their identity is never observed, so they are carried by value. All
  booleans and nulls are the canonical \<open>TRUE\<close>, \<open>FALSE\<close> and \<open>NULL\<close>. An array is its
  address in the store of arrays; a function carries the address it was allocated at (its
  identity under \<open>==\<close>), its parameters, its body and the address of its environment; a
  built-in is one of the three closures \<open>NewInterpreter\<close> registers.
\<close>

datatype BuiltinFn = Telemetry | Length | Push

datatype Object =
    Number float64
  | String string
  | Boolean bool
  | Null
  | ReturnValue Object
  | Error string
  | Function nat "string list" "Statement list" nat
  | Builtin BuiltinFn
  | Array nat
  | Break
  | Continue
  | NilObject

record Environment =
  store :: "string \<rightharpoonup> Object"
  outer :: "nat option"

text \<open>
  The store: the environments and the arrays allocated so far, each at the address that
  is its index; the number of function objects allocated; and what \<open>telemetry\<close> has
  printed, as the argument vector of each call (the text is the \<open>Inspect\<close> forms of these
  joined by spaces; the rendering is not part of the model).
\<close>

record State =
  envs :: "Environment list"
  arrays :: "Object list list"
  nfunctions :: nat
  printed :: "Object list list"

text \<open>
  What keeps a Go call from returning an object: the recursion went on beyond the fuel
  given (\<open>OutOfFuel\<close>: with every amount of fuel, a Go call that does not return), a
  run-time panic, or a store no Go execution reaches (\<open>BadStore\<close>: an address with
  nothing behind it, an \<open>outer\<close> chain that comes back to itself).
\<close>

datatype Fault = OutOfFuel | Panic string | BadStore

definition nil_dereference :: string where
  "nil_dereference = ''runtime error: invalid memory address or nil pointer dereference''"

definition NewEnvironment :: "State \<Rightarrow> nat \<times> State" where
  "NewEnvironment st =
     (length (envs st), st\<lparr>envs := envs st @ [\<lparr>store = Map.empty, outer = None\<rparr>]\<rparr>)"

definition NewEnclosedEnvironment :: "nat \<Rightarrow> State \<Rightarrow> nat \<times> State" where
  "NewEnclosedEnvironment outer_env st =
     (case NewEnvironment st of (env, st1) \<Rightarrow>
        (env, st1\<lparr>envs := (envs st1)[env := (envs st1 ! env)\<lparr>outer := Some outer_env\<rparr>]\<rparr>))"

text \<open>
  \<open>Get\<close> follows the \<open>outer\<close> pointers; on a chain that came back to itself the Go
  function would not return, and neither does this one (\<open>None\<close>). \<open>Some None\<close> is the Go
  result \<open>(nil, false)\<close>, \<open>Some (Some v)\<close> is \<open>(v, true)\<close>. An address with no
  environment behind it has no counterpart among Go pointers; \<open>Get\<close> gives no result there.
\<close>

partial_function (option) Get :: "Environment list \<Rightarrow> nat \<Rightarrow> string \<Rightarrow> Object option option"
where
  "Get es e name =
     (if e < length es then
        (case store (es ! e) name of
           Some v \<Rightarrow> Some (Some v)
         | None \<Rightarrow> (case outer (es ! e) of
                      Some up \<Rightarrow> Get es up name
                    | None \<Rightarrow> Some None))
      else None)"

declare Get.simps [code]

definition Set :: "nat \<Rightarrow> string \<Rightarrow> Object \<Rightarrow> State \<Rightarrow> State" where
  "Set e name val st =
     st\<lparr>envs := (envs st)[e := (envs st ! e)\<lparr>store := (store (envs st ! e))(name \<mapsto> val)\<rparr>]\<rparr>"

definition NUMBER_OBJ :: string where "NUMBER_OBJ = ''NUMBER''"
definition STRING_OBJ :: string where "STRING_OBJ = ''STRING''"
definition BOOLEAN_OBJ :: string where "BOOLEAN_OBJ = ''BOOLEAN''"
definition NULL_OBJ :: string where "NULL_OBJ = ''NULL''"
definition RETURN_OBJ :: string where "RETURN_OBJ = ''RETURN_VALUE''"
definition ERROR_OBJ :: string where "ERROR_OBJ = ''ERROR''"
definition FUNCTION_OBJ :: string where "FUNCTION_OBJ = ''FUNCTION''"
definition BUILTIN_OBJ :: string where "BUILTIN_OBJ = ''BUILTIN''"
definition ARRAY_OBJ :: string where "ARRAY_OBJ = ''ARRAY''"
definition BREAK_OBJ :: string where "BREAK_OBJ = ''BREAK''"
definition CONTINUE_OBJ :: string where "CONTINUE_OBJ = ''CONTINUE''"

text \<open>The method \<open>Type()\<close> of a non-nil object (calling it on nil panics: every caller
  below tests for \<open>NilObject\<close> first), and what \<open>%T\<close> prints for an object.\<close>

definition Object_Type :: "Object \<Rightarrow> string" where
  "Object_Type obj = (case obj of
      Number v \<Rightarrow> NUMBER_OBJ | String s \<Rightarrow> STRING_OBJ | Boolean b \<Rightarrow> BOOLEAN_OBJ
    | Null \<Rightarrow> NULL_OBJ | ReturnValue v \<Rightarrow> RETURN_OBJ | Error m \<Rightarrow> ERROR_OBJ
    | Function a ps b e \<Rightarrow> FUNCTION_OBJ | Builtin f \<Rightarrow> BUILTIN_OBJ | Array a \<Rightarrow> ARRAY_OBJ
    | Break \<Rightarrow> BREAK_OBJ | Continue \<Rightarrow> CONTINUE_OBJ | NilObject \<Rightarrow> [])"

definition GoTypeName :: "Object \<Rightarrow> string" where
  "GoTypeName obj = (case obj of
      Number v \<Rightarrow> ''*main.Number'' | String s \<Rightarrow> ''*main.String''
    | Boolean b \<Rightarrow> ''*main.Boolean'' | Null \<Rightarrow> ''*main.Null''
    | ReturnValue v \<Rightarrow> ''*main.ReturnValue'' | Error m \<Rightarrow> ''*main.Error''
    | Function a ps b e \<Rightarrow> ''*main.Function'' | Builtin f \<Rightarrow> ''*main.Builtin''
    | Array a \<Rightarrow> ''*main.Array'' | Break \<Rightarrow> ''*main.Break''
    | Continue \<Rightarrow> ''*main.Continue'' | NilObject \<Rightarrow> ''<nil>'')"

definition isError :: "Object \<Rightarrow> bool" where
  "isError obj = (if obj \<noteq> NilObject then Object_Type obj = ERROR_OBJ else False)"

definition isTruthy :: "Object \<Rightarrow> bool" where
  "isTruthy obj = (case obj of Null \<Rightarrow> False | Boolean b \<Rightarrow> b | _ \<Rightarrow> True)"

definition nativeBoolToBooleanObject :: "bool \<Rightarrow> Object" where
  "nativeBoolToBooleanObject b = Boolean b"

definition unwrapReturnValue :: "Object \<Rightarrow> Object" where
  "unwrapReturnValue obj = (case obj of ReturnValue v \<Rightarrow> v | _ \<Rightarrow> obj)"

text \<open>
  Go's \<open>==\<close> on two interface values holding object pointers: the same dynamic type and
  the same pointer. Booleans, nulls and built-ins are canonical; arrays and functions are
  equal when they are the same allocation. \<open>&Break{}\<close> and \<open>&Continue{}\<close> allocate
  zero-size objects, which the Go runtime places at one address. Two numbers or two
  strings never reach this comparison (\<open>evalInfixExpression\<close> compares their values
  first), and errors and return values are never operands.
\<close>

definition same_object :: "Object \<Rightarrow> Object \<Rightarrow> bool" where
  "same_object x y = (case (x, y) of
      (Boolean a, Boolean b) \<Rightarrow> a = b
    | (Null, Null) \<Rightarrow> True
    | (Function a ps b e, Function a' ps' b' e') \<Rightarrow> a = a'
    | (Builtin f, Builtin g) \<Rightarrow> f = g
    | (Array a, Array b) \<Rightarrow> a = b
    | (Break, Break) \<Rightarrow> True
    | (Continue, Continue) \<Rightarrow> True
    | (NilObject, NilObject) \<Rightarrow> True
    | _ \<Rightarrow> False)"

subsection \<open>Operators\<close>

definition evalBangOperatorExpression :: "Object \<Rightarrow> Object" where
  "evalBangOperatorExpression right = (case right of
      Boolean b \<Rightarrow> Boolean (\<not> b)
    | Null \<Rightarrow> Boolean True
    | _ \<Rightarrow> Boolean False)"

definition interface_conversion :: string where
  "interface_conversion = ''interface conversion: wrong dynamic type''"

definition evalMinusPrefixOperatorExpression :: "Object \<Rightarrow> Fault + Object" where
  "evalMinusPrefixOperatorExpression right =
     (if right = NilObject then Inl (Panic nil_dereference)
      else if Object_Type right \<noteq> NUMBER_OBJ then
        Inr (Error (''unknown operator: -'' @ GoTypeName right))
      else (case right of Number val \<Rightarrow> Inr (Number (f64_neg val))
            | _ \<Rightarrow> Inl (Panic interface_conversion)))"

definition evalPrefixExpression :: "string \<Rightarrow> Object \<Rightarrow> Fault + Object" where
  "evalPrefixExpression operator right =
     (if operator = ''!'' then Inr (evalBangOperatorExpression right)
      else if operator = ''-'' then evalMinusPrefixOperatorExpression right
      else Inr (Error (''unknown operator: '' @ operator @ GoTypeName right)))"

text \<open>
  The remainder of Go's \<open>%\<close> on \<open>int\<close> is the truncated one (\<open>smod\<close>: the sign of the
  dividend); a zero divisor is a run-time panic.
\<close>

definition evalNumberInfixExpression :: "string \<Rightarrow> Object \<Rightarrow> Object \<Rightarrow> Fault + Object" where
  "evalNumberInfixExpression operator left right =
     (case (left, right) of
        (Number leftVal, Number rightVal) \<Rightarrow>
          (if operator = ''+'' then Inr (Number (f64_add leftVal rightVal))
           else if operator = ''-'' then Inr (Number (f64_sub leftVal rightVal))
           else if operator = ''*'' then Inr (Number (f64_mul leftVal rightVal))
           else if operator = ''/'' then
             (if f64_is_zero rightVal then Inr (Error ''division by zero'')
              else Inr (Number (f64_div leftVal rightVal)))
           else if operator = ''%'' then
             (if int_of_float64 rightVal = 0
              then Inl (Panic ''runtime error: integer divide by zero'')
              else Inr (Number (float64_of_int
                     (int_of_float64 leftVal smod int_of_float64 rightVal))))
           else if operator = ''<'' then
             Inr (nativeBoolToBooleanObject (f64_lt leftVal rightVal))
           else if operator = ''>'' then
             Inr (nativeBoolToBooleanObject (f64_lt rightVal leftVal))
           else if operator = ''<='' then
             Inr (nativeBoolToBooleanObject (f64_le leftVal rightVal))
           else if operator = ''>='' then
             Inr (nativeBoolToBooleanObject (f64_le rightVal leftVal))
           else if operator = ''=='' then
             Inr (nativeBoolToBooleanObject (f64_eq leftVal rightVal))
           else if operator = ''!='' then
             Inr (nativeBoolToBooleanObject (\<not> f64_eq leftVal rightVal))
           else Inr (Error (''unknown operator: '' @ operator)))
      | _ \<Rightarrow> Inl (Panic interface_conversion))"

definition evalStringInfixExpression :: "string \<Rightarrow> Object \<Rightarrow> Object \<Rightarrow> Fault + Object" where
  "evalStringInfixExpression operator left right =
     (case (left, right) of
        (String leftVal, String rightVal) \<Rightarrow>
          (if operator = ''+'' then Inr (String (leftVal @ rightVal))
           else if operator = ''=='' then
             Inr (nativeBoolToBooleanObject (leftVal = rightVal))
           else if operator = ''!='' then
             Inr (nativeBoolToBooleanObject (leftVal \<noteq> rightVal))
           else Inr (Error (''unknown operator: '' @ GoTypeName left @ '' '' @ operator
                      @ '' '' @ GoTypeName right)))
      | _ \<Rightarrow> Inl (Panic interface_conversion))"

text \<open>
  The cases of \<open>evalInfixExpression\<close> in their order. \<open>left.Type()\<close> is called first;
  \<open>right.Type()\<close> is called once the left operand is a number or a string, and in the
  type-mismatch test after the four operator cases: each call panics on a nil operand.
\<close>

definition evalInfixExpression :: "string \<Rightarrow> Object \<Rightarrow> Object \<Rightarrow> Fault + Object" where
  "evalInfixExpression operator left right =
     (if left = NilObject then Inl (Panic nil_dereference)
      else if Object_Type left = NUMBER_OBJ \<and> right = NilObject then
        Inl (Panic nil_dereference)
      else if Object_Type left = NUMBER_OBJ \<and> Object_Type right = NUMBER_OBJ then
        evalNumberInfixExpression operator left right
      else if Object_Type left = STRING_OBJ \<and> right = NilObject then
        Inl (Panic nil_dereference)
      else if Object_Type left = STRING_OBJ \<and> Object_Type right = STRING_OBJ then
        evalStringInfixExpression operator left right
      else if operator = ''&&'' then
        Inr (nativeBoolToBooleanObject (isTruthy left \<and> isTruthy right))
      else if operator = ''||'' then
        Inr (nativeBoolToBooleanObject (isTruthy left \<or> isTruthy right))
      else if operator = ''=='' then
        Inr (nativeBoolToBooleanObject (same_object left right))
      else if operator = ''!='' then
        Inr (nativeBoolToBooleanObject (\<not> same_object left right))
      else if right = NilObject then Inl (Panic nil_dereference)
      else if Object_Type left \<noteq> Object_Type right then
        Inr (Error (''type mismatch: '' @ GoTypeName left @ '' '' @ operator
               @ '' '' @ GoTypeName right))
      else Inr (Error (''unknown operator: '' @ GoTypeName left @ '' '' @ operator
                 @ '' '' @ GoTypeName right)))"


subsection \<open>Built-in functions\<close>

fun Itoa :: "nat \<Rightarrow> string" where
  "Itoa n = (if n < 10 then [char_of (48 + n)]
             else Itoa (n div 10) @ [char_of (48 + n mod 10)])"

declare Itoa.simps [simp del]

text \<open>
  \<open>Inspect\<close> panics on a nil object, also one inside an array or a return value. The
  elements of an array are older than the array, so the nesting of arrays in a store is
  bounded by the number of its arrays: \<open>d\<close> starts there.
\<close>

fun Inspect_returns :: "nat \<Rightarrow> Object list list \<Rightarrow> Object \<Rightarrow> bool" where
  "Inspect_returns d arrs NilObject = False"
| "Inspect_returns d arrs (ReturnValue v) = Inspect_returns d arrs v"
| "Inspect_returns d arrs (Array a) =
     (case d of 0 \<Rightarrow> False
      | Suc d' \<Rightarrow> a < length arrs \<and> list_all (Inspect_returns d' arrs) (arrs ! a))"
| "Inspect_returns d arrs obj = True"

definition builtin_telemetry :: "Object list \<Rightarrow> State \<Rightarrow> Fault + (Object \<times> State)" where
  "builtin_telemetry args st =
     (if list_all (Inspect_returns (length (arrays st)) (arrays st)) args
      then Inr (Null, st\<lparr>printed := printed st @ [args]\<rparr>)
      else Inl (Panic nil_dereference))"

definition builtin_length :: "Object list \<Rightarrow> State \<Rightarrow> Fault + (Object \<times> State)" where
  "builtin_length args st =
     (if length args \<noteq> 1 then
        Inr (Error (''wrong number of arguments. got='' @ Itoa (length args) @ '', want=1''), st)
      else (case args ! 0 of
          Array a \<Rightarrow>
            (if a < length (arrays st)
             then Inr (Number (float64_of_int (int (length (arrays st ! a)))), st)
             else Inl BadStore)
        | String val \<Rightarrow> Inr (Number (float64_of_int (int (length val))), st)
        | arg \<Rightarrow> Inr (Error (''argument to '' @ [CHR 0x60] @ ''length'' @ [CHR 0x60]
                     @ '' not supported, got '' @ GoTypeName arg), st)))"

definition builtin_push :: "Object list \<Rightarrow> State \<Rightarrow> Fault + (Object \<times> State)" where
  "builtin_push args st =
     (if length args \<noteq> 2 then
        Inr (Error (''wrong number of arguments. got='' @ Itoa (length args) @ '', want=2''), st)
      else if args ! 0 = NilObject then Inl (Panic nil_dereference)
      else if Object_Type (args ! 0) \<noteq> ARRAY_OBJ then
        Inr (Error (''argument to '' @ [CHR 0x60] @ ''push'' @ [CHR 0x60]
              @ '' must be ARRAY, got '' @ GoTypeName (args ! 0)), st)
      else (case args ! 0 of
          Array arr \<Rightarrow>
            (if arr < length (arrays st) then
               (let newElements = arrays st ! arr @ [args ! 1] in
                Inr (Array (length (arrays st)), st\<lparr>arrays := arrays st @ [newElements]\<rparr>))
             else Inl BadStore)
        | _ \<Rightarrow> Inl (Panic interface_conversion)))"

definition builtin_Fn :: "BuiltinFn \<Rightarrow> Object list \<Rightarrow> State \<Rightarrow> Fault + (Object \<times> State)" where
  "builtin_Fn f args st = (case f of
      Telemetry \<Rightarrow> builtin_telemetry args st
    | Length \<Rightarrow> builtin_length args st
    | Push \<Rightarrow> builtin_push args st)"

text \<open>The interpreter: the address of its root environment, and the store.\<close>

record Interpreter =
  env :: nat
  heap :: State

definition NewInterpreter :: Interpreter where
  "NewInterpreter =
     (case NewEnvironment \<lparr>envs = [], arrays = [], nfunctions = 0, printed = []\<rparr> of
        (e, st) \<Rightarrow>
          \<lparr>env = e,
           heap = Set e ''push'' (Builtin Push)
                   (Set e ''length'' (Builtin Length)
                     (Set e ''telemetry'' (Builtin Telemetry) st))\<rparr>)"

subsection \<open>The evaluator\<close>

definition evalArrayIndexExpression :: "State \<Rightarrow> Object \<Rightarrow> Object \<Rightarrow> Fault + Object" where
  "evalArrayIndexExpression st array index =
     (case (array, index) of
        (Array a, Number v) \<Rightarrow>
          (if a < length (arrays st) then
             (let elements = arrays st ! a;
                  idx = int_of_float64 v;
                  max_idx = int (length elements) - 1
              in if idx < 0 \<or> idx > max_idx then Inr Null
                 else Inr (elements ! nat idx))
           else Inl BadStore)
      | _ \<Rightarrow> Inl (Panic interface_conversion))"

definition evalIndexExpression :: "State \<Rightarrow> Object \<Rightarrow> Object \<Rightarrow> Fault + Object" where
  "evalIndexExpression st left index =
     (if left = NilObject then Inl (Panic nil_dereference)
      else if Object_Type left = ARRAY_OBJ \<and> index = NilObject then
        Inl (Panic nil_dereference)
      else if Object_Type left = ARRAY_OBJ \<and> Object_Type index = NUMBER_OBJ then
        evalArrayIndexExpression st left index
      else Inr (Error (''index operator not supported: '' @ GoTypeName left)))"

definition evalIdentifier :: "string \<Rightarrow> nat \<Rightarrow> State \<Rightarrow> Fault + Object" where
  "evalIdentifier name e st = (case Get (envs st) e name of
      None \<Rightarrow> Inl BadStore
    | Some None \<Rightarrow> Inr (Error (''identifier not found: '' @ name))
    | Some (Some val) \<Rightarrow> Inr val)"

fun extendFunctionEnv_loop ::
  "nat \<Rightarrow> string list \<Rightarrow> nat \<Rightarrow> Object list \<Rightarrow> State \<Rightarrow> State" where
  "extendFunctionEnv_loop e [] paramIdx args st = st"
| "extendFunctionEnv_loop e (param # params) paramIdx args st =
     extendFunctionEnv_loop e params (paramIdx + 1) args
       (if paramIdx < length args then Set e param (args ! paramIdx) st else st)"

definition extendFunctionEnv ::
  "nat \<Rightarrow> string list \<Rightarrow> Object list \<Rightarrow> State \<Rightarrow> nat \<times> State" where
  "extendFunctionEnv fn_env params args st =
     (case NewEnclosedEnvironment fn_env st of (e, st1) \<Rightarrow>
        (e, extendFunctionEnv_loop e params 0 args st1))"

text \<open>
  \<open>Eval\<close> and the functions it calls, with fuel: evaluation need not end (a
  \<open>while_racing (true)\<close>, an unbounded recursion). Each function returns the object the Go
  function returns together with the store after the call, or the fault that kept it from
  returning. The loops of \<open>evalProgram\<close>, \<open>evalBlockStatement\<close>, \<open>evalLoopStatement\<close>,
  \<open>evalWhileRacingStatement\<close> and \<open>evalExpressions\<close> are the \<open>_loop\<close> functions, with
  the loop's local variable \<open>result\<close> as an argument.
\<close>

function (sequential)
      Eval :: "nat \<Rightarrow> Node \<Rightarrow> nat \<Rightarrow> State \<Rightarrow> Fault + (Object \<times> State)"
  and evalProgram :: "nat \<Rightarrow> Statement list \<Rightarrow> nat \<Rightarrow> State \<Rightarrow> Fault + (Object \<times> State)"
  and evalProgram_loop ::
    "nat \<Rightarrow> Statement list \<Rightarrow> nat \<Rightarrow> State \<Rightarrow> Object \<Rightarrow> Fault + (Object \<times> State)"
  and evalBlockStatement ::
    "nat \<Rightarrow> Statement list \<Rightarrow> nat \<Rightarrow> State \<Rightarrow> Fault + (Object \<times> State)"
  and evalBlockStatement_loop ::
    "nat \<Rightarrow> Statement list \<Rightarrow> nat \<Rightarrow> State \<Rightarrow> Object \<Rightarrow> Fault + (Object \<times> State)"
  and evalCircuitStatement ::
    "nat \<Rightarrow> Expression \<Rightarrow> Statement list \<Rightarrow> Statement list option \<Rightarrow> nat \<Rightarrow> State
      \<Rightarrow> Fault + (Object \<times> State)"
  and evalLoopStatement ::
    "nat \<Rightarrow> Statement \<Rightarrow> Expression \<Rightarrow> Statement \<Rightarrow> Statement list \<Rightarrow> nat \<Rightarrow> State
      \<Rightarrow> Fault + (Object \<times> State)"
  and evalLoopStatement_loop ::
    "nat \<Rightarrow> Expression \<Rightarrow> Statement \<Rightarrow> Statement list \<Rightarrow> nat \<Rightarrow> State \<Rightarrow> Object
      \<Rightarrow> Fault + (Object \<times> State)"
  and evalWhileRacingStatement ::
    "nat \<Rightarrow> Expression \<Rightarrow> Statement list \<Rightarrow> nat \<Rightarrow> State \<Rightarrow> Fault + (Object \<times> State)"
  and evalWhileRacingStatement_loop ::
    "nat \<Rightarrow> Expression \<Rightarrow> Statement list \<Rightarrow> nat \<Rightarrow> State \<Rightarrow> Object
      \<Rightarrow> Fault + (Object \<times> State)"
  and evalExpressions ::
    "nat \<Rightarrow> Expression list \<Rightarrow> nat \<Rightarrow> State \<Rightarrow> Fault + (Object list \<times> State)"
  and evalExpressions_loop ::
    "nat \<Rightarrow> Expression list \<Rightarrow> nat \<Rightarrow> State \<Rightarrow> Object list
      \<Rightarrow> Fault + (Object list \<times> State)"
  and applyFunction :: "nat \<Rightarrow> Object \<Rightarrow> Object list \<Rightarrow> State \<Rightarrow> Fault + (Object \<times> State)"
where
  "Eval 0 node e st = Inl OutOfFuel"
| "Eval (Suc n) (Program stmts) e st = evalProgram n stmts e st"
| "Eval (Suc n) (Stmt (GridStatement name val_expr)) e st =
     (case Eval n (Expr val_expr) e st of Inl f \<Rightarrow> Inl f
      | Inr (val, st1) \<Rightarrow>
          if isError val then Inr (val, st1) else Inr (val, Set e name val st1))"
| "Eval (Suc n) (Stmt (PaceStatement name params body)) e st =
     (let fn = Function (nfunctions st) params body e;
          st1 = st\<lparr>nfunctions := nfunctions st + 1\<rparr>
      in Inr (fn, Set e name fn st1))"
| "Eval (Suc n) (Stmt (CircuitStatement cond cons alt)) e st =
     evalCircuitStatement n cond cons alt e st"
| "Eval (Suc n) (Stmt (LoopStatement init cond update body)) e st =
     evalLoopStatement n init cond update body e st"
| "Eval (Suc n) (Stmt (WhileRacingStatement cond body)) e st =
     evalWhileRacingStatement n cond body e st"
| "Eval (Suc n) (Stmt (ReturnPitStatement val_expr)) e st =
     (if val_expr \<noteq> NilExpression then
        (case Eval n (Expr val_expr) e st of Inl f \<Rightarrow> Inl f
         | Inr (evaluated, st1) \<Rightarrow>
             if isError evaluated then Inr (evaluated, st1)
             else Inr (ReturnValue evaluated, st1))
      else Inr (ReturnValue Null, st))"
| "Eval (Suc n) (Stmt BreakFlagStatement) e st = Inr (Break, st)"
| "Eval (Suc n) (Stmt ContinueRaceStatement) e st = Inr (Continue, st)"
| "Eval (Suc n) (Stmt (BlockStatement stmts)) e st = evalBlockStatement n stmts e st"
| "Eval (Suc n) (Stmt (ExpressionStatement ex)) e st = Eval n (Expr ex) e st"
| "Eval (Suc n) (Stmt NilPointer) e st = Inl (Panic nil_dereference)"
| "Eval (Suc n) (Stmt NilStatement) e st = Inr (Error ''unknown node type: <nil>'', st)"
| "Eval (Suc n) (Expr (NumberLiteral v)) e st = Inr (Number v, st)"
| "Eval (Suc n) (Expr (StringLiteral v)) e st = Inr (String v, st)"
| "Eval (Suc n) (Expr (BooleanLiteral v)) e st = Inr (nativeBoolToBooleanObject v, st)"
| "Eval (Suc n) (Expr (FormationLiteral elems)) e st =
     (case evalExpressions n elems e st of Inl f \<Rightarrow> Inl f
      | Inr (elements, st1) \<Rightarrow>
          if length elements = 1 \<and> isError (elements ! 0) then Inr (elements ! 0, st1)
          else Inr (Array (length (arrays st1)), st1\<lparr>arrays := arrays st1 @ [elements]\<rparr>))"
| "Eval (Suc n) (Expr (IndexExpression left_expr index_expr)) e st =
     (case Eval n (Expr left_expr) e st of Inl f \<Rightarrow> Inl f
      | Inr (left, st1) \<Rightarrow>
          if isError left then Inr (left, st1) else
          (case Eval n (Expr index_expr) e st1 of Inl f \<Rightarrow> Inl f
           | Inr (index, st2) \<Rightarrow>
               if isError index then Inr (index, st2) else
               (case evalIndexExpression st2 left index of Inl f \<Rightarrow> Inl f
                | Inr r \<Rightarrow> Inr (r, st2))))"
| "Eval (Suc n) (Expr (Identifier name)) e st =
     (case evalIdentifier name e st of Inl f \<Rightarrow> Inl f | Inr r \<Rightarrow> Inr (r, st))"
| "Eval (Suc n) (Expr (PrefixExpression operator right_expr)) e st =
     (case Eval n (Expr right_expr) e st of Inl f \<Rightarrow> Inl f
      | Inr (right, st1) \<Rightarrow>
          if isError right then Inr (right, st1) else
          (case evalPrefixExpression operator right of Inl f \<Rightarrow> Inl f
           | Inr r \<Rightarrow> Inr (r, st1)))"
| "Eval (Suc n) (Expr (InfixExpression left_expr operator right_expr)) e st =
     (case Eval n (Expr left_expr) e st of Inl f \<Rightarrow> Inl f
      | Inr (left, st1) \<Rightarrow>
          if isError left then Inr (left, st1) else
          (case Eval n (Expr right_expr) e st1 of Inl f \<Rightarrow> Inl f
           | Inr (right, st2) \<Rightarrow>
               if isError right then Inr (right, st2) else
               (case evalInfixExpression operator left right of Inl f \<Rightarrow> Inl f
                | Inr r \<Rightarrow> Inr (r, st2))))"
| "Eval (Suc n) (Expr (CallExpression fn_expr arg_exprs)) e st =
     (case Eval n (Expr fn_expr) e st of Inl f \<Rightarrow> Inl f
      | Inr (fn, st1) \<Rightarrow>
          if isError fn then Inr (fn, st1) else
          (case evalExpressions n arg_exprs e st1 of Inl f \<Rightarrow> Inl f
           | Inr (args, st2) \<Rightarrow>
               if length args = 1 \<and> isError (args ! 0) then Inr (args ! 0, st2)
               else applyFunction n fn args st2))"
| "Eval (Suc n) (Expr (AssignmentExpression name val_expr)) e st =
     (case Eval n (Expr val_expr) e st of Inl f \<Rightarrow> Inl f
      | Inr (val, st1) \<Rightarrow>
          if isError val then Inr (val, st1) else Inr (val, Set e name val st1))"
| "Eval (Suc n) (Expr NilExpression) e st = Inr (Error ''unknown node type: <nil>'', st)"
| "evalProgram 0 stmts e st = Inl OutOfFuel"
| "evalProgram (Suc n) stmts e st = evalProgram_loop n stmts e st NilObject"
| "evalProgram_loop 0 stmts e st result = Inl OutOfFuel"
| "evalProgram_loop (Suc n) [] e st result = Inr (result, st)"
| "evalProgram_loop (Suc n) (statement # stmts) e st result =
     (case Eval n (Stmt statement) e st of Inl f \<Rightarrow> Inl f
      | Inr (r, st1) \<Rightarrow>
          (case r of
             ReturnValue v \<Rightarrow> Inr (v, st1)
           | Error m \<Rightarrow> Inr (r, st1)
           | _ \<Rightarrow> evalProgram_loop n stmts e st1 r))"
| "evalBlockStatement 0 stmts e st = Inl OutOfFuel"
| "evalBlockStatement (Suc n) stmts e st = evalBlockStatement_loop n stmts e st NilObject"
| "evalBlockStatement_loop 0 stmts e st result = Inl OutOfFuel"
| "evalBlockStatement_loop (Suc n) [] e st result = Inr (result, st)"
| "evalBlockStatement_loop (Suc n) (statement # stmts) e st result =
     (case Eval n (Stmt statement) e st of Inl f \<Rightarrow> Inl f
      | Inr (r, st1) \<Rightarrow>
          if r \<noteq> NilObject
             \<and> (Object_Type r = RETURN_OBJ \<or> Object_Type r = ERROR_OBJ
                \<or> Object_Type r = BREAK_OBJ \<or> Object_Type r = CONTINUE_OBJ)
          then Inr (r, st1)
          else evalBlockStatement_loop n stmts e st1 r)"
| "evalCircuitStatement 0 cond cons alt e st = Inl OutOfFuel"
| "evalCircuitStatement (Suc n) cond cons alt e st =
     (case Eval n (Expr cond) e st of Inl f \<Rightarrow> Inl f
      | Inr (condition, st1) \<Rightarrow>
          if isError condition then Inr (condition, st1)
          else if isTruthy condition then Eval n (Stmt (BlockStatement cons)) e st1
          else (case alt of
                  Some alternative \<Rightarrow> Eval n (Stmt (BlockStatement alternative)) e st1
                | None \<Rightarrow> Inr (Null, st1)))"
| "evalLoopStatement 0 init cond update body e st = Inl OutOfFuel"
| "evalLoopStatement (Suc n) init cond update body e st =
     (case NewEnclosedEnvironment e st of (loopEnv, st1) \<Rightarrow>
        (if init \<noteq> NilStatement then
           (case Eval n (Stmt init) loopEnv st1 of Inl f \<Rightarrow> Inl f
            | Inr (r, st2) \<Rightarrow>
                if isError r then Inr (r, st2)
                else evalLoopStatement_loop n cond update body loopEnv st2 Null)
         else evalLoopStatement_loop n cond update body loopEnv st1 Null))"
| "evalLoopStatement_loop 0 cond update body loopEnv st result = Inl OutOfFuel"
| "evalLoopStatement_loop (Suc n) cond update body loopEnv st result =
     (case (if cond \<noteq> NilExpression then Eval n (Expr cond) loopEnv st
            else Inr (Boolean True, st)) of
        Inl f \<Rightarrow> Inl f
      | Inr (condition, st1) \<Rightarrow>
          if cond \<noteq> NilExpression \<and> isError condition then Inr (condition, st1)
          else if cond \<noteq> NilExpression \<and> \<not> isTruthy condition then Inr (result, st1)
          else
            (case Eval n (Stmt (BlockStatement body)) loopEnv st1 of Inl f \<Rightarrow> Inl f
             | Inr (r, st2) \<Rightarrow>
                 if r \<noteq> NilObject \<and> (Object_Type r = RETURN_OBJ \<or> Object_Type r = ERROR_OBJ)
                 then Inr (r, st2)
                 else if r \<noteq> NilObject \<and> Object_Type r = BREAK_OBJ then Inr (Null, st2)
                 else if update \<noteq> NilStatement then
                   (case Eval n (Stmt update) loopEnv st2 of Inl f \<Rightarrow> Inl f
                    | Inr (updateResult, st3) \<Rightarrow>
                        if isError updateResult then Inr (updateResult, st3)
                        else evalLoopStatement_loop n cond update body loopEnv st3 r)
                 else evalLoopStatement_loop n cond update body loopEnv st2 r))"
| "evalWhileRacingStatement 0 cond body e st = Inl OutOfFuel"
| "evalWhileRacingStatement (Suc n) cond body e st =
     evalWhileRacingStatement_loop n cond body e st Null"
| "evalWhileRacingStatement_loop 0 cond body e st result = Inl OutOfFuel"
| "evalWhileRacingStatement_loop (Suc n) cond body e st result =
     (case Eval n (Expr cond) e st of Inl f \<Rightarrow> Inl f
      | Inr (condition, st1) \<Rightarrow>
          if isError condition then Inr (condition, st1)
          else if \<not> isTruthy condition then Inr (result, st1)
          else
            (case Eval n (Stmt (BlockStatement body)) e st1 of Inl f \<Rightarrow> Inl f
             | Inr (r, st2) \<Rightarrow>
                 if r \<noteq> NilObject \<and> (Object_Type r = RETURN_OBJ \<or> Object_Type r = ERROR_OBJ)
                 then Inr (r, st2)
                 else if r \<noteq> NilObject \<and> Object_Type r = BREAK_OBJ then Inr (Null, st2)
                 else evalWhileRacingStatement_loop n cond body e st2 r))"
| "evalExpressions 0 exps e st = Inl OutOfFuel"
| "evalExpressions (Suc n) exps e st = evalExpressions_loop n exps e st []"
| "evalExpressions_loop 0 exps e st result = Inl OutOfFuel"
| "evalExpressions_loop (Suc n) [] e st result = Inr (result, st)"
| "evalExpressions_loop (Suc n) (ex # exps) e st result =
     (case Eval n (Expr ex) e st of Inl f \<Rightarrow> Inl f
      | Inr (evaluated, st1) \<Rightarrow>
          if isError evaluated then Inr ([evaluated], st1)
          else evalExpressions_loop n exps e st1 (result @ [evaluated]))"
| "applyFunction 0 fn args st = Inl OutOfFuel"
| "applyFunction (Suc n) fn args st =
     (case fn of
        Function a params body fn_env \<Rightarrow>
          (case extendFunctionEnv fn_env params args st of (extendedEnv, st1) \<Rightarrow>
             (case Eval n (Stmt (BlockStatement body)) extendedEnv st1 of Inl f \<Rightarrow> Inl f
              | Inr (evaluated, st2) \<Rightarrow> Inr (unwrapReturnValue evaluated, st2)))
      | Builtin b \<Rightarrow> builtin_Fn b args st
      | _ \<Rightarrow> Inr (Error (''not a function: '' @ GoTypeName fn), st))"
  by pat_completeness auto
termination
  by (relation "measure (case_sum
        (case_sum (case_sum fst (case_sum fst fst)) (case_sum fst (case_sum fst fst)))
        (case_sum (case_sum fst (case_sum fst fst))
                  (case_sum (case_sum fst fst) (case_sum fst fst))))")
     simp_all

declare Eval.simps [simp del] evalProgram.simps [simp del] evalProgram_loop.simps [simp del]
  evalBlockStatement.simps [simp del] evalBlockStatement_loop.simps [simp del]
  evalCircuitStatement.simps [simp del] evalLoopStatement.simps [simp del]
  evalLoopStatement_loop.simps [simp del] evalWhileRacingStatement.simps [simp del]
  evalWhileRacingStatement_loop.simps [simp del] evalExpressions.simps [simp del]
  evalExpressions_loop.simps [simp del] applyFunction.simps [simp del]


subsection \<open>The driver\<close>

text \<open>
  Go's \<open>error\<close> values as \<open>Execute\<close> makes them: \<open>Errorf format\<close> is the error that
  \<open>fmt.Errorf(format)\<close> builds from the format string and no operands. \<open>Execute\<close> hands
  the \<open>Inspect\<close> form of an error object to \<open>fmt.Errorf\<close> as the format, so the text of
  the error is that form after \<open>fmt\<close> has processed its \<open>%\<close> verbs; the processing is
  \<open>fmt\<close>'s and is not part of the model, which keeps the format.
  \<open>Execute\<close> returns \<open>None\<close> for Go's nil error (success). The lines it prints for parser
  errors are not part of the model. The evaluation changes the interpreter's store.
\<close>

datatype GoError = Errorf string

definition Error_Inspect :: "Object \<Rightarrow> string" where
  "Error_Inspect obj = (case obj of Error message \<Rightarrow> ''ERROR: '' @ message | _ \<Rightarrow> [])"

definition Execute ::
  "nat \<Rightarrow> string \<Rightarrow> Interpreter \<Rightarrow> Fault + (GoError option \<times> Interpreter)" where
  "Execute n inp i =
     (case ParseProgram n (NewParser (NewLexer inp)) of
        None \<Rightarrow> Inl OutOfFuel
      | Some (program, p) \<Rightarrow>
          if length (errors p) > 0 then Inr (Some (Errorf ''parsing failed''), i)
          else
            (case Eval n (Program program) (env i) (heap i) of
               Inl f \<Rightarrow> Inl f
             | Inr (result, st) \<Rightarrow>
                 if result \<noteq> NilObject \<and> Object_Type result = ERROR_OBJ
                 then Inr (Some (Errorf (Error_Inspect result)), i\<lparr>heap := st\<rparr>)
                 else Inr (None, i\<lparr>heap := st\<rparr>)))"

text \<open>
  What \<open>Execute\<close> has in hand before it turns it into an \<open>error\<close>: the parser's errors
  (\<open>Inl\<close>) or, when there are none, the object the program evaluated to and the store
  after it (\<open>Inr\<close>).
\<close>

definition Execute_result ::
  "nat \<Rightarrow> string \<Rightarrow> Interpreter \<Rightarrow> Fault + (string list + Object \<times> State)" where
  "Execute_result n inp i =
     (case ParseProgram n (NewParser (NewLexer inp)) of
        None \<Rightarrow> Inl OutOfFuel
      | Some (program, p) \<Rightarrow>
          if length (errors p) > 0 then Inr (Inl (errors p))
          else
            (case Eval n (Program program) (env i) (heap i) of
               Inl f \<Rightarrow> Inl f
             | Inr r \<Rightarrow> Inr (Inr r)))"

subsection \<open>Notions for the properties\<close>

text \<open>\<open>env_chain es e c\<close>: following the \<open>outer\<close> pointers from the environment at
  address \<open>e\<close> visits the addresses \<open>c\<close>, innermost first, and ends at an environment
  without an outer one.\<close>

inductive env_chain :: "Environment list \<Rightarrow> nat \<Rightarrow> nat list \<Rightarrow> bool" where
  root: "e < length es \<Longrightarrow> outer (es ! e) = None \<Longrightarrow> env_chain es e [e]"
| enclosed: "e < length es \<Longrightarrow> outer (es ! e) = Some up \<Longrightarrow> env_chain es up c
     \<Longrightarrow> env_chain es e (e # c)"

text \<open>\<open>envs_kept st st'\<close>: every environment of \<open>st\<close> is in \<open>st'\<close> as it was.
  \<open>env_frame e st st'\<close>: every environment of \<open>st\<close> is still there with its \<open>outer\<close>
  pointer and at least its bindings, and all but the one at \<open>e\<close> are as they were.\<close>

definition envs_kept :: "State \<Rightarrow> State \<Rightarrow> bool" where
  "envs_kept st st' =
     (length (envs st) \<le> length (envs st')
      \<and> (\<forall>a<length (envs st). envs st' ! a = envs st ! a))"

definition env_frame :: "nat \<Rightarrow> State \<Rightarrow> State \<Rightarrow> bool" where
  "env_frame e st st' =
     (length (envs st) \<le> length (envs st')
      \<and> (\<forall>a<length (envs st).
            outer (envs st' ! a) = outer (envs st ! a)
            \<and> dom (store (envs st ! a)) \<subseteq> dom (store (envs st' ! a))
            \<and> (a \<noteq> e \<longrightarrow> envs st' ! a = envs st ! a)))"

text \<open>A store with one array, for the examples.\<close>

definition three_laps :: State where
  "three_laps = \<lparr>envs = [], arrays = [[Number (Fin False 10), Number (Fin False 20),
     Number (Fin False 30)]], nfunctions = 0, printed = []\<rparr>"

section \<open>Properties\<close>

subsection \<open>The lexer\<close>

lemma readString_loop_runs_to_end:
  "\<forall>j. position l \<le> j \<and> j < length (input l) \<longrightarrow> input l ! j \<noteq> CHR 0x22 \<Longrightarrow>
   position l \<le> length (input l) \<Longrightarrow>
   readString_loop l =
     l\<lparr>position := length (input l),
       column := column l + (length (input l) - position l)\<rparr>"
proof (induction l rule: readString_loop.induct)
  case (1 l)
  show ?case
  proof (cases "position l < length (input l)")
    case True
    with "1.prems" have ne: "input l ! position l \<noteq> CHR 0x22" by simp
    have "readString_loop (advance l) =
      (advance l)\<lparr>position := length (input (advance l)),
        column := column (advance l) + (length (input (advance l)) - position (advance l))\<rparr>"
      using True ne "1.prems" by (intro "1.IH") (auto simp: advance_def)
    moreover have "readString_loop l = readString_loop (advance l)"
      using True ne by (subst readString_loop.simps) simp
    ultimately show ?thesis using True by (simp add: advance_def)
  next
    case False
    with "1.prems" have "position l = length (input l)" by simp
    then show ?thesis by (subst readString_loop.simps) simp
  qed
qed

lemma skipWhitespace_at_end:
  "length (input l) \<le> position l \<Longrightarrow> skipWhitespace l = l"
  by (subst skipWhitespace.simps) simp

lemma NextToken_at_end:
  "length (input l) \<le> position l \<Longrightarrow>
   NextToken l = (\<lparr>Type = EOF, Value = [], Line = line l, Column = column l\<rparr>, l)"
  by (subst NextToken.simps) (simp add: skipWhitespace_at_end)

text \<open>
  Claim C9. When the lexer's cursor stands on a double quote that opens a string literal
  and no closing double quote follows before the end of the input, \<open>NextToken\<close> returns
  exactly one \<open>ILLEGAL\<close> token, whose lexeme is the diagnostic \<open>unterminated string\<close>,
  and leaves the cursor at the end of the input: the next call returns \<open>EOF\<close> (and leaves
  the lexer as it is, so every later call does too).
\<close>

theorem unterminated_string_ILLEGAL_then_EOF:
  assumes "position l < length (input l)"
    and "input l ! position l = CHR 0x22"
    and "\<forall>j. position l < j \<and> j < length (input l) \<longrightarrow> input l ! j \<noteq> CHR 0x22"
  shows "fst (NextToken l) =
           \<lparr>Type = ILLEGAL, Value = ''unterminated string'', Line = line l, Column = column l\<rparr>
       \<and> position (snd (NextToken l)) = length (input l)
       \<and> input (snd (NextToken l)) = input l
       \<and> Type (fst (NextToken (snd (NextToken l)))) = EOF
       \<and> snd (NextToken (snd (NextToken l))) = snd (NextToken l)"
proof -
  have ws: "skipWhitespace l = l"
    using assms(1,2) by (subst skipWhitespace.simps) simp
  define l1 where "l1 = l\<lparr>position := length (input l),
    column := column l + (length (input l) - position l)\<rparr>"
  have loop: "readString_loop (advance l) = l1"
    using readString_loop_runs_to_end [of "advance l"] assms
    by (simp add: advance_def l1_def)
  have rs: "readString l =
    (\<lparr>Type = ILLEGAL, Value = ''unterminated string'', Line = line l, Column = column l\<rparr>, l1)"
    unfolding readString_def Let_def loop by (simp add: l1_def)
  have nt: "NextToken l = readString l"
    using assms(1,2) by (subst NextToken.simps) (simp add: ws Let_def)
  have fin: "length (input l1) \<le> position l1"
    by (simp add: l1_def)
  show ?thesis
    using NextToken_at_end [OF fin] by (simp add: nt rs) (simp add: l1_def)
qed

theorem unterminated_string_witness:
  "fst (NextToken (NewLexer [CHR 0x22, CHR ''a'', CHR ''b''])) =
      \<lparr>Type = ILLEGAL, Value = ''unterminated string'', Line = 1, Column = 1\<rparr>
   \<and> Type (fst (NextToken (snd (NextToken (NewLexer [CHR 0x22, CHR ''a'', CHR ''b'']))))) = EOF"
proof -
  let ?l = "NewLexer [CHR 0x22, CHR ''a'', CHR ''b'']"
  have 1: "position ?l < length (input ?l)" by (simp add: NewLexer_def)
  have 2: "input ?l ! position ?l = CHR 0x22" by (simp add: NewLexer_def)
  have 3: "\<forall>j. position ?l < j \<and> j < length (input ?l) \<longrightarrow> input ?l ! j \<noteq> CHR 0x22"
    by (auto simp: NewLexer_def nth_Cons split: nat.splits)
  show ?thesis
    using unterminated_string_ILLEGAL_then_EOF [OF 1 2 3] by (simp add: NewLexer_def)
qed


subsection \<open>Environments and frames\<close>

lemma NewEnclosedEnvironment_eq:
  "NewEnclosedEnvironment up st =
     (length (envs st), st\<lparr>envs := envs st @ [\<lparr>store = Map.empty, outer = Some up\<rparr>]\<rparr>)"
  by (simp add: NewEnclosedEnvironment_def NewEnvironment_def)

lemma envs_Set:
  "envs (Set e name val st) =
     (envs st)[e := (envs st ! e)\<lparr>store := (store (envs st ! e))(name \<mapsto> val)\<rparr>]"
  by (simp add: Set_def)

lemma env_frame_refl: "env_frame e st st"
  by (simp add: env_frame_def)

lemma env_frame_trans:
  "env_frame e st st1 \<Longrightarrow> env_frame e st1 st2 \<Longrightarrow> env_frame e st st2"
proof -
  assume 1: "env_frame e st st1" and 2: "env_frame e st1 st2"
  show ?thesis
    unfolding env_frame_def
  proof (intro conjI allI impI)
    show "length (envs st) \<le> length (envs st2)"
      using 1 2 by (simp add: env_frame_def)
  next
    fix a assume a: "a < length (envs st)"
    then have a1: "a < length (envs st1)" using 1 by (simp add: env_frame_def)
    show "outer (envs st2 ! a) = outer (envs st ! a)"
      using 1 2 a a1 by (simp add: env_frame_def)
    show "dom (store (envs st ! a)) \<subseteq> dom (store (envs st2 ! a))"
      using 1 2 a a1 unfolding env_frame_def by (meson subset_trans)
    show "envs st2 ! a = envs st ! a" if "a \<noteq> e"
      using 1 2 a a1 that by (simp add: env_frame_def)
  qed
qed

lemma env_frame_same_envs: "envs st' = envs st \<Longrightarrow> env_frame e st st'"
  by (simp add: env_frame_def)

lemma env_frame_Set: "env_frame e st (Set e name val st)"
proof -
  have "outer (envs (Set e name val st) ! a) = outer (envs st ! a)
      \<and> dom (store (envs st ! a)) \<subseteq> dom (store (envs (Set e name val st) ! a))
      \<and> (a \<noteq> e \<longrightarrow> envs (Set e name val st) ! a = envs st ! a)"
    if "a < length (envs st)" for a
    using that by (cases "a = e") (auto simp: envs_Set)
  then show ?thesis
    by (simp add: env_frame_def envs_Set)
qed

lemma envs_kept_refl: "envs_kept st st"
  by (simp add: envs_kept_def)

lemma envs_kept_frame: "envs_kept st st' \<Longrightarrow> env_frame e st st'"
  by (simp add: envs_kept_def env_frame_def)

lemma envs_kept_new_frame:
  "envs_kept st st1 \<Longrightarrow> length (envs st) \<le> e' \<Longrightarrow> env_frame e' st1 st2 \<Longrightarrow> envs_kept st st2"
  unfolding envs_kept_def env_frame_def by (auto simp: less_le_trans)

lemma envs_kept_NewEnclosedEnvironment:
  "NewEnclosedEnvironment up st = (e', st1) \<Longrightarrow> envs_kept st st1 \<and> e' = length (envs st)"
  by (auto simp: NewEnclosedEnvironment_eq envs_kept_def nth_append)

lemma extendFunctionEnv_loop_frame:
  "env_frame e st (extendFunctionEnv_loop e params k args st)"
proof (induction params arbitrary: k st)
  case Nil
  show ?case by (simp add: env_frame_refl)
next
  case (Cons p ps)
  show ?case
  proof (cases "k < length args")
    case True
    have "env_frame e (Set e p (args ! k) st)
      (extendFunctionEnv_loop e ps (k + 1) args (Set e p (args ! k) st))"
      by (rule Cons.IH)
    with env_frame_Set [of e st p "args ! k"] show ?thesis
      using True by (simp add: env_frame_trans)
  next
    case False
    then show ?thesis using Cons.IH [where k = "k + 1" and st = st] by simp
  qed
qed

lemma envs_kept_extendFunctionEnv:
  "extendFunctionEnv up params args st = (e', st1) \<Longrightarrow> envs_kept st st1"
proof -
  assume a: "extendFunctionEnv up params args st = (e', st1)"
  obtain st0 where n: "NewEnclosedEnvironment up st = (length (envs st), st0)"
    by (simp add: NewEnclosedEnvironment_eq)
  from a n have st1: "st1 = extendFunctionEnv_loop (length (envs st)) params 0 args st0"
    by (auto simp: extendFunctionEnv_def)
  have "envs_kept st st0"
    using envs_kept_NewEnclosedEnvironment [OF n] by simp
  then show ?thesis
    unfolding st1
    by (rule envs_kept_new_frame [OF _ order_refl extendFunctionEnv_loop_frame])
qed

lemma builtin_Fn_envs:
  "builtin_Fn b args st = Inr (v, st') \<Longrightarrow> envs st' = envs st"
  by (cases b)
    (auto simp: builtin_Fn_def builtin_telemetry_def builtin_length_def builtin_push_def Let_def
      split: if_splits Object.splits)

lemma env_frame_field_updates [simp]:
  "env_frame e st (st'\<lparr>arrays := x\<rparr>) = env_frame e st st'"
  "env_frame e st (st'\<lparr>nfunctions := k\<rparr>) = env_frame e st st'"
  "env_frame e st (st'\<lparr>printed := y\<rparr>) = env_frame e st st'"
  by (simp_all add: env_frame_def)

lemma env_frame_Set_after: "envs st1 = envs st \<Longrightarrow> env_frame e st (Set e name val st1)"
  using env_frame_Set [of e st1 name val] by (simp add: env_frame_def envs_Set)

lemma envs_kept_same_envs: "envs st' = envs st \<Longrightarrow> envs_kept st st'"
  by (simp add: envs_kept_def)

lemma extendFunctionEnv_address:
  "extendFunctionEnv up params args st = (e', st1) \<Longrightarrow> e' = length (envs st)"
  by (auto simp: extendFunctionEnv_def NewEnclosedEnvironment_eq)

lemma Get_chain:
  "env_chain es e c \<Longrightarrow>
   Get es e name =
     Some (case find (\<lambda>a. store (es ! a) name \<noteq> None) c of
             None \<Rightarrow> None
           | Some a \<Rightarrow> store (es ! a) name)"
proof (induction rule: env_chain.induct)
  case (root e es)
  then show ?case
    by (subst Get.simps) (auto split: option.splits)
next
  case (enclosed e es up c)
  then show ?case
    by (subst Get.simps) (auto split: option.splits)
qed

lemma env_chain_append: "env_chain es e c \<Longrightarrow> env_chain (es @ es') e c"
proof (induction rule: env_chain.induct)
  case (root e es)
  then show ?case by (simp add: env_chain.root nth_append)
next
  case (enclosed e es up c)
  then show ?case by (simp add: env_chain.enclosed nth_append)
qed

lemma env_chain_bound: "env_chain es e c \<Longrightarrow> \<forall>a \<in> set c. a < length es"
  by (induction rule: env_chain.induct) auto

lemma Get_append:
  assumes "env_chain es e c"
  shows "Get (es @ es') e name = Get es e name"
proof -
  have "find (\<lambda>a. store ((es @ es') ! a) name \<noteq> None) c
      = find (\<lambda>a. store (es ! a) name \<noteq> None) c"
    using env_chain_bound [OF assms] by (intro find_cong) (auto simp: nth_append)
  moreover have "store ((es @ es') ! a) name = store (es ! a) name"
    if "find (\<lambda>a. store (es ! a) name \<noteq> None) c = Some a" for a
  proof -
    from that have "a \<in> set c" by (auto simp: find_Some_iff)
    with env_chain_bound [OF assms] show ?thesis by (simp add: nth_append)
  qed
  ultimately show ?thesis
    using Get_chain [OF assms, of name] Get_chain [OF env_chain_append [OF assms], of es' name]
    by (auto split: option.splits)
qed

lemma extendFunctionEnv_loop_eq:
  "e < length (envs st) \<Longrightarrow>
   extendFunctionEnv_loop e params k args st =
     st\<lparr>envs := (envs st)[e := (envs st ! e)
        \<lparr>store := (store (envs st ! e))(params [\<mapsto>] drop k args)\<rparr>]\<rparr>"
proof (induction params arbitrary: k st)
  case Nil
  then show ?case by simp
next
  case (Cons p ps)
  show ?case
  proof (cases "k < length args")
    case True
    then have d: "drop k args = args ! k # drop (k + 1) args"
      by (simp add: Cons_nth_drop_Suc)
    define st1 where "st1 = Set e p (args ! k) st"
    have e1: "e < length (envs st1)"
      using Cons.prems by (simp add: st1_def envs_Set)
    have s1: "envs st1 ! e = (envs st ! e)\<lparr>store := (store (envs st ! e))(p \<mapsto> args ! k)\<rparr>"
      using Cons.prems by (simp add: st1_def envs_Set)
    have "extendFunctionEnv_loop e (p # ps) k args st
        = extendFunctionEnv_loop e ps (k + 1) args st1"
      using True by (simp add: st1_def)
    also have "\<dots> = st1\<lparr>envs := (envs st1)[e := (envs st1 ! e)
        \<lparr>store := (store (envs st1 ! e))(ps [\<mapsto>] drop (k + 1) args)\<rparr>]\<rparr>"
      by (rule Cons.IH [OF e1])
    also have "\<dots> = st\<lparr>envs := (envs st)[e := (envs st ! e)
        \<lparr>store := (store (envs st ! e))(p # ps [\<mapsto>] drop k args)\<rparr>]\<rparr>"
      unfolding s1 by (simp add: d st1_def Set_def)
    finally show ?thesis .
  next
    case False
    then have "drop k args = []" "drop (k + 1) args = []" by simp_all
    with Cons.IH [OF Cons.prems, of "k + 1"] False show ?thesis by simp
  qed
qed

lemma extendFunctionEnv_eq:
  "extendFunctionEnv up params args st =
     (length (envs st),
      st\<lparr>envs := envs st @ [\<lparr>store = Map.empty(params [\<mapsto>] args), outer = Some up\<rparr>]\<rparr>)"
  by (simp add: extendFunctionEnv_def NewEnclosedEnvironment_eq extendFunctionEnv_loop_eq)

text \<open>What an evaluation can do to the environments that exist when it starts: \<open>Eval\<close> in
  the environment \<open>e\<close> changes none but \<open>e\<close>, and there it only adds or rebinds names;
  a \<open>loop\<close> statement and a function call change none at all.\<close>

lemma Eval_frame_step:
  "(\<forall>node e st v st'. Eval n node e st = Inr (v, st') \<longrightarrow> env_frame e st st') \<and>
   (\<forall>stmts e st v st'. evalProgram n stmts e st = Inr (v, st') \<longrightarrow> env_frame e st st') \<and>
   (\<forall>stmts e st res v st'. evalProgram_loop n stmts e st res = Inr (v, st') \<longrightarrow> env_frame e st st') \<and>
   (\<forall>stmts e st v st'. evalBlockStatement n stmts e st = Inr (v, st') \<longrightarrow> env_frame e st st') \<and>
   (\<forall>stmts e st res v st'. evalBlockStatement_loop n stmts e st res = Inr (v, st') \<longrightarrow> env_frame e st st') \<and>
   (\<forall>c t a e st v st'. evalCircuitStatement n c t a e st = Inr (v, st') \<longrightarrow> env_frame e st st') \<and>
   (\<forall>i c u b e st v st'. evalLoopStatement n i c u b e st = Inr (v, st') \<longrightarrow> envs_kept st st') \<and>
   (\<forall>c u b e st res v st'. evalLoopStatement_loop n c u b e st res = Inr (v, st') \<longrightarrow> env_frame e st st') \<and>
   (\<forall>c b e st v st'. evalWhileRacingStatement n c b e st = Inr (v, st') \<longrightarrow> env_frame e st st') \<and>
   (\<forall>c b e st res v st'. evalWhileRacingStatement_loop n c b e st res = Inr (v, st') \<longrightarrow> env_frame e st st') \<and>
   (\<forall>xs e st v st'. evalExpressions n xs e st = Inr (v, st') \<longrightarrow> env_frame e st st') \<and>
   (\<forall>xs e st res v st'. evalExpressions_loop n xs e st res = Inr (v, st') \<longrightarrow> env_frame e st st') \<and>
   (\<forall>fn args st v st'. applyFunction n fn args st = Inr (v, st') \<longrightarrow> envs_kept st st')"
proof (induction n)
  case 0
  show ?case
    by (simp add: Eval.simps evalProgram.simps evalProgram_loop.simps
        evalBlockStatement.simps evalBlockStatement_loop.simps evalCircuitStatement.simps
        evalLoopStatement.simps evalLoopStatement_loop.simps evalWhileRacingStatement.simps
        evalWhileRacingStatement_loop.simps evalExpressions.simps evalExpressions_loop.simps
        applyFunction.simps)
next
  case (Suc n)
  note IH = Suc.IH
  have E: "Eval n node e st = Inr (v, st') \<Longrightarrow> env_frame e st st'"
    for node e st v st'
    by (rule IH [THEN conjunct1, rule_format])
  have P: "evalProgram n stmts e st = Inr (v, st') \<Longrightarrow> env_frame e st st'"
    for stmts e st v st'
    by (rule IH [THEN conjunct2, THEN conjunct1, rule_format])
  have PL: "evalProgram_loop n stmts e st res = Inr (v, st') \<Longrightarrow> env_frame e st st'"
    for stmts e st res v st'
    by (rule IH [THEN conjunct2, THEN conjunct2, THEN conjunct1, rule_format])
  have B: "evalBlockStatement n stmts e st = Inr (v, st') \<Longrightarrow> env_frame e st st'"
    for stmts e st v st'
    by (rule IH [THEN conjunct2, THEN conjunct2, THEN conjunct2, THEN conjunct1, rule_format])
  have BL: "evalBlockStatement_loop n stmts e st res = Inr (v, st') \<Longrightarrow> env_frame e st st'"
    for stmts e st res v st'
    by (rule IH [THEN conjunct2, THEN conjunct2, THEN conjunct2, THEN conjunct2, THEN conjunct1, rule_format])
  have C: "evalCircuitStatement n c t a e st = Inr (v, st') \<Longrightarrow> env_frame e st st'"
    for c t a e st v st'
    by (rule IH [THEN conjunct2, THEN conjunct2, THEN conjunct2, THEN conjunct2, THEN conjunct2, THEN conjunct1, rule_format])
  have L: "evalLoopStatement n i c u b e st = Inr (v, st') \<Longrightarrow> envs_kept st st'"
    for i c u b e st v st'
    by (rule IH [THEN conjunct2, THEN conjunct2, THEN conjunct2, THEN conjunct2, THEN conjunct2, THEN conjunct2, THEN conjunct1, rule_format])
  have LL: "evalLoopStatement_loop n c u b e st res = Inr (v, st') \<Longrightarrow> env_frame e st st'"
    for c u b e st res v st'
    by (rule IH [THEN conjunct2, THEN conjunct2, THEN conjunct2, THEN conjunct2, THEN conjunct2, THEN conjunct2, THEN conjunct2, THEN conjunct1, rule_format])
  have W: "evalWhileRacingStatement n c b e st = Inr (v, st') \<Longrightarrow> env_frame e st st'"
    for c b e st v st'
    by (rule IH [THEN conjunct2, THEN conjunct2, THEN conjunct2, THEN conjunct2, THEN conjunct2, THEN conjunct2, THEN conjunct2, THEN conjunct2, THEN conjunct1, rule_format])
  have WL: "evalWhileRacingStatement_loop n c b e st res = Inr (v, st') \<Longrightarrow> env_frame e st st'"
    for c b e st res v st'
    by (rule IH [THEN conjunct2, THEN conjunct2, THEN conjunct2, THEN conjunct2, THEN conjunct2, THEN conjunct2, THEN conjunct2, THEN conjunct2, THEN conjunct2, THEN conjunct1, rule_format])
  have X: "evalExpressions n xs e st = Inr (v, st') \<Longrightarrow> env_frame e st st'"
    for xs e st v st'
    by (rule IH [THEN conjunct2, THEN conjunct2, THEN conjunct2, THEN conjunct2, THEN conjunct2, THEN conjunct2, THEN conjunct2, THEN conjunct2, THEN conjunct2, THEN conjunct2, THEN conjunct1, rule_format])
  have XL: "evalExpressions_loop n xs e st res = Inr (v, st') \<Longrightarrow> env_frame e st st'"
    for xs e st res v st'
    by (rule IH [THEN conjunct2, THEN conjunct2, THEN conjunct2, THEN conjunct2, THEN conjunct2, THEN conjunct2, THEN conjunct2, THEN conjunct2, THEN conjunct2, THEN conjunct2, THEN conjunct2, THEN conjunct1, rule_format])
  have A: "applyFunction n fn args st = Inr (v, st') \<Longrightarrow> envs_kept st st'"
    for fn args st v st'
    by (rule IH [THEN conjunct2, THEN conjunct2, THEN conjunct2, THEN conjunct2, THEN conjunct2, THEN conjunct2, THEN conjunct2, THEN conjunct2, THEN conjunct2, THEN conjunct2, THEN conjunct2, THEN conjunct2, rule_format])
  have 1: "env_frame e st st'" if "Eval (Suc n) node e st = Inr (v, st')" for node e st v st'
  proof (cases node)
    case (Program stmts)
    then show ?thesis using that P by (simp add: Eval.simps)
  next
    case (Stmt s)
    show ?thesis
      using that Stmt
      by (cases s)
        (auto simp: Eval.simps Let_def env_frame_refl env_frame_Set env_frame_Set_after
          envs_kept_frame
          split: sum.splits prod.splits if_splits dest!: E C L W B
          intro: env_frame_trans env_frame_same_envs)
  next
    case (Expr x)
    show ?thesis
      using that Expr
      by (cases x)
        (auto simp: Eval.simps Let_def env_frame_refl env_frame_Set env_frame_Set_after
          envs_kept_frame
          split: sum.splits prod.splits if_splits dest!: E X A
          intro: env_frame_trans env_frame_same_envs)
  qed
  have 2: "env_frame e st st'"
    if "evalProgram (Suc n) stmts e st = Inr (v, st')" for stmts e st v st'
    using that
    by (auto simp: evalProgram.simps env_frame_refl env_frame_Set 
        split: sum.splits prod.splits if_splits dest!: PL
        intro: env_frame_trans)
  have 3: "env_frame e st st'"
    if "evalProgram_loop (Suc n) stmts e st res = Inr (v, st')" for stmts e st res v st'
    using that
    by (cases stmts)
      (auto simp: evalProgram_loop.simps env_frame_refl env_frame_Set 
        split: sum.splits prod.splits if_splits Object.splits dest!: E PL
        intro: env_frame_trans)
  have 4: "env_frame e st st'"
    if "evalBlockStatement (Suc n) stmts e st = Inr (v, st')" for stmts e st v st'
    using that
    by (auto simp: evalBlockStatement.simps env_frame_refl env_frame_Set 
        split: sum.splits prod.splits if_splits dest!: BL
        intro: env_frame_trans)
  have 5: "env_frame e st st'"
    if "evalBlockStatement_loop (Suc n) stmts e st res = Inr (v, st')" for stmts e st res v st'
    using that
    by (cases stmts)
      (auto simp: evalBlockStatement_loop.simps env_frame_refl env_frame_Set 
        split: sum.splits prod.splits if_splits dest!: E BL
        intro: env_frame_trans)
  have 6: "env_frame e st st'"
    if "evalCircuitStatement (Suc n) c t a e st = Inr (v, st')" for c t a e st v st'
    using that
    by (auto simp: evalCircuitStatement.simps env_frame_refl env_frame_Set 
        split: sum.splits prod.splits if_splits option.splits dest!: E
        intro: env_frame_trans)
  have 7: "envs_kept st st'"
    if "evalLoopStatement (Suc n) i c u b e st = Inr (v, st')" for i c u b e st v st'
  proof -
    define st1 where "st1 = st\<lparr>envs := envs st @ [\<lparr>store = Map.empty, outer = Some e\<rparr>]\<rparr>"
    have k: "envs_kept st st1"
      by (simp add: envs_kept_def st1_def nth_append)
    have "env_frame (length (envs st)) st1 st'"
      using that
      by (auto simp: evalLoopStatement.simps NewEnclosedEnvironment_eq st1_def [symmetric]
          split: sum.splits prod.splits if_splits dest!: E LL intro: env_frame_trans)
    then show ?thesis
      by (rule envs_kept_new_frame [OF k order_refl])
  qed
  have 8: "env_frame e st st'"
    if "evalLoopStatement_loop (Suc n) c u b e st res = Inr (v, st')" for c u b e st res v st'
  proof -
    note simps = evalLoopStatement_loop.simps
    define CV where "CV = (if c \<noteq> NilExpression then Eval n (Expr c) e st
      else Inr (Boolean True, st))"
    from that obtain cv st1 where c1: "CV = Inr (cv, st1)"
      by (auto simp: simps CV_def split: sum.splits)
    have f1: "env_frame e st st1"
      using c1 E by (auto simp: CV_def env_frame_refl split: if_splits)
    show ?thesis
    proof (cases "c \<noteq> NilExpression \<and> (isError cv \<or> \<not> isTruthy cv)")
      case True
      with that c1 f1 show ?thesis by (auto simp: simps CV_def split: if_splits)
    next
      case False
      with that c1 obtain bv st2 where
        b1: "Eval n (Stmt (BlockStatement b)) e st1 = Inr (bv, st2)"
        by (auto simp: simps CV_def split: sum.splits)
      have f2: "env_frame e st st2"
        using f1 E [OF b1] by (rule env_frame_trans)
      show ?thesis
      proof (cases "bv \<noteq> NilObject \<and> (Object_Type bv = RETURN_OBJ
          \<or> Object_Type bv = ERROR_OBJ \<or> Object_Type bv = BREAK_OBJ)")
        case True
        with that False c1 b1 f2 show ?thesis by (auto simp: simps CV_def split: if_splits)
      next
        case F2: False
        show ?thesis
        proof (cases "u = NilStatement")
          case True
          with that F2 False c1 b1
          have "evalLoopStatement_loop n c u b e st2 bv = Inr (v, st')"
            by (auto simp: simps CV_def)
          from f2 LL [OF this] show ?thesis by (rule env_frame_trans)
        next
          case U: False
          with that F2 False c1 b1 obtain uv st3 where
            u1: "Eval n (Stmt u) e st2 = Inr (uv, st3)"
            by (auto simp: simps CV_def split: sum.splits)
          have f3: "env_frame e st st3"
            using f2 E [OF u1] by (rule env_frame_trans)
          show ?thesis
          proof (cases "isError uv")
            case True
            with that U F2 False c1 b1 u1 f3 show ?thesis by (auto simp: simps CV_def)
          next
            case U2: False
            with that U F2 False c1 b1 u1
            have "evalLoopStatement_loop n c u b e st3 bv = Inr (v, st')"
              by (auto simp: simps CV_def)
            from f3 LL [OF this] show ?thesis by (rule env_frame_trans)
          qed
        qed
      qed
    qed
  qed
  have 9: "env_frame e st st'"
    if "evalWhileRacingStatement (Suc n) c b e st = Inr (v, st')" for c b e st v st'
    using that WL by (simp add: evalWhileRacingStatement.simps)
  have 10: "env_frame e st st'"
    if "evalWhileRacingStatement_loop (Suc n) c b e st res = Inr (v, st')"
    for c b e st res v st'
  proof -
    note simps = evalWhileRacingStatement_loop.simps
    from that obtain cv st1 where c1: "Eval n (Expr c) e st = Inr (cv, st1)"
      by (auto simp: simps split: sum.splits)
    note f1 = E [OF c1]
    show ?thesis
    proof (cases "isError cv \<or> \<not> isTruthy cv")
      case True
      with that c1 f1 show ?thesis by (auto simp: simps split: if_splits)
    next
      case False
      with that c1 obtain bv st2 where
        b1: "Eval n (Stmt (BlockStatement b)) e st1 = Inr (bv, st2)"
        by (auto simp: simps split: sum.splits)
      have f2: "env_frame e st st2"
        using f1 E [OF b1] by (rule env_frame_trans)
      show ?thesis
      proof (cases "bv \<noteq> NilObject \<and> (Object_Type bv = RETURN_OBJ
          \<or> Object_Type bv = ERROR_OBJ \<or> Object_Type bv = BREAK_OBJ)")
        case True
        with that False c1 b1 f2 show ?thesis by (auto simp: simps split: if_splits)
      next
        case F2: False
        with that False c1 b1
        have "evalWhileRacingStatement_loop n c b e st2 bv = Inr (v, st')"
          by (auto simp: simps)
        from f2 WL [OF this] show ?thesis by (rule env_frame_trans)
      qed
    qed
  qed
  have 11: "env_frame e st st'"
    if "evalExpressions (Suc n) xs e st = Inr (v, st')" for xs e st v st'
    using that XL by (simp add: evalExpressions.simps)
  have 12: "env_frame e st st'"
    if "evalExpressions_loop (Suc n) xs e st res = Inr (v, st')" for xs e st res v st'
    using that
    by (cases xs)
      (auto simp: evalExpressions_loop.simps env_frame_refl
        split: sum.splits prod.splits if_splits dest!: E XL intro: env_frame_trans)
  have 13: "envs_kept st st'"
    if "applyFunction (Suc n) fn args st = Inr (v, st')" for fn args st v st'
  proof (cases fn)
    case (Function a params body up)
    obtain e' st1 where x: "extendFunctionEnv up params args st = (e', st1)"
      by (cases "extendFunctionEnv up params args st")
    with that Function obtain ev where
      b: "Eval n (Stmt (BlockStatement body)) e' st1 = Inr (ev, st')"
      by (auto simp: applyFunction.simps split: sum.splits)
    show ?thesis
      using envs_kept_new_frame [OF envs_kept_extendFunctionEnv [OF x] _ E [OF b]]
        extendFunctionEnv_address [OF x] by simp
  next
    case (Builtin f)
    with that show ?thesis
      by (auto simp: applyFunction.simps dest!: builtin_Fn_envs intro: envs_kept_same_envs)
  qed (use that in \<open>auto simp: applyFunction.simps envs_kept_refl\<close>)
  show ?case
    apply (intro conjI allI impI)
    apply (erule 1)
    apply (erule 2)
    apply (erule 3)
    apply (erule 4)
    apply (erule 5)
    apply (erule 6)
    apply (erule 7)
    apply (erule 8)
    apply (erule 9)
    apply (erule 10)
    apply (erule 11)
    apply (erule 12)
    apply (erule 13)
    done
qed

lemma Eval_frame: "Eval n node e st = Inr (v, st') \<Longrightarrow> env_frame e st st'"
  by (rule Eval_frame_step [THEN conjunct1, rule_format])

lemma evalLoopStatement_loop_frame:
  "evalLoopStatement_loop n c u b e st res = Inr (v, st') \<Longrightarrow> env_frame e st st'"
  by (rule Eval_frame_step [THEN conjunct2, THEN conjunct2, THEN conjunct2, THEN conjunct2, THEN conjunct2, THEN conjunct2, THEN conjunct2, THEN conjunct1, rule_format])

lemma evalWhileRacingStatement_loop_frame:
  "evalWhileRacingStatement_loop n c b e st res = Inr (v, st') \<Longrightarrow> env_frame e st st'"
  by (rule Eval_frame_step [THEN conjunct2, THEN conjunct2, THEN conjunct2, THEN conjunct2, THEN conjunct2, THEN conjunct2, THEN conjunct2, THEN conjunct2, THEN conjunct2, THEN conjunct1, rule_format])

subsection \<open>Fuel\<close>

text \<open>A result other than \<open>OutOfFuel\<close> is the result with any larger amount of fuel.\<close>

lemma Eval_fuel_step:
  "(\<forall>node e st. Eval n node e st \<noteq> Inl OutOfFuel \<longrightarrow>
      Eval (Suc n) node e st = Eval n node e st) \<and>
   (\<forall>stmts e st. evalProgram n stmts e st \<noteq> Inl OutOfFuel \<longrightarrow>
      evalProgram (Suc n) stmts e st = evalProgram n stmts e st) \<and>
   (\<forall>stmts e st res. evalProgram_loop n stmts e st res \<noteq> Inl OutOfFuel \<longrightarrow>
      evalProgram_loop (Suc n) stmts e st res = evalProgram_loop n stmts e st res) \<and>
   (\<forall>stmts e st. evalBlockStatement n stmts e st \<noteq> Inl OutOfFuel \<longrightarrow>
      evalBlockStatement (Suc n) stmts e st = evalBlockStatement n stmts e st) \<and>
   (\<forall>stmts e st res. evalBlockStatement_loop n stmts e st res \<noteq> Inl OutOfFuel \<longrightarrow>
      evalBlockStatement_loop (Suc n) stmts e st res = evalBlockStatement_loop n stmts e st res) \<and>
   (\<forall>c t a e st. evalCircuitStatement n c t a e st \<noteq> Inl OutOfFuel \<longrightarrow>
      evalCircuitStatement (Suc n) c t a e st = evalCircuitStatement n c t a e st) \<and>
   (\<forall>i c u b e st. evalLoopStatement n i c u b e st \<noteq> Inl OutOfFuel \<longrightarrow>
      evalLoopStatement (Suc n) i c u b e st = evalLoopStatement n i c u b e st) \<and>
   (\<forall>c u b e st res. evalLoopStatement_loop n c u b e st res \<noteq> Inl OutOfFuel \<longrightarrow>
      evalLoopStatement_loop (Suc n) c u b e st res = evalLoopStatement_loop n c u b e st res) \<and>
   (\<forall>c b e st. evalWhileRacingStatement n c b e st \<noteq> Inl OutOfFuel \<longrightarrow>
      evalWhileRacingStatement (Suc n) c b e st = evalWhileRacingStatement n c b e st) \<and>
   (\<forall>c b e st res. evalWhileRacingStatement_loop n c b e st res \<noteq> Inl OutOfFuel \<longrightarrow>
      evalWhileRacingStatement_loop (Suc n) c b e st res = evalWhileRacingStatement_loop n c b e st res) \<and>
   (\<forall>xs e st. evalExpressions n xs e st \<noteq> Inl OutOfFuel \<longrightarrow>
      evalExpressions (Suc n) xs e st = evalExpressions n xs e st) \<and>
   (\<forall>xs e st res. evalExpressions_loop n xs e st res \<noteq> Inl OutOfFuel \<longrightarrow>
      evalExpressions_loop (Suc n) xs e st res = evalExpressions_loop n xs e st res) \<and>
   (\<forall>fn args st. applyFunction n fn args st \<noteq> Inl OutOfFuel \<longrightarrow>
      applyFunction (Suc n) fn args st = applyFunction n fn args st)"
proof (induction n)
  case 0
  show ?case
    by (simp add: Eval.simps evalProgram.simps evalProgram_loop.simps
        evalBlockStatement.simps evalBlockStatement_loop.simps evalCircuitStatement.simps
        evalLoopStatement.simps evalLoopStatement_loop.simps evalWhileRacingStatement.simps
        evalWhileRacingStatement_loop.simps evalExpressions.simps evalExpressions_loop.simps
        applyFunction.simps)
next
  case (Suc n)
  note IH = Suc.IH
  have E: "Eval n node e st \<noteq> Inl OutOfFuel \<Longrightarrow> Eval (Suc n) node e st = Eval n node e st"
    for node e st
    by (rule IH [THEN conjunct1, rule_format])
  have P: "evalProgram n stmts e st \<noteq> Inl OutOfFuel \<Longrightarrow> evalProgram (Suc n) stmts e st = evalProgram n stmts e st"
    for stmts e st
    by (rule IH [THEN conjunct2, THEN conjunct1, rule_format])
  have PL: "evalProgram_loop n stmts e st res \<noteq> Inl OutOfFuel \<Longrightarrow> evalProgram_loop (Suc n) stmts e st res = evalProgram_loop n stmts e st res"
    for stmts e st res
    by (rule IH [THEN conjunct2, THEN conjunct2, THEN conjunct1, rule_format])
  have B: "evalBlockStatement n stmts e st \<noteq> Inl OutOfFuel \<Longrightarrow> evalBlockStatement (Suc n) stmts e st = evalBlockStatement n stmts e st"
    for stmts e st
    by (rule IH [THEN conjunct2, THEN conjunct2, THEN conjunct2, THEN conjunct1, rule_format])
  have BL: "evalBlockStatement_loop n stmts e st res \<noteq> Inl OutOfFuel \<Longrightarrow> evalBlockStatement_loop (Suc n) stmts e st res = evalBlockStatement_loop n stmts e st res"
    for stmts e st res
    by (rule IH [THEN conjunct2, THEN conjunct2, THEN conjunct2, THEN conjunct2, THEN conjunct1, rule_format])
  have C: "evalCircuitStatement n c t a e st \<noteq> Inl OutOfFuel \<Longrightarrow> evalCircuitStatement (Suc n) c t a e st = evalCircuitStatement n c t a e st"
    for c t a e st
    by (rule IH [THEN conjunct2, THEN conjunct2, THEN conjunct2, THEN conjunct2, THEN conjunct2, THEN conjunct1, rule_format])
  have L: "evalLoopStatement n i c u b e st \<noteq> Inl OutOfFuel \<Longrightarrow> evalLoopStatement (Suc n) i c u b e st = evalLoopStatement n i c u b e st"
    for i c u b e st
    by (rule IH [THEN conjunct2, THEN conjunct2, THEN conjunct2, THEN conjunct2, THEN conjunct2, THEN conjunct2, THEN conjunct1, rule_format])
  have LL: "evalLoopStatement_loop n c u b e st res \<noteq> Inl OutOfFuel \<Longrightarrow> evalLoopStatement_loop (Suc n) c u b e st res = evalLoopStatement_loop n c u b e st res"
    for c u b e st res
    by (rule IH [THEN conjunct2, THEN conjunct2, THEN conjunct2, THEN conjunct2, THEN conjunct2, THEN conjunct2, THEN conjunct2, THEN conjunct1, rule_format])
  have W: "evalWhileRacingStatement n c b e st \<noteq> Inl OutOfFuel \<Longrightarrow> evalWhileRacingStatement (Suc n) c b e st = evalWhileRacingStatement n c b e st"
    for c b e st
    by (rule IH [THEN conjunct2, THEN conjunct2, THEN conjunct2, THEN conjunct2, THEN conjunct2, THEN conjunct2, THEN conjunct2, THEN conjunct2, THEN conjunct1, rule_format])
  have WL: "evalWhileRacingStatement_loop n c b e st res \<noteq> Inl OutOfFuel \<Longrightarrow> evalWhileRacingStatement_loop (Suc n) c b e st res = evalWhileRacingStatement_loop n c b e st res"
    for c b e st res
    by (rule IH [THEN conjunct2, THEN conjunct2, THEN conjunct2, THEN conjunct2, THEN conjunct2, THEN conjunct2, THEN conjunct2, THEN conjunct2, THEN conjunct2, THEN conjunct1, rule_format])
  have X: "evalExpressions n xs e st \<noteq> Inl OutOfFuel \<Longrightarrow> evalExpressions (Suc n) xs e st = evalExpressions n xs e st"
    for xs e st
    by (rule IH [THEN conjunct2, THEN conjunct2, THEN conjunct2, THEN conjunct2, THEN conjunct2, THEN conjunct2, THEN conjunct2, THEN conjunct2, THEN conjunct2, THEN conjunct2, THEN conjunct1, rule_format])
  have XL: "evalExpressions_loop n xs e st res \<noteq> Inl OutOfFuel \<Longrightarrow> evalExpressions_loop (Suc n) xs e st res = evalExpressions_loop n xs e st res"
    for xs e st res
    by (rule IH [THEN conjunct2, THEN conjunct2, THEN conjunct2, THEN conjunct2, THEN conjunct2, THEN conjunct2, THEN conjunct2, THEN conjunct2, THEN conjunct2, THEN conjunct2, THEN conjunct2, THEN conjunct1, rule_format])
  have A: "applyFunction n fn args st \<noteq> Inl OutOfFuel \<Longrightarrow> applyFunction (Suc n) fn args st = applyFunction n fn args st"
    for fn args st
    by (rule IH [THEN conjunct2, THEN conjunct2, THEN conjunct2, THEN conjunct2, THEN conjunct2, THEN conjunct2, THEN conjunct2, THEN conjunct2, THEN conjunct2, THEN conjunct2, THEN conjunct2, THEN conjunct2, rule_format])
  have 1: "Eval (Suc (Suc n)) node e st = Eval (Suc n) node e st"
    if "Eval (Suc n) node e st \<noteq> Inl OutOfFuel" for node e st
  proof (cases node)
    case (Program stmts)
    then show ?thesis using that P by (simp add: Eval.simps)
  next
    case (Stmt s)
    show ?thesis
      using that Stmt
      by (cases s)
        (auto simp: Eval.simps E C L W B split: sum.splits prod.splits if_splits)
  next
    case (Expr x)
    show ?thesis
      using that Expr
      by (cases x)
        (auto simp: Eval.simps E X A split: sum.splits prod.splits if_splits)
  qed
  have 2: "evalProgram (Suc (Suc n)) stmts e st = evalProgram (Suc n) stmts e st"
    if "evalProgram (Suc n) stmts e st \<noteq> Inl OutOfFuel" for stmts e st
    using that
    by (auto simp: evalProgram.simps PL split: sum.splits prod.splits if_splits)
  have 3: "evalProgram_loop (Suc (Suc n)) stmts e st res = evalProgram_loop (Suc n) stmts e st res"
    if "evalProgram_loop (Suc n) stmts e st res \<noteq> Inl OutOfFuel" for stmts e st res
    using that
    by (cases stmts)
      (auto simp: evalProgram_loop.simps E PL split: sum.splits prod.splits if_splits Object.splits)
  have 4: "evalBlockStatement (Suc (Suc n)) stmts e st = evalBlockStatement (Suc n) stmts e st"
    if "evalBlockStatement (Suc n) stmts e st \<noteq> Inl OutOfFuel" for stmts e st
    using that
    by (auto simp: evalBlockStatement.simps BL split: sum.splits prod.splits if_splits)
  have 5: "evalBlockStatement_loop (Suc (Suc n)) stmts e st res = evalBlockStatement_loop (Suc n) stmts e st res"
    if "evalBlockStatement_loop (Suc n) stmts e st res \<noteq> Inl OutOfFuel" for stmts e st res
    using that
    by (cases stmts)
      (auto simp: evalBlockStatement_loop.simps E BL split: sum.splits prod.splits if_splits)
  have 6: "evalCircuitStatement (Suc (Suc n)) c t a e st = evalCircuitStatement (Suc n) c t a e st"
    if "evalCircuitStatement (Suc n) c t a e st \<noteq> Inl OutOfFuel" for c t a e st
    using that
    by (auto simp: evalCircuitStatement.simps E split: sum.splits prod.splits if_splits option.splits)
  have 7: "evalLoopStatement (Suc (Suc n)) i c u b e st = evalLoopStatement (Suc n) i c u b e st"
    if "evalLoopStatement (Suc n) i c u b e st \<noteq> Inl OutOfFuel" for i c u b e st
    using that
    by (auto simp: evalLoopStatement.simps E LL split: sum.splits prod.splits if_splits)
  have 8: "evalLoopStatement_loop (Suc (Suc n)) c u b e st res
      = evalLoopStatement_loop (Suc n) c u b e st res"
    if "evalLoopStatement_loop (Suc n) c u b e st res \<noteq> Inl OutOfFuel" for c u b e st res
  proof -
    note simps = evalLoopStatement_loop.simps
    define CV where "CV k = (if c \<noteq> NilExpression then Eval k (Expr c) e st
      else Inr (Boolean True, st))" for k
    have c0: "CV n \<noteq> Inl OutOfFuel"
      using that by (auto simp: simps CV_def)
    have c2: "CV (Suc n) = CV n"
      using c0 E by (auto simp: CV_def)
    show ?thesis
    proof (cases "CV n")
      case (Inl f)
      with c2 show ?thesis by (simp add: simps CV_def)
    next
      case (Inr cr)
      obtain cv st1 where cr: "cr = (cv, st1)" by (cases cr)
      note c1 = Inr [unfolded cr]
      show ?thesis
      proof (cases "c \<noteq> NilExpression \<and> (isError cv \<or> \<not> isTruthy cv)")
        case True
        with c1 c2 show ?thesis by (auto simp: simps CV_def)
      next
        case False
        have b0: "Eval n (Stmt (BlockStatement b)) e st1 \<noteq> Inl OutOfFuel"
          using that c1 False by (auto simp: simps CV_def)
        note b2 = E [OF b0]
        show ?thesis
        proof (cases "Eval n (Stmt (BlockStatement b)) e st1")
          case (Inl f)
          with c1 c2 b2 False show ?thesis by (auto simp: simps CV_def)
        next
          case (Inr br)
          obtain bv st2 where br: "br = (bv, st2)" by (cases br)
          note b1 = Inr [unfolded br]
          show ?thesis
          proof (cases "bv \<noteq> NilObject \<and> (Object_Type bv = RETURN_OBJ
              \<or> Object_Type bv = ERROR_OBJ \<or> Object_Type bv = BREAK_OBJ)")
            case True
            with False c1 c2 b1 b2 show ?thesis by (auto simp: simps CV_def)
          next
            case F2: False
            show ?thesis
            proof (cases "u = NilStatement")
              case True
              with that F2 False c1 b1
              have "evalLoopStatement_loop n c u b e st2 bv \<noteq> Inl OutOfFuel"
                by (auto simp: simps CV_def)
              from LL [OF this] True F2 False c1 c2 b1 b2 show ?thesis
                by (auto simp: simps CV_def)
            next
              case U: False
              have u0: "Eval n (Stmt u) e st2 \<noteq> Inl OutOfFuel"
                using that U F2 False c1 b1 by (auto simp: simps CV_def)
              note u2 = E [OF u0]
              show ?thesis
              proof (cases "Eval n (Stmt u) e st2")
                case (Inl f)
                with U F2 False c1 c2 b1 b2 u2 show ?thesis by (auto simp: simps CV_def)
              next
                case (Inr ur)
                obtain uv st3 where ur: "ur = (uv, st3)" by (cases ur)
                note u1 = Inr [unfolded ur]
                show ?thesis
                proof (cases "isError uv")
                  case True
                  with U F2 False c1 c2 b1 b2 u1 u2 show ?thesis
                    by (auto simp: simps CV_def)
                next
                  case U2: False
                  with that U F2 False c1 b1 u1
                  have "evalLoopStatement_loop n c u b e st3 bv \<noteq> Inl OutOfFuel"
                    by (auto simp: simps CV_def)
                  from LL [OF this] U U2 F2 False c1 c2 b1 b2 u1 u2 show ?thesis
                    by (auto simp: simps CV_def)
                qed
              qed
            qed
          qed
        qed
      qed
    qed
  qed
  have 9: "evalWhileRacingStatement (Suc (Suc n)) c b e st = evalWhileRacingStatement (Suc n) c b e st"
    if "evalWhileRacingStatement (Suc n) c b e st \<noteq> Inl OutOfFuel" for c b e st
    using that
    by (auto simp: evalWhileRacingStatement.simps WL split: sum.splits prod.splits if_splits)
  have 10: "evalWhileRacingStatement_loop (Suc (Suc n)) c b e st res
      = evalWhileRacingStatement_loop (Suc n) c b e st res"
    if "evalWhileRacingStatement_loop (Suc n) c b e st res \<noteq> Inl OutOfFuel"
    for c b e st res
  proof -
    note simps = evalWhileRacingStatement_loop.simps
    have c0: "Eval n (Expr c) e st \<noteq> Inl OutOfFuel"
      using that by (auto simp: simps)
    note c2 = E [OF c0]
    show ?thesis
    proof (cases "Eval n (Expr c) e st")
      case (Inl f)
      with c2 show ?thesis by (simp add: simps)
    next
      case (Inr cr)
      obtain cv st1 where cr: "cr = (cv, st1)" by (cases cr)
      note c1 = Inr [unfolded cr]
      show ?thesis
      proof (cases "isError cv \<or> \<not> isTruthy cv")
        case True
        with c1 c2 show ?thesis by (auto simp: simps)
      next
        case False
        have b0: "Eval n (Stmt (BlockStatement b)) e st1 \<noteq> Inl OutOfFuel"
          using that c1 False by (auto simp: simps)
        note b2 = E [OF b0]
        show ?thesis
        proof (cases "Eval n (Stmt (BlockStatement b)) e st1")
          case (Inl f)
          with c1 c2 b2 False show ?thesis by (auto simp: simps)
        next
          case (Inr br)
          obtain bv st2 where br: "br = (bv, st2)" by (cases br)
          note b1 = Inr [unfolded br]
          show ?thesis
          proof (cases "bv \<noteq> NilObject \<and> (Object_Type bv = RETURN_OBJ
              \<or> Object_Type bv = ERROR_OBJ \<or> Object_Type bv = BREAK_OBJ)")
            case True
            with False c1 c2 b1 b2 show ?thesis by (auto simp: simps)
          next
            case F2: False
            with that False c1 b1
            have "evalWhileRacingStatement_loop n c b e st2 bv \<noteq> Inl OutOfFuel"
              by (auto simp: simps)
            from WL [OF this] F2 False c1 c2 b1 b2 show ?thesis by (auto simp: simps)
          qed
        qed
      qed
    qed
  qed
  have 11: "evalExpressions (Suc (Suc n)) xs e st = evalExpressions (Suc n) xs e st"
    if "evalExpressions (Suc n) xs e st \<noteq> Inl OutOfFuel" for xs e st
    using that
    by (auto simp: evalExpressions.simps XL split: sum.splits prod.splits if_splits)
  have 12: "evalExpressions_loop (Suc (Suc n)) xs e st res = evalExpressions_loop (Suc n) xs e st res"
    if "evalExpressions_loop (Suc n) xs e st res \<noteq> Inl OutOfFuel" for xs e st res
    using that
    by (cases xs)
      (auto simp: evalExpressions_loop.simps E XL split: sum.splits prod.splits if_splits)
  have 13: "applyFunction (Suc (Suc n)) fn args st = applyFunction (Suc n) fn args st"
    if "applyFunction (Suc n) fn args st \<noteq> Inl OutOfFuel" for fn args st
    using that
    by (cases fn)
      (auto simp: applyFunction.simps E split: sum.splits prod.splits if_splits)
  show ?case
    apply (intro conjI allI impI)
    apply (erule 1)
    apply (erule 2)
    apply (erule 3)
    apply (erule 4)
    apply (erule 5)
    apply (erule 6)
    apply (erule 7)
    apply (erule 8)
    apply (erule 9)
    apply (erule 10)
    apply (erule 11)
    apply (erule 12)
    apply (erule 13)
    done
qed

lemma Eval_fuel_mono:
  "Eval n node e st \<noteq> Inl OutOfFuel \<Longrightarrow> n \<le> m \<Longrightarrow> Eval m node e st = Eval n node e st"
proof (induction m)
  case 0
  then show ?case by simp
next
  case (Suc m)
  show ?case
  proof (cases "n = Suc m")
    case True
    then show ?thesis by simp
  next
    case False
    with Suc have eq: "Eval m node e st = Eval n node e st" by simp
    with Suc.prems have "Eval m node e st \<noteq> Inl OutOfFuel" by simp
    then have "Eval (Suc m) node e st = Eval m node e st"
      by (rule Eval_fuel_step [THEN conjunct1, rule_format])
    with eq show ?thesis by simp
  qed
qed

subsection \<open>Index expressions\<close>

lemma int_of_float64_truncates:
  "\<lfloor>m\<rfloor> \<le> MaxInt64 \<Longrightarrow> 0 \<le> m \<Longrightarrow>
   int_of_float64 (Fin s m) = (if s then - \<lfloor>m\<rfloor> else \<lfloor>m\<rfloor>)"
proof -
  assume le: "\<lfloor>m\<rfloor> \<le> MaxInt64" and nonneg: "0 \<le> m"
  define f where "f = \<lfloor>m\<rfloor>"
  have f: "0 \<le> f" "f \<le> 2 ^ 63 - 1"
    using le nonneg by (simp_all add: f_def MaxInt64_def)
  have "int_of_float64 (Fin s m) =
    (let t = (if s then - f else f) in
     if - (2 ^ 63) \<le> t \<and> t \<le> 2 ^ 63 - 1 then t else - (2 ^ 63))"
    by (simp only: int_of_float64_def f_def MinInt64_def MaxInt64_def float64.case)
  also have "\<dots> = (if s then - f else f)"
    using f by (auto simp: Let_def)
  finally show ?thesis by (simp only: f_def)
qed

lemma int_of_float64_range:
  "MinInt64 \<le> int_of_float64 x \<and> int_of_float64 x \<le> MaxInt64"
  by (cases x) (auto simp: int_of_float64_def Let_def MinInt64_def MaxInt64_def)

text \<open>
  Claim C8. An index expression whose target is an array and whose index is a number
  truncates the index to an integer (\<open>int_of_float64\<close>: the fraction is dropped, towards
  zero); a truncated index that is negative or beyond the last position gives \<open>Null\<close> and
  no error, any other one gives the element at that position. A target that is not an
  array, or an index that is not a number, gives the error
  \<open>index operator not supported\<close>. \<open>Eval\<close> of an \<open>IndexExpression\<close> evaluates target and
  index and applies this.
\<close>

theorem index_expression_result:
  "(a < length (arrays st) \<longrightarrow>
      evalIndexExpression st (Array a) (Number v) =
        Inr (if int_of_float64 v < 0 \<or> int (length (arrays st ! a)) - 1 < int_of_float64 v
             then Null else arrays st ! a ! nat (int_of_float64 v)))
   \<and> (0 \<le> m \<and> \<lfloor>m\<rfloor> \<le> MaxInt64 \<longrightarrow>
        int_of_float64 (Fin s m) = (if s then - \<lfloor>m\<rfloor> else \<lfloor>m\<rfloor>))
   \<and> (left \<noteq> NilObject
        \<and> (Object_Type left \<noteq> ARRAY_OBJ
           \<or> (index \<noteq> NilObject \<and> Object_Type index \<noteq> NUMBER_OBJ)) \<longrightarrow>
        evalIndexExpression st left index =
          Inr (Error (''index operator not supported: '' @ GoTypeName left)))
   \<and> (Eval n (Expr left_expr) e st = Inr (lv, st1) \<and> \<not> isError lv
        \<and> Eval n (Expr index_expr) e st1 = Inr (iv, st2) \<and> \<not> isError iv \<longrightarrow>
        Eval (Suc n) (Expr (IndexExpression left_expr index_expr)) e st =
          (case evalIndexExpression st2 lv iv of Inl f \<Rightarrow> Inl f | Inr r \<Rightarrow> Inr (r, st2)))"
proof (intro conjI impI)
  assume "a < length (arrays st)"
  then show "evalIndexExpression st (Array a) (Number v) =
        Inr (if int_of_float64 v < 0 \<or> int (length (arrays st ! a)) - 1 < int_of_float64 v
             then Null else arrays st ! a ! nat (int_of_float64 v))"
    by (simp add: evalIndexExpression_def evalArrayIndexExpression_def Object_Type_def
        ARRAY_OBJ_def NUMBER_OBJ_def Let_def)
next
  assume "0 \<le> m \<and> \<lfloor>m\<rfloor> \<le> MaxInt64"
  then show "int_of_float64 (Fin s m) = (if s then - \<lfloor>m\<rfloor> else \<lfloor>m\<rfloor>)"
    using int_of_float64_truncates [of m s] by simp
next
  assume "left \<noteq> NilObject
        \<and> (Object_Type left \<noteq> ARRAY_OBJ
           \<or> (index \<noteq> NilObject \<and> Object_Type index \<noteq> NUMBER_OBJ))"
  then show "evalIndexExpression st left index =
          Inr (Error (''index operator not supported: '' @ GoTypeName left))"
    by (auto simp: evalIndexExpression_def)
next
  assume "Eval n (Expr left_expr) e st = Inr (lv, st1) \<and> \<not> isError lv
        \<and> Eval n (Expr index_expr) e st1 = Inr (iv, st2) \<and> \<not> isError iv"
  then show "Eval (Suc n) (Expr (IndexExpression left_expr index_expr)) e st =
          (case evalIndexExpression st2 lv iv of Inl f \<Rightarrow> Inl f | Inr r \<Rightarrow> Inr (r, st2))"
    by (simp add: Eval.simps)
qed

theorem index_expression_witness:
  "evalIndexExpression three_laps (Array 0) (Number (Fin False (3 / 2)))
     = Inr (Number (Fin False 20))
   \<and> evalIndexExpression three_laps (Array 0) (Number (Fin False 99)) = Inr Null
   \<and> evalIndexExpression three_laps (Array 0) (Number (Fin True 1)) = Inr Null
   \<and> int_of_float64 (Fin True (5 / 2)) = - 2
   \<and> evalIndexExpression three_laps (String ''abc'') (Number (Fin False 0))
       = Inr (Error ''index operator not supported: *main.String'')
   \<and> evalIndexExpression three_laps (Array 0) (String ''abc'')
       = Inr (Error ''index operator not supported: *main.Array'')
   \<and> Eval 2 (Expr (IndexExpression (StringLiteral ''abc'') (NumberLiteral (Fin False 0))))
         0 three_laps
       = Inr (Error ''index operator not supported: *main.String'', three_laps)"
proof -
  have len: "(0::nat) < length (arrays three_laps)" by (simp add: three_laps_def)
  have f1: "\<lfloor>(3::rat) / 2\<rfloor> = 1" and f2: "\<lfloor>(5::rat) / 2\<rfloor> = 2" by code_simp+
  have i1: "int_of_float64 (Fin False (3 / 2)) = 1"
    using index_expression_result [THEN conjunct2, THEN conjunct1, rule_format, of "3 / 2" False]
    by (simp add: f1 MaxInt64_def)
  have i2: "int_of_float64 (Fin True (5 / 2)) = - 2"
    using index_expression_result [THEN conjunct2, THEN conjunct1, rule_format, of "5 / 2" True]
    by (simp add: f2 MaxInt64_def)
  have i3: "int_of_float64 (Fin False 99) = 99" "int_of_float64 (Fin True 1) = - 1"
    using index_expression_result [THEN conjunct2, THEN conjunct1, rule_format, of 99 False]
      index_expression_result [THEN conjunct2, THEN conjunct1, rule_format, of 1 True]
    by (simp_all add: MaxInt64_def)
  note ix = index_expression_result [THEN conjunct1, rule_format, OF len]
  note other = index_expression_result [THEN conjunct2, THEN conjunct2, THEN conjunct1,
      rule_format, of _ _ three_laps]
  note ev = index_expression_result [THEN conjunct2, THEN conjunct2, THEN conjunct2,
      rule_format, of 1 "StringLiteral ''abc''" 0 three_laps "String ''abc''" three_laps
      "NumberLiteral (Fin False 0)" "Number (Fin False 0)" three_laps]
  have e1: "Eval 1 (Expr (StringLiteral ''abc'')) 0 three_laps = Inr (String ''abc'', three_laps)"
    and e2: "Eval 1 (Expr (NumberLiteral (Fin False 0))) 0 three_laps
      = Inr (Number (Fin False 0), three_laps)"
    by (simp_all add: Eval.simps One_nat_def)
  have o1: "evalIndexExpression three_laps (String ''abc'') (Number (Fin False 0))
       = Inr (Error ''index operator not supported: *main.String'')"
    using other [of "String ''abc''" "Number (Fin False 0)"]
    by (simp add: Object_Type_def ARRAY_OBJ_def STRING_OBJ_def GoTypeName_def)
  have o2: "evalIndexExpression three_laps (Array 0) (String ''abc'')
       = Inr (Error ''index operator not supported: *main.Array'')"
    using other [of "Array 0" "String ''abc''"]
    by (simp add: Object_Type_def NUMBER_OBJ_def STRING_OBJ_def GoTypeName_def)
  have e3: "Eval 2 (Expr (IndexExpression (StringLiteral ''abc'') (NumberLiteral (Fin False 0))))
         0 three_laps
       = Inr (Error ''index operator not supported: *main.String'', three_laps)"
    using ev e1 e2 o1 by (simp add: isError_def Object_Type_def ERROR_OBJ_def STRING_OBJ_def
        NUMBER_OBJ_def numeral_2_eq_2)
  show ?thesis
    using ix [of "Fin False (3 / 2)"] ix [of "Fin False 99"] ix [of "Fin True 1"] i1 i2 i3 o1 o2 e3
    by (simp add: three_laps_def)
qed


subsection \<open>The types of objects\<close>

lemma Object_Type_NUMBER: "Object_Type x = NUMBER_OBJ \<longleftrightarrow> (\<exists>v. x = Number v)"
  by (cases x) (simp_all add: Object_Type_def NUMBER_OBJ_def STRING_OBJ_def BOOLEAN_OBJ_def
      NULL_OBJ_def RETURN_OBJ_def ERROR_OBJ_def FUNCTION_OBJ_def BUILTIN_OBJ_def ARRAY_OBJ_def
      BREAK_OBJ_def CONTINUE_OBJ_def)

lemma Object_Type_STRING: "Object_Type x = STRING_OBJ \<longleftrightarrow> (\<exists>v. x = String v)"
  by (cases x) (simp_all add: Object_Type_def NUMBER_OBJ_def STRING_OBJ_def BOOLEAN_OBJ_def
      NULL_OBJ_def RETURN_OBJ_def ERROR_OBJ_def FUNCTION_OBJ_def BUILTIN_OBJ_def ARRAY_OBJ_def
      BREAK_OBJ_def CONTINUE_OBJ_def)

lemma isError_iff: "isError x \<longleftrightarrow> (\<exists>m. x = Error m)"
  by (cases x) (simp_all add: isError_def Object_Type_def NUMBER_OBJ_def STRING_OBJ_def
      BOOLEAN_OBJ_def NULL_OBJ_def RETURN_OBJ_def ERROR_OBJ_def FUNCTION_OBJ_def
      BUILTIN_OBJ_def ARRAY_OBJ_def BREAK_OBJ_def CONTINUE_OBJ_def)

subsection \<open>The logical operators\<close>

lemma evalInfixExpression_and:
  "evalInfixExpression ''&&'' left right =
     (if left = NilObject then Inl (Panic nil_dereference)
      else if Object_Type left = NUMBER_OBJ \<or> Object_Type left = STRING_OBJ then
        (if right = NilObject then Inl (Panic nil_dereference)
         else if Object_Type left = NUMBER_OBJ \<and> Object_Type right = NUMBER_OBJ
         then Inr (Error ''unknown operator: &&'')
         else if Object_Type left = STRING_OBJ \<and> Object_Type right = STRING_OBJ
         then Inr (Error ''unknown operator: *main.String && *main.String'')
         else Inr (Boolean (isTruthy left \<and> isTruthy right)))
      else Inr (Boolean (isTruthy left \<and> isTruthy right)))"
proof -
  have ns: "NUMBER_OBJ \<noteq> STRING_OBJ"
    by (simp add: NUMBER_OBJ_def STRING_OBJ_def)
  consider (nil) "left = NilObject" | (num) x where "left = Number x"
    | (str) x where "left = String x"
    | (other) "left \<noteq> NilObject" "Object_Type left \<noteq> NUMBER_OBJ"
        "Object_Type left \<noteq> STRING_OBJ"
    by (auto simp: Object_Type_NUMBER Object_Type_STRING)
  then show ?thesis
  proof cases
    case nil
    then show ?thesis by (simp add: evalInfixExpression_def)
  next
    case num
    have l: "left \<noteq> NilObject" "Object_Type left = NUMBER_OBJ" "Object_Type left \<noteq> STRING_OBJ"
      using num ns by (simp_all add: Object_Type_NUMBER Object_Type_STRING)
    show ?thesis
    proof (cases "Object_Type right = NUMBER_OBJ")
      case True
      then obtain y where "right = Number y" by (auto simp: Object_Type_NUMBER)
      then show ?thesis
        using num l True
        by (simp add: evalInfixExpression_def evalNumberInfixExpression_def)
    next
      case False
      then show ?thesis
        using l by (simp add: evalInfixExpression_def nativeBoolToBooleanObject_def)
    qed
  next
    case str
    have l: "left \<noteq> NilObject" "Object_Type left \<noteq> NUMBER_OBJ" "Object_Type left = STRING_OBJ"
      using str ns by (simp_all add: Object_Type_NUMBER Object_Type_STRING)
    show ?thesis
    proof (cases "Object_Type right = STRING_OBJ")
      case True
      then obtain y where "right = String y" by (auto simp: Object_Type_STRING)
      then show ?thesis
        using str l True
        by (simp add: evalInfixExpression_def evalStringInfixExpression_def GoTypeName_def)
    next
      case False
      then show ?thesis
        using l by (simp add: evalInfixExpression_def nativeBoolToBooleanObject_def)
    qed
  next
    case other
    then show ?thesis
      by (simp add: evalInfixExpression_def nativeBoolToBooleanObject_def)
  qed
qed

lemma evalInfixExpression_or:
  "evalInfixExpression ''||'' left right =
     (if left = NilObject then Inl (Panic nil_dereference)
      else if Object_Type left = NUMBER_OBJ \<or> Object_Type left = STRING_OBJ then
        (if right = NilObject then Inl (Panic nil_dereference)
         else if Object_Type left = NUMBER_OBJ \<and> Object_Type right = NUMBER_OBJ
         then Inr (Error ''unknown operator: ||'')
         else if Object_Type left = STRING_OBJ \<and> Object_Type right = STRING_OBJ
         then Inr (Error ''unknown operator: *main.String || *main.String'')
         else Inr (Boolean (isTruthy left \<or> isTruthy right)))
      else Inr (Boolean (isTruthy left \<or> isTruthy right)))"
proof -
  have ns: "NUMBER_OBJ \<noteq> STRING_OBJ"
    by (simp add: NUMBER_OBJ_def STRING_OBJ_def)
  consider (nil) "left = NilObject" | (num) x where "left = Number x"
    | (str) x where "left = String x"
    | (other) "left \<noteq> NilObject" "Object_Type left \<noteq> NUMBER_OBJ"
        "Object_Type left \<noteq> STRING_OBJ"
    by (auto simp: Object_Type_NUMBER Object_Type_STRING)
  then show ?thesis
  proof cases
    case nil
    then show ?thesis by (simp add: evalInfixExpression_def)
  next
    case num
    have l: "left \<noteq> NilObject" "Object_Type left = NUMBER_OBJ" "Object_Type left \<noteq> STRING_OBJ"
      using num ns by (simp_all add: Object_Type_NUMBER Object_Type_STRING)
    show ?thesis
    proof (cases "Object_Type right = NUMBER_OBJ")
      case True
      then obtain y where "right = Number y" by (auto simp: Object_Type_NUMBER)
      then show ?thesis
        using num l True
        by (simp add: evalInfixExpression_def evalNumberInfixExpression_def)
    next
      case False
      then show ?thesis
        using l by (simp add: evalInfixExpression_def nativeBoolToBooleanObject_def)
    qed
  next
    case str
    have l: "left \<noteq> NilObject" "Object_Type left \<noteq> NUMBER_OBJ" "Object_Type left = STRING_OBJ"
      using str ns by (simp_all add: Object_Type_NUMBER Object_Type_STRING)
    show ?thesis
    proof (cases "Object_Type right = STRING_OBJ")
      case True
      then obtain y where "right = String y" by (auto simp: Object_Type_STRING)
      then show ?thesis
        using str l True
        by (simp add: evalInfixExpression_def evalStringInfixExpression_def GoTypeName_def)
    next
      case False
      then show ?thesis
        using l by (simp add: evalInfixExpression_def nativeBoolToBooleanObject_def)
    qed
  next
    case other
    then show ?thesis
      by (simp add: evalInfixExpression_def nativeBoolToBooleanObject_def)
  qed
qed

text \<open>
  Claim C5. \<open>&&\<close> and \<open>||\<close> do not short-circuit. Once the left operand has evaluated
  to an object that is not an error, whatever its truthiness, the right operand is
  evaluated in the store the left one left, and an error of the right operand is the
  result of the expression. The two truthiness values are combined, to a boolean, unless
  the operands are two numbers or two strings: these go to the arithmetic and to the
  string operators, which know neither \<open>&&\<close> nor \<open>||\<close>, and the result is the error
  \<open>unknown operator\<close>. A nil left operand, and a nil right operand beside a number or a
  string, is a nil dereference.
\<close>

theorem logical_operators_evaluate_both_operands:
  assumes "operator = ''&&'' \<or> operator = ''||''"
    and "Eval n (Expr left_expr) e st = Inr (left, st1)"
    and "\<not> isError left"
  shows "Eval (Suc n) (Expr (InfixExpression left_expr operator right_expr)) e st =
           (case Eval n (Expr right_expr) e st1 of
              Inl f \<Rightarrow> Inl f
            | Inr (right, st2) \<Rightarrow>
                if isError right then Inr (right, st2)
                else (case evalInfixExpression operator left right of
                        Inl f \<Rightarrow> Inl f
                      | Inr r \<Rightarrow> Inr (r, st2)))
       \<and> (Eval n (Expr right_expr) e st1 = Inr (Error message, st2) \<longrightarrow>
            Eval (Suc n) (Expr (InfixExpression left_expr operator right_expr)) e st =
              Inr (Error message, st2))
       \<and> (Eval n (Expr right_expr) e st1 = Inr (right, st2) \<and> \<not> isError right \<longrightarrow>
            Eval (Suc n) (Expr (InfixExpression left_expr operator right_expr)) e st =
              (if left = NilObject then Inl (Panic nil_dereference)
               else if Object_Type left = NUMBER_OBJ \<or> Object_Type left = STRING_OBJ then
                 (if right = NilObject then Inl (Panic nil_dereference)
                  else if Object_Type left = NUMBER_OBJ \<and> Object_Type right = NUMBER_OBJ
                  then Inr (Error (''unknown operator: '' @ operator), st2)
                  else if Object_Type left = STRING_OBJ \<and> Object_Type right = STRING_OBJ
                  then Inr (Error (''unknown operator: *main.String '' @ operator
                              @ '' *main.String''), st2)
                  else Inr (Boolean (if operator = ''&&'' then isTruthy left \<and> isTruthy right
                                     else isTruthy left \<or> isTruthy right), st2))
               else Inr (Boolean (if operator = ''&&'' then isTruthy left \<and> isTruthy right
                                  else isTruthy left \<or> isTruthy right), st2)))"
proof (intro conjI impI)
  show "Eval (Suc n) (Expr (InfixExpression left_expr operator right_expr)) e st =
           (case Eval n (Expr right_expr) e st1 of
              Inl f \<Rightarrow> Inl f
            | Inr (right, st2) \<Rightarrow>
                if isError right then Inr (right, st2)
                else (case evalInfixExpression operator left right of
                        Inl f \<Rightarrow> Inl f
                      | Inr r \<Rightarrow> Inr (r, st2)))"
    using assms(2,3) by (simp add: Eval.simps)
next
  assume "Eval n (Expr right_expr) e st1 = Inr (Error message, st2)"
  then show "Eval (Suc n) (Expr (InfixExpression left_expr operator right_expr)) e st =
           Inr (Error message, st2)"
    using assms(2,3) by (simp add: Eval.simps isError_def Object_Type_def)
next
  assume r: "Eval n (Expr right_expr) e st1 = Inr (right, st2) \<and> \<not> isError right"
  have ev: "Eval (Suc n) (Expr (InfixExpression left_expr operator right_expr)) e st =
      (case evalInfixExpression operator left right of
         Inl f \<Rightarrow> Inl f | Inr r \<Rightarrow> Inr (r, st2))"
    using assms(2,3) r by (simp add: Eval.simps)
  show "Eval (Suc n) (Expr (InfixExpression left_expr operator right_expr)) e st =
              (if left = NilObject then Inl (Panic nil_dereference)
               else if Object_Type left = NUMBER_OBJ \<or> Object_Type left = STRING_OBJ then
                 (if right = NilObject then Inl (Panic nil_dereference)
                  else if Object_Type left = NUMBER_OBJ \<and> Object_Type right = NUMBER_OBJ
                  then Inr (Error (''unknown operator: '' @ operator), st2)
                  else if Object_Type left = STRING_OBJ \<and> Object_Type right = STRING_OBJ
                  then Inr (Error (''unknown operator: *main.String '' @ operator
                              @ '' *main.String''), st2)
                  else Inr (Boolean (if operator = ''&&'' then isTruthy left \<and> isTruthy right
                                     else isTruthy left \<or> isTruthy right), st2))
               else Inr (Boolean (if operator = ''&&'' then isTruthy left \<and> isTruthy right
                                  else isTruthy left \<or> isTruthy right), st2))"
    using assms(1)
  proof
    assume "operator = ''&&''"
    then show ?thesis
      unfolding ev by (simp add: evalInfixExpression_and)
  next
    assume "operator = ''||''"
    then show ?thesis
      unfolding ev by (simp add: evalInfixExpression_or)
  qed
qed

text \<open>
  The programs \<open>false && nope\<close> and \<open>true || nope\<close>, where \<open>nope\<close> is not bound, and the
  combinations \<open>true && 1\<close>, \<open>1 && true\<close>, \<open>false || 0\<close>, \<open>"" || false\<close> and
  \<open>true && false\<close>.
\<close>

theorem logical_operators_witness:
  "Eval 2 (Expr (InfixExpression (BooleanLiteral False) ''&&'' (Identifier ''nope'')))
      (env NewInterpreter) (heap NewInterpreter)
     = Inr (Error ''identifier not found: nope'', heap NewInterpreter)
   \<and> Eval 2 (Expr (InfixExpression (BooleanLiteral True) ''||'' (Identifier ''nope'')))
      (env NewInterpreter) (heap NewInterpreter)
     = Inr (Error ''identifier not found: nope'', heap NewInterpreter)
   \<and> Eval 2 (Expr (InfixExpression (BooleanLiteral True) ''&&'' (NumberLiteral (Fin False 1))))
      (env NewInterpreter) (heap NewInterpreter)
     = Inr (Boolean True, heap NewInterpreter)
   \<and> Eval 2 (Expr (InfixExpression (NumberLiteral (Fin False 1)) ''&&'' (BooleanLiteral True)))
      (env NewInterpreter) (heap NewInterpreter)
     = Inr (Boolean True, heap NewInterpreter)
   \<and> Eval 2 (Expr (InfixExpression (BooleanLiteral False) ''||'' (NumberLiteral (Fin False 0))))
      (env NewInterpreter) (heap NewInterpreter)
     = Inr (Boolean True, heap NewInterpreter)
   \<and> Eval 2 (Expr (InfixExpression (StringLiteral []) ''||'' (BooleanLiteral False)))
      (env NewInterpreter) (heap NewInterpreter)
     = Inr (Boolean True, heap NewInterpreter)
   \<and> Eval 2 (Expr (InfixExpression (BooleanLiteral True) ''&&'' (BooleanLiteral False)))
      (env NewInterpreter) (heap NewInterpreter)
     = Inr (Boolean False, heap NewInterpreter)"
proof -
  let ?e = "env NewInterpreter" and ?st = "heap NewInterpreter"
  have lb: "Eval 1 (Expr (BooleanLiteral b)) ?e ?st = Inr (Boolean b, ?st)" for b
    by (simp add: Eval.simps One_nat_def nativeBoolToBooleanObject_def)
  have ln: "Eval 1 (Expr (NumberLiteral v)) ?e ?st = Inr (Number v, ?st)" for v
    by (simp add: Eval.simps One_nat_def)
  have ls: "Eval 1 (Expr (StringLiteral s)) ?e ?st = Inr (String s, ?st)" for s
    by (simp add: Eval.simps One_nat_def)
  have ne: "\<not> isError (Boolean b)" "\<not> isError (Number v)" "\<not> isError (String s)" for b v s
    by (simp_all add: isError_iff)
  have g: "Get (envs ?st) ?e ''nope'' = Some None"
    by code_simp
  have r: "Eval 1 (Expr (Identifier ''nope'')) ?e ?st
      = Inr (Error ''identifier not found: nope'', ?st)"
    by (simp add: Eval.simps One_nat_def evalIdentifier_def g)
  have ty: "Object_Type (Boolean b) \<noteq> NUMBER_OBJ" "Object_Type (Boolean b) \<noteq> STRING_OBJ"
    "Object_Type (Number v) \<noteq> STRING_OBJ" "Object_Type (String s) \<noteq> NUMBER_OBJ" for b v s
    by (simp_all add: Object_Type_NUMBER Object_Type_STRING)
  have a: "Eval 2 (Expr (InfixExpression (BooleanLiteral False) ''&&'' (Identifier ''nope'')))
      ?e ?st = Inr (Error ''identifier not found: nope'', ?st)"
    using logical_operators_evaluate_both_operands [OF _ lb ne(1), where operator = "''&&''",
        THEN conjunct2, THEN conjunct1, rule_format, OF _ r]
    by (simp add: numeral_2_eq_2 One_nat_def)
  have b: "Eval 2 (Expr (InfixExpression (BooleanLiteral True) ''||'' (Identifier ''nope'')))
      ?e ?st = Inr (Error ''identifier not found: nope'', ?st)"
    using logical_operators_evaluate_both_operands [OF _ lb ne(1), where operator = "''||''",
        THEN conjunct2, THEN conjunct1, rule_format, OF _ r]
    by (simp add: numeral_2_eq_2 One_nat_def)
  have c: "Eval 2 (Expr (InfixExpression (BooleanLiteral True) ''&&''
      (NumberLiteral (Fin False 1)))) ?e ?st = Inr (Boolean True, ?st)"
    using logical_operators_evaluate_both_operands [OF _ lb ne(1), where operator = "''&&''",
        THEN conjunct2, THEN conjunct2, rule_format, OF _ conjI [OF ln ne(2)]]
    by (simp add: numeral_2_eq_2 One_nat_def ty isTruthy_def)
  have d: "Eval 2 (Expr (InfixExpression (NumberLiteral (Fin False 1)) ''&&''
      (BooleanLiteral True))) ?e ?st = Inr (Boolean True, ?st)"
    using logical_operators_evaluate_both_operands [OF _ ln ne(2), where operator = "''&&''",
        THEN conjunct2, THEN conjunct2, rule_format, OF _ conjI [OF lb ne(1)]]
    by (simp add: numeral_2_eq_2 One_nat_def ty isTruthy_def)
  have e: "Eval 2 (Expr (InfixExpression (BooleanLiteral False) ''||''
      (NumberLiteral (Fin False 0)))) ?e ?st = Inr (Boolean True, ?st)"
    using logical_operators_evaluate_both_operands [OF _ lb ne(1), where operator = "''||''",
        THEN conjunct2, THEN conjunct2, rule_format, OF _ conjI [OF ln ne(2)]]
    by (simp add: numeral_2_eq_2 One_nat_def ty isTruthy_def)
  have f: "Eval 2 (Expr (InfixExpression (StringLiteral []) ''||''
      (BooleanLiteral False))) ?e ?st = Inr (Boolean True, ?st)"
    using logical_operators_evaluate_both_operands [OF _ ls ne(3), where operator = "''||''",
        THEN conjunct2, THEN conjunct2, rule_format, OF _ conjI [OF lb ne(1)]]
    by (simp add: numeral_2_eq_2 One_nat_def ty isTruthy_def)
  have h: "Eval 2 (Expr (InfixExpression (BooleanLiteral True) ''&&''
      (BooleanLiteral False))) ?e ?st = Inr (Boolean False, ?st)"
    using logical_operators_evaluate_both_operands [OF _ lb ne(1), where operator = "''&&''",
        THEN conjunct2, THEN conjunct2, rule_format, OF _ conjI [OF lb ne(1)]]
    by (simp add: numeral_2_eq_2 One_nat_def ty isTruthy_def)
  from a b c d e f h show ?thesis by simp
qed

text \<open>
  Two numbers, two strings: \<open>1 && 0\<close> and \<open>"a" || "b"\<close> evaluate to an error, where the
  truthiness values would combine to \<open>true\<close>.
\<close>

theorem logical_operators_counterexample:
  "Eval 2 (Expr (InfixExpression (NumberLiteral (Fin False 1)) ''&&''
        (NumberLiteral (Fin False 0)))) (env NewInterpreter) (heap NewInterpreter)
     = Inr (Error ''unknown operator: &&'', heap NewInterpreter)
   \<and> Eval 2 (Expr (InfixExpression (StringLiteral ''a'') ''||'' (StringLiteral ''b'')))
        (env NewInterpreter) (heap NewInterpreter)
     = Inr (Error ''unknown operator: *main.String || *main.String'', heap NewInterpreter)
   \<and> isTruthy (Number (Fin False 1)) \<and> isTruthy (Number (Fin False 0))
   \<and> isTruthy (String ''a'') \<and> isTruthy (String ''b'')
   \<and> map_sum id (map_sum id fst) (Execute_result 20 ''1 && 0'' NewInterpreter)
     = Inr (Inr (Error ''unknown operator: &&''))"
proof -
  have x: "map_sum id (map_sum id fst) (Execute_result 20 ''1 && 0'' NewInterpreter)
     = Inr (Inr (Error ''unknown operator: &&''))"
    by code_simp
  show ?thesis
    unfolding x
    by (simp add: numeral_2_eq_2 Eval.simps isError_iff evalInfixExpression_def
        Object_Type_NUMBER Object_Type_STRING evalNumberInfixExpression_def
        evalStringInfixExpression_def GoTypeName_def isTruthy_def)
qed

subsection \<open>The remainder\<close>

lemma smod_int_less_divisor:
  fixes a b :: int
  assumes "b \<noteq> 0"
  shows "\<bar>a smod b\<bar> < \<bar>b\<bar>"
proof -
  have m: "0 \<le> \<bar>a\<bar> mod \<bar>b\<bar>" "\<bar>a\<bar> mod \<bar>b\<bar> < \<bar>b\<bar>"
    using assms by simp_all
  have "\<bar>a smod b\<bar> = \<bar>sgn a\<bar> * (\<bar>a\<bar> mod \<bar>b\<bar>)"
    using m(1) by (simp only: signed_modulo_int_def abs_mult abs_of_nonneg)
  also have "\<dots> \<le> \<bar>a\<bar> mod \<bar>b\<bar>"
    using m(1) by (cases "a = 0") (simp_all add: abs_sgn_eq)
  finally show ?thesis using m(2) by simp
qed

lemma smod_int_sign:
  fixes a b :: int
  shows "(0 \<le> a \<longrightarrow> 0 \<le> a smod b) \<and> (a \<le> 0 \<longrightarrow> a smod b \<le> 0)"
proof -
  have m: "0 \<le> \<bar>a\<bar> mod \<bar>b\<bar>"
    by (cases "b = 0") simp_all
  show ?thesis
  proof (intro conjI impI)
    assume "0 \<le> a"
    then have "0 \<le> sgn a" by (simp add: sgn_if)
    then show "0 \<le> a smod b"
      using m unfolding signed_modulo_int_def by (rule mult_nonneg_nonneg)
  next
    assume "a \<le> 0"
    then have "sgn a \<le> 0" by (simp add: sgn_if)
    then show "a smod b \<le> 0"
      using m unfolding signed_modulo_int_def by (rule mult_nonpos_nonneg)
  qed
qed

text \<open>
  Claim C3. On two numbers the operator \<open>%\<close> converts both operands to \<open>int\<close>, takes
  the remainder of the truncated division of the two integers and converts it to a
  \<open>float64\<close>: the remainder is smaller in magnitude than the divisor and has the sign of
  the dividend. Where the divisor converts to the integer zero there is no remainder: the
  call does not return an object, it panics with \<open>integer divide by zero\<close>.
\<close>

theorem modulo_of_two_numbers:
  "evalInfixExpression ''%'' (Number x) (Number y) =
     (if int_of_float64 y = 0 then Inl (Panic ''runtime error: integer divide by zero'')
      else Inr (Number (float64_of_int (int_of_float64 x smod int_of_float64 y))))
   \<and> (int_of_float64 y \<noteq> 0 \<longrightarrow>
        \<bar>int_of_float64 x smod int_of_float64 y\<bar> < \<bar>int_of_float64 y\<bar>
        \<and> (0 \<le> int_of_float64 x \<longrightarrow> 0 \<le> int_of_float64 x smod int_of_float64 y)
        \<and> (int_of_float64 x \<le> 0 \<longrightarrow> int_of_float64 x smod int_of_float64 y \<le> 0)
        \<and> int_of_float64 x =
            (int_of_float64 x sdiv int_of_float64 y) * int_of_float64 y
              + int_of_float64 x smod int_of_float64 y)"
proof (intro conjI impI)
  show "evalInfixExpression ''%'' (Number x) (Number y) =
     (if int_of_float64 y = 0 then Inl (Panic ''runtime error: integer divide by zero'')
      else Inr (Number (float64_of_int (int_of_float64 x smod int_of_float64 y))))"
    by (simp add: evalInfixExpression_def evalNumberInfixExpression_def Object_Type_NUMBER)
next
  assume "int_of_float64 y \<noteq> 0"
  then show "\<bar>int_of_float64 x smod int_of_float64 y\<bar> < \<bar>int_of_float64 y\<bar>"
    by (rule smod_int_less_divisor)
next
  assume "0 \<le> int_of_float64 x"
  then show "0 \<le> int_of_float64 x smod int_of_float64 y"
    using smod_int_sign [of "int_of_float64 x" "int_of_float64 y"] by simp
next
  assume "int_of_float64 x \<le> 0"
  then show "int_of_float64 x smod int_of_float64 y \<le> 0"
    using smod_int_sign [of "int_of_float64 x" "int_of_float64 y"] by simp
next
  show "int_of_float64 x =
      (int_of_float64 x sdiv int_of_float64 y) * int_of_float64 y
        + int_of_float64 x smod int_of_float64 y"
    by (simp add: sdiv_mult_smod_eq)
qed

text \<open>
  The programs \<open>5 % 0\<close> and \<open>5 % 0.5\<close> panic; \<open>-7 % 2\<close> is \<open>-1\<close>, \<open>7 % -2\<close> is \<open>1\<close>
  and \<open>7.9 % 2.9\<close> is \<open>1\<close>.
\<close>

theorem modulo_witness:
  "evalInfixExpression ''%'' (Number (Fin False 5)) (Number (Fin False 0))
     = Inl (Panic ''runtime error: integer divide by zero'')
   \<and> evalInfixExpression ''%'' (Number (Fin False 5)) (Number (Fin False (1 / 2)))
     = Inl (Panic ''runtime error: integer divide by zero'')
   \<and> evalInfixExpression ''%'' (Number (Fin True 7)) (Number (Fin False 2))
     = Inr (Number (Fin True 1))
   \<and> evalInfixExpression ''%'' (Number (Fin False 7)) (Number (Fin True 2))
     = Inr (Number (Fin False 1))
   \<and> evalInfixExpression ''%'' (Number (Fin False (79 / 10))) (Number (Fin False (29 / 10)))
     = Inr (Number (Fin False 1))
   \<and> int_of_float64 (Fin False 2) \<noteq> 0 \<and> int_of_float64 (Fin True 7) \<le> 0
   \<and> int_of_float64 (Fin True 7) smod int_of_float64 (Fin False 2) \<le> 0
   \<and> map_sum id (map_sum id fst) (Execute_result 20 ''5 % 0'' NewInterpreter)
     = Inl (Panic ''runtime error: integer divide by zero'')
   \<and> map_sum id (map_sum id fst) (Execute_result 20 ''5 / 0'' NewInterpreter)
     = Inr (Inr (Error ''division by zero''))"
proof -
  have i: "int_of_float64 (Fin False 0) = 0" "int_of_float64 (Fin False (1 / 2)) = 0"
    "int_of_float64 (Fin False 5) = 5"
    "int_of_float64 (Fin True 7) = - 7" "int_of_float64 (Fin False 2) = 2"
    "int_of_float64 (Fin False 7) = 7" "int_of_float64 (Fin True 2) = - 2"
    "int_of_float64 (Fin False (79 / 10)) = 7" "int_of_float64 (Fin False (29 / 10)) = 2"
    by code_simp+
  have r: "(- 7 :: int) smod 2 = - 1" "(7 :: int) smod (- 2) = 1" "(7 :: int) smod 2 = 1"
    by code_simp+
  have f: "float64_of_int (- 1) = Fin True 1" "float64_of_int 1 = Fin False 1"
    by code_simp+
  have x: "map_sum id (map_sum id fst) (Execute_result 20 ''5 % 0'' NewInterpreter)
     = Inl (Panic ''runtime error: integer divide by zero'')"
    by code_simp
  have y: "map_sum id (map_sum id fst) (Execute_result 20 ''5 / 0'' NewInterpreter)
     = Inr (Inr (Error ''division by zero''))"
    by code_simp
  show ?thesis
    using modulo_of_two_numbers [of "Fin False 5" "Fin False 0", THEN conjunct1]
      modulo_of_two_numbers [of "Fin False 5" "Fin False (1 / 2)", THEN conjunct1]
      modulo_of_two_numbers [of "Fin True 7" "Fin False 2"]
      modulo_of_two_numbers [of "Fin False 7" "Fin True 2", THEN conjunct1]
      modulo_of_two_numbers [of "Fin False (79 / 10)" "Fin False (29 / 10)", THEN conjunct1]
    by (simp only: i r f x y) simp
qed

subsection \<open>The built-in push\<close>

text \<open>
  Claim C7. \<open>push\<close> on two arguments, the first an array, returns a new array: it is
  allocated at an address no array had, its elements are those of the first argument
  followed by the second argument, and every array that existed, the first argument among
  them, has the elements it had; no environment changes. So does the call of the built-in
  through \<open>applyFunction\<close>.
\<close>

theorem push_returns_a_new_array:
  assumes "a < length (arrays st)"
  shows "builtin_push [Array a, x] st =
           Inr (Array (length (arrays st)), st\<lparr>arrays := arrays st @ [arrays st ! a @ [x]]\<rparr>)
       \<and> applyFunction (Suc n) (Builtin Push) [Array a, x] st = builtin_push [Array a, x] st
       \<and> (builtin_push [Array a, x] st = Inr (r, st') \<longrightarrow>
            r = Array (length (arrays st)) \<and> r \<noteq> Array a
            \<and> length (arrays st') = Suc (length (arrays st))
            \<and> arrays st' ! length (arrays st) = arrays st ! a @ [x]
            \<and> arrays st' ! a = arrays st ! a
            \<and> (\<forall>c<length (arrays st). arrays st' ! c = arrays st ! c)
            \<and> envs st' = envs st
            \<and> builtin_length [Array a] st'
                = Inr (Number (float64_of_int (int (length (arrays st ! a)))), st'))"
proof -
  have p: "builtin_push [Array a, x] st =
      Inr (Array (length (arrays st)), st\<lparr>arrays := arrays st @ [arrays st ! a @ [x]]\<rparr>)"
    using assms
    by (simp add: builtin_push_def Object_Type_def ARRAY_OBJ_def Let_def)
  have q: "applyFunction (Suc n) (Builtin Push) [Array a, x] st = builtin_push [Array a, x] st"
    by (simp add: applyFunction.simps builtin_Fn_def)
  have s: "r = Array (length (arrays st)) \<and> r \<noteq> Array a
        \<and> length (arrays st') = Suc (length (arrays st))
        \<and> arrays st' ! length (arrays st) = arrays st ! a @ [x]
        \<and> arrays st' ! a = arrays st ! a
        \<and> (\<forall>c<length (arrays st). arrays st' ! c = arrays st ! c)
        \<and> envs st' = envs st
        \<and> builtin_length [Array a] st'
            = Inr (Number (float64_of_int (int (length (arrays st ! a)))), st')"
    if "builtin_push [Array a, x] st = Inr (r, st')"
  proof -
    from that p have r: "r = Array (length (arrays st))"
      and st': "st' = st\<lparr>arrays := arrays st @ [arrays st ! a @ [x]]\<rparr>"
      by simp_all
    show ?thesis
      using assms unfolding r st'
      by (simp add: nth_append builtin_length_def)
  qed
  from p q s show ?thesis by blast
qed

text \<open>
  On the store with the one array \<open>[10, 20, 30]\<close>, \<open>push\<close> of that array and \<open>40\<close>; and
  the programs \<open>grid a = [1]; push(a, 2); length(a)\<close> and
  \<open>grid a = [1]; grid b = push(a, 2); length(b)\<close>.
\<close>

theorem push_witness:
  "builtin_push [Array 0, Number (Fin False 40)] three_laps =
     Inr (Array 1, three_laps\<lparr>arrays :=
       [[Number (Fin False 10), Number (Fin False 20), Number (Fin False 30)],
        [Number (Fin False 10), Number (Fin False 20), Number (Fin False 30),
         Number (Fin False 40)]]\<rparr>)
   \<and> map_sum id (map_sum id fst)
        (Execute_result 20 ''grid a = [1]; push(a, 2); length(a)'' NewInterpreter)
     = Inr (Inr (Number (Fin False 1)))
   \<and> map_sum id (map_sum id fst)
        (Execute_result 20 ''grid a = [1]; grid b = push(a, 2); length(b)'' NewInterpreter)
     = Inr (Inr (Number (Fin False 2)))"
proof -
  have len: "(0::nat) < length (arrays three_laps)" by (simp add: three_laps_def)
  have x: "map_sum id (map_sum id fst)
        (Execute_result 20 ''grid a = [1]; push(a, 2); length(a)'' NewInterpreter)
     = Inr (Inr (Number (Fin False 1)))"
    by code_simp
  have y: "map_sum id (map_sum id fst)
        (Execute_result 20 ''grid a = [1]; grid b = push(a, 2); length(b)'' NewInterpreter)
     = Inr (Inr (Number (Fin False 2)))"
    by code_simp
  show ?thesis
    using push_returns_a_new_array [OF len, of "Number (Fin False 40)", THEN conjunct1] x y
    by (simp add: three_laps_def)
qed

subsection \<open>Break and continue outside a loop\<close>

text \<open>
  Claim C10. A \<open>break_flag\<close> or \<open>continue_race\<close> statement among the statements of the
  program evaluates to its carrier, and \<open>evalProgram\<close> does not stop at a carrier: it goes
  on with the statements that follow, with the carrier as the result so far. The carrier
  is the result of the program where the statement is the last one. \<open>Execute\<close> returns an
  error exactly when the program evaluated to an error object, so it reports success for
  a program that evaluated to a carrier.
\<close>

theorem break_and_continue_at_top_level:
  "evalProgram_loop (Suc (Suc n)) (BreakFlagStatement # rest) e st res
     = evalProgram_loop (Suc n) rest e st Break
   \<and> evalProgram_loop (Suc (Suc n)) (ContinueRaceStatement # rest) e st res
     = evalProgram_loop (Suc n) rest e st Continue
   \<and> evalProgram_loop (Suc (Suc n)) [BreakFlagStatement] e st res = Inr (Break, st)
   \<and> evalProgram_loop (Suc (Suc n)) [ContinueRaceStatement] e st res = Inr (Continue, st)
   \<and> Eval (Suc (Suc (Suc (Suc n)))) (Program [BreakFlagStatement]) e st = Inr (Break, st)
   \<and> Eval (Suc (Suc (Suc (Suc n)))) (Program [ContinueRaceStatement]) e st
     = Inr (Continue, st)
   \<and> (map_option (\<lambda>(program, p). (program, errors p))
          (ParseProgram m (NewParser (NewLexer inp))) = Some (program, [])
        \<and> Eval m (Program program) (env i) (heap i) = Inr (r, st') \<longrightarrow>
        Execute m inp i =
          (if isError r then Inr (Some (Errorf (Error_Inspect r)), i\<lparr>heap := st'\<rparr>)
           else Inr (None, i\<lparr>heap := st'\<rparr>)))"
proof (intro conjI impI)
  show b: "evalProgram_loop (Suc (Suc n)) (BreakFlagStatement # rest) e st res
      = evalProgram_loop (Suc n) rest e st Break" for rest
    by (simp add: evalProgram_loop.simps Eval.simps)
  show c: "evalProgram_loop (Suc (Suc n)) (ContinueRaceStatement # rest) e st res
      = evalProgram_loop (Suc n) rest e st Continue" for rest
    by (simp add: evalProgram_loop.simps Eval.simps)
  show "evalProgram_loop (Suc (Suc n)) [BreakFlagStatement] e st res = Inr (Break, st)"
    by (simp add: evalProgram_loop.simps Eval.simps)
  show "evalProgram_loop (Suc (Suc n)) [ContinueRaceStatement] e st res = Inr (Continue, st)"
    by (simp add: evalProgram_loop.simps Eval.simps)
  show "Eval (Suc (Suc (Suc (Suc n)))) (Program [BreakFlagStatement]) e st = Inr (Break, st)"
    by (simp add: evalProgram.simps evalProgram_loop.simps Eval.simps)
  show "Eval (Suc (Suc (Suc (Suc n)))) (Program [ContinueRaceStatement]) e st
      = Inr (Continue, st)"
    by (simp add: evalProgram.simps evalProgram_loop.simps Eval.simps)
next
  assume a: "map_option (\<lambda>(program, p). (program, errors p))
          (ParseProgram m (NewParser (NewLexer inp))) = Some (program, [])
        \<and> Eval m (Program program) (env i) (heap i) = Inr (r, st')"
  then obtain p where p: "ParseProgram m (NewParser (NewLexer inp)) = Some (program, p)"
    and ep: "errors p = []"
    by (auto split: prod.splits)
  show "Execute m inp i =
          (if isError r then Inr (Some (Errorf (Error_Inspect r)), i\<lparr>heap := st'\<rparr>)
           else Inr (None, i\<lparr>heap := st'\<rparr>))"
    using a by (simp add: Execute_def p ep isError_def)
qed

text \<open>
  The programs \<open>break_flag\<close> and \<open>continue_race\<close>.
\<close>

theorem break_and_continue_witness:
  "Eval 20 (Program [BreakFlagStatement]) (env NewInterpreter) (heap NewInterpreter)
     = Inr (Break, heap NewInterpreter)
   \<and> Execute 20 ''break_flag'' NewInterpreter = Inr (None, NewInterpreter)
   \<and> Eval 20 (Program [ContinueRaceStatement]) (env NewInterpreter) (heap NewInterpreter)
     = Inr (Continue, heap NewInterpreter)
   \<and> Execute 20 ''continue_race'' NewInterpreter = Inr (None, NewInterpreter)"
proof -
  let ?e = "env NewInterpreter" and ?st = "heap NewInterpreter"
  note t = break_and_continue_at_top_level [where n = 16 and e = ?e and st = ?st]
  have n: "Suc (Suc (Suc (Suc 16))) = 20" by simp
  have b: "Eval 20 (Program [BreakFlagStatement]) ?e ?st = Inr (Break, ?st)"
    using t [THEN conjunct2, THEN conjunct2, THEN conjunct2, THEN conjunct2, THEN conjunct1]
    by (simp only: n)
  have c: "Eval 20 (Program [ContinueRaceStatement]) ?e ?st = Inr (Continue, ?st)"
    using t [THEN conjunct2, THEN conjunct2, THEN conjunct2, THEN conjunct2, THEN conjunct2,
        THEN conjunct1]
    by (simp only: n)
  have pb: "map_option (\<lambda>(program, p). (program, errors p))
      (ParseProgram 20 (NewParser (NewLexer ''break_flag''))) = Some ([BreakFlagStatement], [])"
    by code_simp
  have pc: "map_option (\<lambda>(program, p). (program, errors p))
      (ParseProgram 20 (NewParser (NewLexer ''continue_race'')))
      = Some ([ContinueRaceStatement], [])"
    by code_simp
  have ne: "\<not> isError Break" "\<not> isError Continue"
    by (simp_all add: isError_iff)
  have xb: "Execute 20 ''break_flag'' NewInterpreter = Inr (None, NewInterpreter)"
    using t [THEN conjunct2, THEN conjunct2, THEN conjunct2, THEN conjunct2, THEN conjunct2,
        THEN conjunct2, rule_format, OF conjI [OF pb b]]
    by (simp add: ne)
  have xc: "Execute 20 ''continue_race'' NewInterpreter = Inr (None, NewInterpreter)"
    using t [THEN conjunct2, THEN conjunct2, THEN conjunct2, THEN conjunct2, THEN conjunct2,
        THEN conjunct2, rule_format, OF conjI [OF pc c]]
    by (simp add: ne)
  from b c xb xc show ?thesis by simp
qed

text \<open>
  The programs \<open>break_flag; 5\<close> and \<open>break_flag; nope\<close>: the first evaluates to \<open>5\<close>, not
  to the carrier, and the second to an error, which \<open>Execute\<close> reports.
\<close>

theorem break_and_continue_counterexample:
  "map_sum id (map_sum id fst) (Execute_result 20 ''break_flag; 5'' NewInterpreter)
     = Inr (Inr (Number (Fin False 5)))
   \<and> map_sum id fst (Execute 20 ''break_flag; nope'' NewInterpreter)
     = Inr (Some (Errorf ''ERROR: identifier not found: nope''))"
proof -
  have x: "map_sum id (map_sum id fst) (Execute_result 20 ''break_flag; 5'' NewInterpreter)
     = Inr (Inr (Number (Fin False 5)))"
    by code_simp
  have y: "map_sum id fst (Execute 20 ''break_flag; nope'' NewInterpreter)
     = Inr (Some (Errorf ''ERROR: identifier not found: nope''))"
    by code_simp
  from x y show ?thesis by simp
qed

subsection \<open>Operator precedence\<close>

lemma peekToken_nextToken: "peekToken p = currentToken (nextToken p)"
  by (simp add: nextToken_def split: prod.splits)

lemma errors_nextToken: "errors (nextToken p) = errors p"
  by (simp add: nextToken_def split: prod.splits)

lemma errors_NewParser: "errors (NewParser l) = []"
  by (simp add: NewParser_def Let_def errors_nextToken)

lemma ParseFloat_digits:
  "ParseFloat ''0'' = Some (Fin False 0)" "ParseFloat ''1'' = Some (Fin False 1)"
  "ParseFloat ''2'' = Some (Fin False 2)" "ParseFloat ''3'' = Some (Fin False 3)"
  by code_simp+

lemmas parser_simps = peekToken_nextToken errors_nextToken errors_NewParser ParseFloat_digits
  parseExpressionStatement_def parseNumberLiteral_def parseIdentifier_def
  peekPrecedence_def curPrecedence_def precedences_def expectPeek_def Let_def
  LOWEST_def LOGICAL_def EQUALS_def LESSGREATER_def SUM_prec_def PRODUCT_def PREFIX_def
  CALL_def INDEX_def

lemma tokens_sum_product:
  "Type (currentToken (NewParser (NewLexer ''1 + 2 * 3''))) = NUMBER"
  "Value (currentToken (NewParser (NewLexer ''1 + 2 * 3''))) = ''1''"
  "Type (currentToken (nextToken (NewParser (NewLexer ''1 + 2 * 3'')))) = PLUS"
  "Value (currentToken (nextToken (NewParser (NewLexer ''1 + 2 * 3'')))) = ''+''"
  "Type (currentToken (nextToken (nextToken (NewParser (NewLexer ''1 + 2 * 3''))))) = NUMBER"
  "Value (currentToken (nextToken (nextToken (NewParser (NewLexer ''1 + 2 * 3''))))) = ''2''"
  "Type (currentToken (nextToken (nextToken (nextToken (NewParser (NewLexer ''1 + 2 * 3'')))))) = MULTIPLY"
  "Value (currentToken (nextToken (nextToken (nextToken (NewParser (NewLexer ''1 + 2 * 3'')))))) = ''*''"
  "Type (currentToken (nextToken (nextToken (nextToken (nextToken (NewParser (NewLexer ''1 + 2 * 3''))))))) = NUMBER"
  "Value (currentToken (nextToken (nextToken (nextToken (nextToken (NewParser (NewLexer ''1 + 2 * 3''))))))) = ''3''"
  "Type (currentToken (nextToken (nextToken (nextToken (nextToken (nextToken (NewParser (NewLexer ''1 + 2 * 3'')))))))) = EOF"
  "Value (currentToken (nextToken (nextToken (nextToken (nextToken (nextToken (NewParser (NewLexer ''1 + 2 * 3'')))))))) = []"
  by code_simp+

lemma parse_sum_product:
  "map_option (\<lambda>(program, p). (program, errors p))
     (ParseProgram (20 + n) (NewParser (NewLexer ''1 + 2 * 3'')))
   = Some ([ExpressionStatement (InfixExpression (NumberLiteral (Fin False 1)) ''+''
          (InfixExpression (NumberLiteral (Fin False 2)) ''*'' (NumberLiteral (Fin False 3))))], [])"
proof -
  have f: "20 + n = Suc (Suc (Suc (Suc (Suc (Suc (Suc (Suc (Suc (Suc (Suc (Suc (Suc (Suc (Suc (Suc (Suc (Suc (Suc (Suc (n))))))))))))))))))))"
    by simp
  show ?thesis
    unfolding f ParseProgram_def
    by (simp add: tokens_sum_product parser_simps)
qed

lemma tokens_assignment:
  "Type (currentToken (NewParser (NewLexer ''a = b + c''))) = IDENTIFIER"
  "Value (currentToken (NewParser (NewLexer ''a = b + c''))) = ''a''"
  "Type (currentToken (nextToken (NewParser (NewLexer ''a = b + c'')))) = ASSIGN"
  "Value (currentToken (nextToken (NewParser (NewLexer ''a = b + c'')))) = ''=''"
  "Type (currentToken (nextToken (nextToken (NewParser (NewLexer ''a = b + c''))))) = IDENTIFIER"
  "Value (currentToken (nextToken (nextToken (NewParser (NewLexer ''a = b + c''))))) = ''b''"
  "Type (currentToken (nextToken (nextToken (nextToken (NewParser (NewLexer ''a = b + c'')))))) = PLUS"
  "Value (currentToken (nextToken (nextToken (nextToken (NewParser (NewLexer ''a = b + c'')))))) = ''+''"
  "Type (currentToken (nextToken (nextToken (nextToken (nextToken (NewParser (NewLexer ''a = b + c''))))))) = IDENTIFIER"
  "Value (currentToken (nextToken (nextToken (nextToken (nextToken (NewParser (NewLexer ''a = b + c''))))))) = ''c''"
  "Type (currentToken (nextToken (nextToken (nextToken (nextToken (nextToken (NewParser (NewLexer ''a = b + c'')))))))) = EOF"
  "Value (currentToken (nextToken (nextToken (nextToken (nextToken (nextToken (NewParser (NewLexer ''a = b + c'')))))))) = []"
  by code_simp+

lemma parse_assignment:
  "map_option (\<lambda>(program, p). (program, errors p))
     (ParseProgram (20 + n) (NewParser (NewLexer ''a = b + c'')))
   = Some ([ExpressionStatement (AssignmentExpression ''a''
          (InfixExpression (Identifier ''b'') ''+'' (Identifier ''c'')))], [])"
proof -
  have f: "20 + n = Suc (Suc (Suc (Suc (Suc (Suc (Suc (Suc (Suc (Suc (Suc (Suc (Suc (Suc (Suc (Suc (Suc (Suc (Suc (Suc (n))))))))))))))))))))"
    by simp
  show ?thesis
    unfolding f ParseProgram_def
    by (simp add: tokens_assignment parser_simps)
qed

lemma tokens_prefixes:
  "Type (currentToken (NewParser (NewLexer ''!-a''))) = NOT"
  "Value (currentToken (NewParser (NewLexer ''!-a''))) = ''!''"
  "Type (currentToken (nextToken (NewParser (NewLexer ''!-a'')))) = MINUS"
  "Value (currentToken (nextToken (NewParser (NewLexer ''!-a'')))) = ''-''"
  "Type (currentToken (nextToken (nextToken (NewParser (NewLexer ''!-a''))))) = IDENTIFIER"
  "Value (currentToken (nextToken (nextToken (NewParser (NewLexer ''!-a''))))) = ''a''"
  "Type (currentToken (nextToken (nextToken (nextToken (NewParser (NewLexer ''!-a'')))))) = EOF"
  "Value (currentToken (nextToken (nextToken (nextToken (NewParser (NewLexer ''!-a'')))))) = []"
  by code_simp+

lemma parse_prefixes:
  "map_option (\<lambda>(program, p). (program, errors p))
     (ParseProgram (20 + n) (NewParser (NewLexer ''!-a'')))
   = Some ([ExpressionStatement (PrefixExpression ''!'' (PrefixExpression ''-'' (Identifier ''a'')))], [])"
proof -
  have f: "20 + n = Suc (Suc (Suc (Suc (Suc (Suc (Suc (Suc (Suc (Suc (Suc (Suc (Suc (Suc (Suc (Suc (Suc (Suc (Suc (Suc (n))))))))))))))))))))"
    by simp
  show ?thesis
    unfolding f ParseProgram_def
    by (simp add: tokens_prefixes parser_simps)
qed

lemma tokens_index_call:
  "Type (currentToken (NewParser (NewLexer ''a[0](1)''))) = IDENTIFIER"
  "Value (currentToken (NewParser (NewLexer ''a[0](1)''))) = ''a''"
  "Type (currentToken (nextToken (NewParser (NewLexer ''a[0](1)'')))) = LBRACKET"
  "Value (currentToken (nextToken (NewParser (NewLexer ''a[0](1)'')))) = ''[''"
  "Type (currentToken (nextToken (nextToken (NewParser (NewLexer ''a[0](1)''))))) = NUMBER"
  "Value (currentToken (nextToken (nextToken (NewParser (NewLexer ''a[0](1)''))))) = ''0''"
  "Type (currentToken (nextToken (nextToken (nextToken (NewParser (NewLexer ''a[0](1)'')))))) = RBRACKET"
  "Value (currentToken (nextToken (nextToken (nextToken (NewParser (NewLexer ''a[0](1)'')))))) = '']''"
  "Type (currentToken (nextToken (nextToken (nextToken (nextToken (NewParser (NewLexer ''a[0](1)''))))))) = LPAREN"
  "Value (currentToken (nextToken (nextToken (nextToken (nextToken (NewParser (NewLexer ''a[0](1)''))))))) = ''(''"
  "Type (currentToken (nextToken (nextToken (nextToken (nextToken (nextToken (NewParser (NewLexer ''a[0](1)'')))))))) = NUMBER"
  "Value (currentToken (nextToken (nextToken (nextToken (nextToken (nextToken (NewParser (NewLexer ''a[0](1)'')))))))) = ''1''"
  "Type (currentToken (nextToken (nextToken (nextToken (nextToken (nextToken (nextToken (NewParser (NewLexer ''a[0](1)''))))))))) = RPAREN"
  "Value (currentToken (nextToken (nextToken (nextToken (nextToken (nextToken (nextToken (NewParser (NewLexer ''a[0](1)''))))))))) = '')''"
  "Type (currentToken (nextToken (nextToken (nextToken (nextToken (nextToken (nextToken (nextToken (NewParser (NewLexer ''a[0](1)'')))))))))) = EOF"
  "Value (currentToken (nextToken (nextToken (nextToken (nextToken (nextToken (nextToken (nextToken (NewParser (NewLexer ''a[0](1)'')))))))))) = []"
  by code_simp+

lemma parse_index_call:
  "map_option (\<lambda>(program, p). (program, errors p))
     (ParseProgram (20 + n) (NewParser (NewLexer ''a[0](1)'')))
   = Some ([ExpressionStatement (CallExpression (IndexExpression (Identifier ''a'')
          (NumberLiteral (Fin False 0))) [NumberLiteral (Fin False 1)])], [])"
proof -
  have f: "20 + n = Suc (Suc (Suc (Suc (Suc (Suc (Suc (Suc (Suc (Suc (Suc (Suc (Suc (Suc (Suc (Suc (Suc (Suc (Suc (Suc (n))))))))))))))))))))"
    by simp
  show ?thesis
    unfolding f ParseProgram_def
    by (simp add: tokens_index_call parser_simps)
qed

text \<open>
  Claim C2. The parser's result on the four inputs, with no parser error, for every
  amount of fuel from 20 on: \<open>1 + 2 * 3\<close> is the sum of \<open>1\<close> and the product,
  \<open>a = b + c\<close> is the assignment of the sum to \<open>a\<close>, \<open>!-a\<close> is the negation of the
  negative, and \<open>a[0](1)\<close> is the call of the indexed element.
\<close>

theorem operator_precedence_shapes:
  "map_option (\<lambda>(program, p). (program, errors p))
     (ParseProgram (20 + n) (NewParser (NewLexer ''1 + 2 * 3'')))
   = Some ([ExpressionStatement (InfixExpression (NumberLiteral (Fin False 1)) ''+''
          (InfixExpression (NumberLiteral (Fin False 2)) ''*'' (NumberLiteral (Fin False 3))))], [])
   \<and> map_option (\<lambda>(program, p). (program, errors p))
     (ParseProgram (20 + n) (NewParser (NewLexer ''a = b + c'')))
   = Some ([ExpressionStatement (AssignmentExpression ''a''
          (InfixExpression (Identifier ''b'') ''+'' (Identifier ''c'')))], [])
   \<and> map_option (\<lambda>(program, p). (program, errors p))
     (ParseProgram (20 + n) (NewParser (NewLexer ''!-a'')))
   = Some ([ExpressionStatement (PrefixExpression ''!'' (PrefixExpression ''-'' (Identifier ''a'')))], [])
   \<and> map_option (\<lambda>(program, p). (program, errors p))
     (ParseProgram (20 + n) (NewParser (NewLexer ''a[0](1)'')))
   = Some ([ExpressionStatement (CallExpression (IndexExpression (Identifier ''a'')
          (NumberLiteral (Fin False 0))) [NumberLiteral (Fin False 1)])], [])"
  by (intro conjI) (rule parse_sum_product parse_assignment parse_prefixes parse_index_call)+

text \<open>The same with the fuel 20.\<close>

theorem operator_precedence_witness:
  "map_option (\<lambda>(program, p). (program, errors p))
     (ParseProgram 20 (NewParser (NewLexer ''1 + 2 * 3'')))
   = Some ([ExpressionStatement (InfixExpression (NumberLiteral (Fin False 1)) ''+''
          (InfixExpression (NumberLiteral (Fin False 2)) ''*'' (NumberLiteral (Fin False 3))))], [])
   \<and> map_option (\<lambda>(program, p). (program, errors p))
     (ParseProgram 20 (NewParser (NewLexer ''a = b + c'')))
   = Some ([ExpressionStatement (AssignmentExpression ''a''
          (InfixExpression (Identifier ''b'') ''+'' (Identifier ''c'')))], [])
   \<and> map_option (\<lambda>(program, p). (program, errors p))
     (ParseProgram 20 (NewParser (NewLexer ''!-a'')))
   = Some ([ExpressionStatement (PrefixExpression ''!'' (PrefixExpression ''-'' (Identifier ''a'')))], [])
   \<and> map_option (\<lambda>(program, p). (program, errors p))
     (ParseProgram 20 (NewParser (NewLexer ''a[0](1)'')))
   = Some ([ExpressionStatement (CallExpression (IndexExpression (Identifier ''a'')
          (NumberLiteral (Fin False 0))) [NumberLiteral (Fin False 1)])], [])"
  using operator_precedence_shapes [of 0] by simp

end
